(* ===== verification/Prelude.thy ===== *)
theory Prelude
  imports Main "HOL-Library.State_Monad" "HOL-Library.Char_ord" "HOL-Library.List_Lexorder"
begin

text \<open>
  Shared by every component: the collections of facts the proofs of the development draw
  on, names for the types of the model, and generic lemmas on lists, options and sums.

  Go values are modelled as follows everywhere. A Go \<^verbatim>\<open>string\<close> is a list of bytes
  (\<open>string\<close>, a list of \<open>char\<close>), compared bytewise, which is the order of
  \<^verbatim>\<open>HOL-Library.List_Lexorder\<close> over \<^verbatim>\<open>HOL-Library.Char_ord\<close>. A pointer that may be
  nil is an \<open>option\<close>. A function returning \<^verbatim>\<open>(T, error)\<close> returns \<open>gerror + 'a\<close>; a
  function returning only an \<^verbatim>\<open>error\<close> returns \<open>gerror option\<close>, with \<open>None\<close> for nil.
\<close>

named_theorems go_simps \<open>unfolding of the Go library functions\<close>
named_theorems emits_intros \<open>which events a handler can emit\<close>
named_theorems wp_simps \<open>weakest preconditions of handlers\<close>

section \<open>Names for the types of the model\<close>

text \<open>A namespaced name (\<^verbatim>\<open>types.NamespacedName\<close>): namespace, then name.\<close>

type_synonym nsname = "string \<times> string"

text \<open>Times and durations are integers, in nanoseconds (\<^verbatim>\<open>time.Duration\<close>).\<close>

type_synonym time = int

abbreviation seconds :: "int \<Rightarrow> time" where
  "seconds n \<equiv> n * 1000000000"

section \<open>Machine integers\<close>

text \<open>Addition on \<^verbatim>\<open>int64\<close> wraps around.\<close>

definition wrap64 :: "int \<Rightarrow> int" where
  "wrap64 n = (n + 2 ^ 63) mod 2 ^ 64 - 2 ^ 63"

lemma wrap64_id: "- (2 ^ 63) \<le> n \<Longrightarrow> n < 2 ^ 63 \<Longrightarrow> wrap64 n = n"
  by (simp add: wrap64_def)

lemma wrap64_range: "- (2 ^ 63) \<le> wrap64 n \<and> wrap64 n < 2 ^ 63"
  using pos_mod_bound [of "2 ^ 64" "n + 2 ^ 63"] by (simp add: wrap64_def)

lemma wrap64_add: "wrap64 (wrap64 m + n) = wrap64 (m + n)"
proof -
  have "((m + 2 ^ 63) mod 2 ^ 64 - 2 ^ 63 + n + 2 ^ 63) mod 2 ^ 64 = ((m + 2 ^ 63) mod 2 ^ 64 + n) mod (2 ^ 64 :: int)" by simp
  also have "\<dots> = (m + n + 2 ^ 63) mod 2 ^ 64" unfolding mod_add_left_eq by (simp add: algebra_simps)
  finally show ?thesis by (simp add: wrap64_def)
qed

section \<open>Generic lemmas\<close>

lemma foldl_invariant:
  "P a \<Longrightarrow> (\<And>b x. x \<in> set xs \<Longrightarrow> P b \<Longrightarrow> P (f b x)) \<Longrightarrow> P (foldl f a xs)"
  by (induction xs arbitrary: a) auto

lemma find_None_iff_all: "find P xs = None \<longleftrightarrow> (\<forall>x\<in>set xs. \<not> P x)"
  by (auto simp: find_None_iff)

lemma find_SomeD: "find P xs = Some x \<Longrightarrow> x \<in> set xs \<and> P x"
  by (auto simp: find_Some_iff)

lemma takeWhile_not_mem: "x \<notin> set (takeWhile (\<lambda>c. c \<noteq> x) xs)"
  by (auto dest: set_takeWhileD)

lemma sorted_key_list_unique:
  \<comment> \<open>A list sorted by a key that is injective on its elements is determined by its elements.\<close>
  assumes "sorted (map f xs)" "sorted (map f ys)"
    and "distinct xs" "distinct ys" "set xs = set ys" "inj_on f (set xs)"
  shows "xs = ys"
proof -
  have dist: "distinct (map f xs)" "distinct (map f ys)"
    using assms by (auto simp: distinct_map)
  have "set (map f xs) = set (map f ys)"
    using assms(5) by simp
  with assms(1,2) dist have "map f xs = map f ys"
    by (intro sorted_distinct_set_unique)
  moreover have "inj_on f (set xs \<union> set ys)"
    using assms(5,6) by simp
  ultimately show ?thesis
    by (rule map_inj_on)
qed

end
