(* ===== verification/Kube.thy ===== *)
theory Kube
  imports GoStrings
begin

text \<open>
  The Kubernetes data the operator reads and writes, and the Kubernetes library functions it
  calls. Both are third-party code. Of the data (\<^verbatim>\<open>k8s.io/api\<close>) the records hold the fields
  the repository uses. The functions (\<^verbatim>\<open>apimachinery\<close>, \<^verbatim>\<open>controller-runtime\<close>) are the
  fields of the parameter record \<open>klib\<close>: nothing is assumed of them here, and a property
  that relies on documented behaviour names it as a hypothesis (\<open>conditions_lib\<close> for
  \<^verbatim>\<open>meta.SetStatusCondition\<close> and its kin, \<open>owner_lib\<close> for \<^verbatim>\<open>controllerutil.SetControllerReference\<close>).
\<close>

section \<open>Errors\<close>

text \<open>
  A Go error carries a message and, when it comes from the API server, a reason that
  \<^verbatim>\<open>apierrors.IsNotFound\<close>, \<^verbatim>\<open>IsConflict\<close> and \<^verbatim>\<open>IsAlreadyExists\<close> look up, also through
  errors that wrap it (\<^verbatim>\<open>%w\<close>). A Go panic unwinds the call and controller-runtime turns
  it into the reconcile's error: it is an error of the class \<open>ErrPanic\<close>, which nothing wraps.
\<close>

datatype err_class = ErrNotFound | ErrConflict | ErrAlreadyExists | ErrOther | ErrPanic

record gerror =
  err_class :: err_class
  err_msg :: string

definition errorf :: "string \<Rightarrow> gerror" where
  "errorf msg = \<lparr>err_class = ErrOther, err_msg = msg\<rparr>"

definition wrapf :: "string \<Rightarrow> gerror \<Rightarrow> gerror" where
  \<comment> \<open>\<^verbatim>\<open>fmt.Errorf(pre + "%w", err)\<close>\<close>
  "wrapf pre e = (if err_class e = ErrPanic then e else e\<lparr>err_msg := pre @ err_msg e\<rparr>)"

definition nil_dereference :: gerror where
  "nil_dereference = \<lparr>err_class = ErrPanic,
     err_msg = ''invalid memory address or nil pointer dereference''\<rparr>"

lemma err_class_wrapf [simp]: "err_class (wrapf pre e) = err_class e"
  by (simp add: wrapf_def)

lemma err_class_errorf [simp]: "err_class (errorf msg) = ErrOther"
  by (simp add: errorf_def)

definition is_not_found :: "gerror \<Rightarrow> bool" where
  "is_not_found e \<longleftrightarrow> err_class e = ErrNotFound"

definition is_conflict :: "gerror \<Rightarrow> bool" where
  "is_conflict e \<longleftrightarrow> err_class e = ErrConflict"

definition is_already_exists :: "gerror \<Rightarrow> bool" where
  "is_already_exists e \<longleftrightarrow> err_class e = ErrAlreadyExists"

definition ignore_not_found :: "gerror \<Rightarrow> gerror option" where
  \<comment> \<open>\<^verbatim>\<open>client.IgnoreNotFound\<close>\<close>
  "ignore_not_found e = (if is_not_found e then None else Some e)"

section \<open>Object metadata and conditions\<close>

type_synonym labels = "string \<rightharpoonup> string"

record owner_ref =
  or_kind :: string
  or_name :: string
  or_uid :: string

record obj_meta =
  m_name :: string
  m_namespace :: string
  m_generate_name :: string
  m_uid :: string
  m_resource_version :: string
  m_generation :: int
  m_labels :: labels
  m_finalizers :: "string list"
  m_controller :: "owner_ref option"
  m_created :: "time option"
  m_deletion :: "time option"

definition fresh_meta :: "string \<Rightarrow> string \<Rightarrow> obj_meta" where
  \<comment> \<open>\<^verbatim>\<open>metav1.ObjectMeta{Name: name, Namespace: ns}\<close>\<close>
  "fresh_meta name ns = \<lparr>m_name = name, m_namespace = ns, m_generate_name = '''', m_uid = '''',
     m_resource_version = '''', m_generation = 0, m_labels = Map.empty, m_finalizers = [],
     m_controller = None, m_created = None, m_deletion = None\<rparr>"

definition label :: "obj_meta \<Rightarrow> string \<Rightarrow> string" where
  \<comment> \<open>reading a Go map: the zero value for a missing key\<close>
  "label m k = (case m_labels m k of None \<Rightarrow> '''' | Some v \<Rightarrow> v)"

definition meta_key :: "obj_meta \<Rightarrow> nsname" where
  "meta_key m = (m_namespace m, m_name m)"

datatype cond_status = ConditionTrue | ConditionFalse | ConditionUnknown

record condition =
  c_type :: string
  c_status :: cond_status
  c_reason :: string
  c_message :: string
  c_observed :: int
  c_transition :: time

definition new_condition :: "string \<Rightarrow> cond_status \<Rightarrow> string \<Rightarrow> string \<Rightarrow> condition" where
  "new_condition ty st reason msg = \<lparr>c_type = ty, c_status = st, c_reason = reason,
     c_message = msg, c_observed = 0, c_transition = 0\<rparr>"

section \<open>Containers and Pods\<close>

record secret_key_ref =
  sk_name :: string
  sk_key :: string
  sk_optional :: "bool option"

record env_source =
  es_secret :: "secret_key_ref option"

record env_var =
  ev_name :: string
  ev_value :: string
  ev_from :: "env_source option"

record secret_source =
  ss_name :: string
  ss_optional :: "bool option"

record env_from =
  ef_secret :: "secret_source option"

record volume_mount =
  vm_name :: string
  vm_path :: string
  vm_read_only :: bool

record secret_volume =
  sv_name :: string
  sv_items :: "(string \<times> string) list"
  sv_optional :: "bool option"

record volume_projection =
  vp_secret :: "secret_source option"

record volume =
  v_name :: string
  v_empty_dir :: bool
  v_config_map :: "string option"
  v_secret :: "secret_volume option"
  v_projected :: "volume_projection list option"

record resource_reqs =
  rr_requests :: "(string \<times> string) list"
  rr_limits :: "(string \<times> string) list"

record container_port =
  cp_name :: string
  cp_port :: int
  cp_protocol :: string

datatype probe = TCPSocketProbe int int | HTTPGetProbe string int

record security_context =
  sc_allow_escalation :: bool
  sc_read_only_root :: bool
  sc_drop :: "string list"

record container =
  k_name :: string
  k_image :: string
  k_command :: "string list"
  k_args :: "string list"
  k_env :: "env_var list"
  k_env_from :: "env_from list"
  k_mounts :: "volume_mount list"
  k_working_dir :: string
  k_resources :: resource_reqs
  k_ports :: "container_port list"
  k_probe :: "probe option"
  k_term_policy :: string
  k_security :: "security_context option"

record pod_security =
  psc_non_root :: bool
  psc_user :: int
  psc_group :: int
  psc_fs_group :: int
  psc_seccomp :: string

record pod_spec =
  ps_restart :: string
  ps_init :: "container list"
  ps_containers :: "container list"
  ps_volumes :: "volume list"
  ps_pull_secrets :: "string list"
  ps_automount :: "bool option"
  ps_security :: "pod_security option"

datatype pod_phase = PodPending | PodRunning | PodSucceeded | PodFailed | PodUnknown

record terminated =
  t_exit :: int
  t_reason :: string
  t_message :: string

record waiting =
  w_reason :: string
  w_message :: string

record container_status =
  cs_name :: string
  cs_waiting :: "waiting option"
  cs_running :: bool
  cs_terminated :: "terminated option"

record pod_status =
  pst_phase :: pod_phase
  pst_message :: string
  pst_init :: "container_status list"
  pst_containers :: "container_status list"

record pod =
  pod_meta :: obj_meta
  pod_spec_of :: pod_spec
  pod_status_of :: pod_status

text \<open>Zero values, from which Go's composite literals start.\<close>

definition no_resources :: resource_reqs where
  "no_resources = \<lparr>rr_requests = [], rr_limits = []\<rparr>"

definition empty_container :: container where
  "empty_container = \<lparr>k_name = '''', k_image = '''', k_command = [], k_args = [], k_env = [],
     k_env_from = [], k_mounts = [], k_working_dir = '''', k_resources = no_resources,
     k_ports = [], k_probe = None, k_term_policy = '''', k_security = None\<rparr>"

definition empty_pod_spec :: pod_spec where
  "empty_pod_spec = \<lparr>ps_restart = '''', ps_init = [], ps_containers = [], ps_volumes = [],
     ps_pull_secrets = [], ps_automount = None, ps_security = None\<rparr>"

definition empty_pod_status :: pod_status where
  "empty_pod_status = \<lparr>pst_phase = PodPending, pst_message = '''', pst_init = [], pst_containers = []\<rparr>"

definition env_value :: "string \<Rightarrow> string \<Rightarrow> env_var" where
  "env_value n v = \<lparr>ev_name = n, ev_value = v, ev_from = None\<rparr>"

definition env_from_secret :: "string \<Rightarrow> secret_key_ref \<Rightarrow> env_var" where
  "env_from_secret n r = \<lparr>ev_name = n, ev_value = '''', ev_from = Some \<lparr>es_secret = Some r\<rparr>\<rparr>"

definition mount :: "string \<Rightarrow> string \<Rightarrow> volume_mount" where
  "mount n p = \<lparr>vm_name = n, vm_path = p, vm_read_only = False\<rparr>"

definition mount_ro :: "string \<Rightarrow> string \<Rightarrow> volume_mount" where
  "mount_ro n p = \<lparr>vm_name = n, vm_path = p, vm_read_only = True\<rparr>"

definition empty_dir_volume :: "string \<Rightarrow> volume" where
  "empty_dir_volume n = \<lparr>v_name = n, v_empty_dir = True, v_config_map = None, v_secret = None,
     v_projected = None\<rparr>"

section \<open>Other objects\<close>

record secret =
  sec_meta :: obj_meta
  sec_type :: string
  sec_data :: "string \<rightharpoonup> string"

record config_map =
  cm_meta :: obj_meta
  cm_data :: "string \<rightharpoonup> string"

record deploy_condition =
  dc_type :: string
  dc_status :: cond_status
  dc_reason :: string

record deployment =
  d_meta :: obj_meta
  d_replicas :: "int option"
  d_selector :: "labels option"
  d_strategy :: string
  d_template_labels :: labels
  d_template_spec :: pod_spec
  d_observed_generation :: int
  d_updated_replicas :: int
  d_available_replicas :: int
  d_conditions :: "deploy_condition list"

record service_port =
  sp_name :: string
  sp_port :: int
  sp_target :: int
  sp_protocol :: string

record kube_service =
  ks_meta :: obj_meta
  ks_selector :: labels
  ks_type :: string
  ks_ports :: "service_port list"

record label_requirement =
  lr_key :: string
  lr_operator :: string
  lr_values :: "string list"

record label_selector =
  ls_match_labels :: "(string \<times> string) list"
  ls_match_expressions :: "label_requirement list"

record selector =
  sel_empty :: bool
  sel_matches :: "labels \<Rightarrow> bool"

section \<open>The library functions\<close>

text \<open>
  Beside Kubernetes' libraries, three functions the code takes from elsewhere: \<^verbatim>\<open>net/url\<close>'s
  \<^verbatim>\<open>Parse\<close> (the parts of its result the code reads), go-git's \<^verbatim>\<open>ReferenceName.Short\<close>, and
  SHA-256.
\<close>

record go_url =
  u_scheme :: string
  u_host :: string
  u_path :: string

record klib =
  lib_set_condition :: "time \<Rightarrow> condition \<Rightarrow> condition list \<Rightarrow> condition list"
  lib_remove_condition :: "string \<Rightarrow> condition list \<Rightarrow> condition list"
  lib_find_condition :: "string \<Rightarrow> condition list \<Rightarrow> condition option"
  lib_contains_finalizer :: "string \<Rightarrow> obj_meta \<Rightarrow> bool"
  lib_add_finalizer :: "string \<Rightarrow> obj_meta \<Rightarrow> obj_meta"
  lib_remove_finalizer :: "string \<Rightarrow> obj_meta \<Rightarrow> obj_meta"
  lib_set_controller :: "owner_ref \<Rightarrow> obj_meta \<Rightarrow> gerror + obj_meta"
  lib_get_controller :: "obj_meta \<Rightarrow> owner_ref option"
  lib_controlled_by :: "obj_meta \<Rightarrow> obj_meta \<Rightarrow> bool"
  lib_selector :: "label_selector \<Rightarrow> gerror + selector"
  lib_sha256 :: "string \<Rightarrow> string"
  lib_url_parse :: "string \<Rightarrow> gerror + go_url"
  lib_ref_short :: "string \<Rightarrow> string"

text \<open>
  Documented behaviour of \<^verbatim>\<open>meta.SetStatusCondition\<close>, \<^verbatim>\<open>RemoveStatusCondition\<close> and
  \<^verbatim>\<open>FindStatusCondition\<close>: setting a condition makes the list hold it, with its status,
  reason, message and generation, as the condition of its type, and leaves the other types
  alone; removing drops the type and leaves the others alone.
\<close>

definition same_condition :: "condition \<Rightarrow> condition \<Rightarrow> bool" where
  "same_condition c d \<longleftrightarrow> c_type c = c_type d \<and> c_status c = c_status d \<and> c_reason c = c_reason d
     \<and> c_message c = c_message d \<and> c_observed c = c_observed d"

definition conditions_lib :: "klib \<Rightarrow> bool" where
  "conditions_lib L \<longleftrightarrow>
     (\<forall>now c cs. \<exists>d. lib_find_condition L (c_type c) (lib_set_condition L now c cs) = Some d
        \<and> same_condition d c)
   \<and> (\<forall>now c cs ty. ty \<noteq> c_type c \<longrightarrow>
        lib_find_condition L ty (lib_set_condition L now c cs) = lib_find_condition L ty cs)
   \<and> (\<forall>cs ty ty'. lib_find_condition L ty' (lib_remove_condition L ty cs)
        = (if ty' = ty then None else lib_find_condition L ty' cs))"

lemma find_set_condition:
  assumes "conditions_lib L"
  obtains d where "lib_find_condition L (c_type c) (lib_set_condition L now c cs) = Some d"
    and "same_condition d c"
  using assms unfolding conditions_lib_def by blast

lemma find_set_other_condition:
  "conditions_lib L \<Longrightarrow> ty \<noteq> c_type c \<Longrightarrow>
   lib_find_condition L ty (lib_set_condition L now c cs) = lib_find_condition L ty cs"
  unfolding conditions_lib_def by blast

text \<open>
  Documented behaviour of \<^verbatim>\<open>controllerutil.SetControllerReference\<close>: it makes the owner the controller of an object of
  its namespace that no other object controls; of an object with another controller it is an error.
\<close>

definition owner_lib :: "klib \<Rightarrow> owner_ref \<Rightarrow> string \<Rightarrow> bool" where
  "owner_lib L ow ns \<longleftrightarrow> (\<forall>m. m_namespace m = ns \<and> m_controller m \<in> {None, Some ow} \<longrightarrow>
     lib_set_controller L ow m = Inr (m\<lparr>m_controller := Some ow\<rparr>))"

lemma owner_libD:
  "owner_lib L ow ns \<Longrightarrow> m_namespace m = ns \<Longrightarrow> m_controller m \<in> {None, Some ow} \<Longrightarrow>
   lib_set_controller L ow m = Inr (m\<lparr>m_controller := Some ow\<rparr>)"
  unfolding owner_lib_def by blast

text \<open>
  A concrete library with that behaviour, for the closed instances of the properties: lists
  of conditions searched by type.
\<close>

definition set_condition_ref :: "time \<Rightarrow> condition \<Rightarrow> condition list \<Rightarrow> condition list" where
  "set_condition_ref now c cs = (if \<exists>d\<in>set cs. c_type d = c_type c
     then map (\<lambda>d. if c_type d = c_type c
       then c\<lparr>c_transition := (if c_status d = c_status c then c_transition d else now)\<rparr> else d) cs
     else cs @ [c\<lparr>c_transition := now\<rparr>])"

definition klib_ref :: klib where
  "klib_ref = \<lparr>
     lib_set_condition = set_condition_ref,
     lib_remove_condition = (\<lambda>ty. filter (\<lambda>c. c_type c \<noteq> ty)),
     lib_find_condition = (\<lambda>ty. find (\<lambda>c. c_type c = ty)),
     lib_contains_finalizer = (\<lambda>f m. f \<in> set (m_finalizers m)),
     lib_add_finalizer = (\<lambda>f m. if f \<in> set (m_finalizers m) then m
        else m\<lparr>m_finalizers := m_finalizers m @ [f]\<rparr>),
     lib_remove_finalizer = (\<lambda>f m. m\<lparr>m_finalizers := removeAll f (m_finalizers m)\<rparr>),
     lib_set_controller = (\<lambda>o' m. case m_controller m of
        Some o'' \<Rightarrow> if o'' = o' then Inr m else Inl (errorf ''already owned'')
      | None \<Rightarrow> Inr (m\<lparr>m_controller := Some o'\<rparr>)),
     lib_get_controller = m_controller,
     lib_controlled_by = (\<lambda>o' m. map_option or_uid (m_controller m) = Some (m_uid o')),
     lib_selector = (\<lambda>s. if ls_match_expressions s \<noteq> [] then Inl (errorf ''expressions'')
       else Inr \<lparr>sel_empty = (ls_match_labels s = []),
         sel_matches = (\<lambda>l. list_all (\<lambda>(k, v). l k = Some v) (ls_match_labels s))\<rparr>),
     lib_sha256 = (\<lambda>s. replicate 32 (char_of (length s))),
     lib_url_parse = (\<lambda>s. let (scheme, rest, ok) = cut s CHR '':'' in
        if ok \<and> has_prefix rest ''//'' then
          (let h = takeWhile (\<lambda>c. c \<noteq> CHR ''/'') (drop 2 rest)
           in Inr \<lparr>u_scheme = scheme, u_host = h, u_path = drop (2 + length h) rest\<rparr>)
        else Inl (errorf ''no scheme'')),
     lib_ref_short = (\<lambda>s. trim_prefix (trim_prefix s ''refs/heads/'') ''refs/tags/'')\<rparr>"

lemma owner_lib_ref [simp]: "owner_lib klib_ref ow ns"
  unfolding owner_lib_def by (clarify, case_tac m) (auto simp: klib_ref_def)

lemma find_append_one: "(\<forall>x\<in>set xs. \<not> P x) \<Longrightarrow> find P (xs @ [y]) = (if P y then Some y else None)"
  by (induction xs) auto

lemma find_map_type:
  assumes "\<exists>d\<in>set cs. c_type d = c_type c" and "\<And>d. c_type (f d) = c_type c" and "\<And>d. same_condition (f d) c"
  shows "\<exists>d. find (\<lambda>e. c_type e = c_type c) (map (\<lambda>d. if c_type d = c_type c then f d else d) cs) = Some d
     \<and> same_condition d c"
  using assms by (induction cs) auto

lemma find_map_other_type:
  assumes "ty \<noteq> c_type c" and "\<And>d. c_type (f d) = c_type c"
  shows "find (\<lambda>e. c_type e = ty) (map (\<lambda>d. if c_type d = c_type c then f d else d) cs)
     = find (\<lambda>e. c_type e = ty) cs"
  using assms by (induction cs) auto

lemma find_append_other: "\<not> P y \<Longrightarrow> find P (xs @ [y]) = find P xs"
  by (induction xs) auto

lemma find_filter_type:
  "find (\<lambda>e. c_type e = ty') (filter (\<lambda>c. c_type c \<noteq> ty) cs)
   = (if ty' = ty then None else find (\<lambda>e. c_type e = ty') cs)"
  by (induction cs) auto

lemma conditions_lib_ref: "conditions_lib klib_ref"
  unfolding conditions_lib_def
proof (intro conjI allI impI)
  fix now c cs
  show "\<exists>d. lib_find_condition klib_ref (c_type c) (lib_set_condition klib_ref now c cs) = Some d
     \<and> same_condition d c"
    using find_map_type [of cs c
      "\<lambda>d. c\<lparr>c_transition := (if c_status d = c_status c then c_transition d else now)\<rparr>"]
    by (auto simp: klib_ref_def set_condition_ref_def same_condition_def find_append_one)
next
  fix now and c :: condition and cs and ty :: string
  assume "ty \<noteq> c_type c"
  then show "lib_find_condition klib_ref ty (lib_set_condition klib_ref now c cs)
     = lib_find_condition klib_ref ty cs"
    by (auto simp: klib_ref_def set_condition_ref_def find_append_other intro: find_map_other_type)
next
  fix cs ty ty'
  show "lib_find_condition klib_ref ty' (lib_remove_condition klib_ref ty cs)
     = (if ty' = ty then None else lib_find_condition klib_ref ty' cs)"
    by (simp add: klib_ref_def find_filter_type)
qed

end
