(* ===== verification/ApiTypes.thy ===== *)
theory ApiTypes
  imports Kube
begin

text \<open>
  The custom resources of \<^verbatim>\<open>api/v1\<close>, one record per struct with the source's fields in the
  source's order, and one datatype per string enumeration. A phase that was never written is
  the empty string in Go; it is the constructor ending in \<open>Unset\<close>. An enumeration the code
  also handles outside its constants has a constructor for the other strings.
  \<open>TypeMeta\<close> and the list kinds carry no behaviour and have no record.
\<close>

section \<open>Shared references and the CI\<close>

datatype ci_phase = CIPhaseUnset | CIPhaseIdle | CIPhaseResolving | CIPhaseBuilding
  | CIPhaseSucceeded | CIPhaseFailed

fun ci_phase_string :: "ci_phase \<Rightarrow> string" where
  "ci_phase_string CIPhaseUnset = ''''"
| "ci_phase_string CIPhaseIdle = ''Idle''"
| "ci_phase_string CIPhaseResolving = ''Resolving''"
| "ci_phase_string CIPhaseBuilding = ''Building''"
| "ci_phase_string CIPhaseSucceeded = ''Succeeded''"
| "ci_phase_string CIPhaseFailed = ''Failed''"

record object_reference =
  ref_name :: string

record login_secret =
  ls_username :: string
  ls_password :: string

record registry_spec =
  rs_registry :: string
  rs_repo :: string
  rs_credentials_secret :: string
  rs_creds :: "login_secret option"

record ciplugin_ref =
  pr_name :: string
  pr_generation :: int

record ci_spec =
  cis_service :: object_reference
  cis_registry :: registry_spec
  cis_revision :: string
  cis_dockerfile_config_map :: string
  cis_context_dir :: string
  cis_plugins :: "ciplugin_ref list"
  cis_extra_steps :: "container list"

datatype plugin_phase = PluginPhasePending | PluginPhaseRunning | PluginPhaseSucceeded | PluginPhaseFailed

record plugin_result =
  pres_name :: string
  pres_phase :: plugin_phase
  pres_message :: string

record ci_status =
  cst_phase :: ci_phase
  cst_revision :: string
  cst_image :: string
  cst_build_count :: int
  cst_build_time :: "time option"
  cst_message :: string
  cst_build_pod :: string
  cst_building_revision :: string
  cst_plugin_results :: "plugin_result list"
  cst_observed_generation :: int
  cst_conditions :: "condition list"

record ci =
  ci_meta :: obj_meta
  ci_spec_of :: ci_spec
  ci_status_of :: ci_status

section \<open>The CD\<close>

datatype cd_phase = CDPhaseUnset | CDPhaseWaiting | CDPhaseDeploying | CDPhaseRunning | CDPhaseFailed

fun cd_phase_string :: "cd_phase \<Rightarrow> string" where
  "cd_phase_string CDPhaseUnset = ''''"
| "cd_phase_string CDPhaseWaiting = ''Waiting''"
| "cd_phase_string CDPhaseDeploying = ''Deploying''"
| "cd_phase_string CDPhaseRunning = ''Running''"
| "cd_phase_string CDPhaseFailed = ''Failed''"

text \<open>A \<^verbatim>\<open>resource.Quantity\<close> is kept as the text it was parsed from.\<close>

record cd_resources =
  cdr_cpu_request :: "string option"
  cdr_cpu_limit :: "string option"
  cdr_memory_request :: "string option"
  cdr_memory_limit :: "string option"

record cd_spec =
  cds_ci :: object_reference
  cds_replicas :: int
  cds_env :: "env_var list"
  cds_resources :: "cd_resources option"
  cds_port :: int
  cds_image_pull_secret :: string

record cd_status =
  cdst_phase :: cd_phase
  cdst_revision :: string
  cdst_image :: string
  cdst_message :: string
  cdst_available_replicas :: int
  cdst_conditions :: "condition list"

record cd =
  cd_meta :: obj_meta
  cd_spec_of :: cd_spec
  cd_status_of :: cd_status

section \<open>The CIPlugin\<close>

datatype plugin_type = CIPluginSonarQube | CIPluginCodeQL | CIPluginCustom | CIPluginOther string

fun plugin_type_string :: "plugin_type \<Rightarrow> string" where
  "plugin_type_string CIPluginSonarQube = ''sonarqube''"
| "plugin_type_string CIPluginCodeQL = ''codeql''"
| "plugin_type_string CIPluginCustom = ''custom''"
| "plugin_type_string (CIPluginOther s) = s"

datatype failure_policy = FailurePolicyUnset | FailurePolicyFail | FailurePolicyIgnore

record plugin_target_ref =
  ptr_kind :: string
  ptr_name :: string

record sonarqube_config =
  sq_host_url :: string
  sq_token_secret_ref :: secret_key_ref
  sq_project_key :: string
  sq_wait_for_quality_gate :: "bool option"
  sq_extra_args :: "string list"
  sq_image :: string

record codeql_github_upload =
  gh_repository :: string
  gh_ref :: string
  gh_token_secret_ref :: secret_key_ref

record codeql_config =
  cq_languages :: "string list"
  cq_query_suite :: string
  cq_fail_on_severity :: string
  cq_bundle_url :: string
  cq_image :: string
  cq_github :: "codeql_github_upload option"

record custom_step =
  cu_image :: string
  cu_command :: "string list"
  cu_args :: "string list"
  cu_env :: "env_var list"
  cu_env_from :: "env_from list"

record ciplugin_spec =
  pls_type :: plugin_type
  pls_order :: int
  pls_failure_policy :: failure_policy
  pls_target_refs :: "plugin_target_ref list"
  pls_selector :: "label_selector option"
  pls_resources :: "resource_reqs option"
  pls_sonarqube :: "sonarqube_config option"
  pls_codeql :: "codeql_config option"
  pls_custom :: "custom_step option"

record ciplugin_status =
  plst_attached_services :: "string list"
  plst_observed_generation :: int
  plst_conditions :: "condition list"

record ciplugin =
  pl_meta :: obj_meta
  pl_spec_of :: ciplugin_spec
  pl_status_of :: ciplugin_status

section \<open>The Service\<close>

datatype service_phase = ServicePhaseUnset | ServicePhasePending | ServicePhaseDiscovering
  | ServicePhaseBuilding | ServicePhaseReady | ServicePhaseFailed

fun service_phase_string :: "service_phase \<Rightarrow> string" where
  "service_phase_string ServicePhaseUnset = ''''"
| "service_phase_string ServicePhasePending = ''Pending''"
| "service_phase_string ServicePhaseDiscovering = ''Discovering''"
| "service_phase_string ServicePhaseBuilding = ''Building''"
| "service_phase_string ServicePhaseReady = ''Ready''"
| "service_phase_string ServicePhaseFailed = ''Failed''"

record source =
  src_repo :: string
  src_revision :: string
  src_secret_ref :: "secret_key_ref option"

record image_spec =
  im_registry :: string
  im_repo :: string
  im_credentials_secret :: string

record build_spec =
  bs_context_dir :: string
  bs_dockerfile_path :: string
  bs_language :: string

record plugin_ref =
  plr_name :: string

record detected_stack =
  ds_language :: string
  ds_version :: string
  ds_package_manager :: string
  ds_framework :: string
  ds_entrypoint :: string

record service_spec =
  svs_source :: source
  svs_env :: "env_var list"
  svs_image :: "image_spec option"
  svs_replicas :: "int option"
  svs_build :: "build_spec option"
  svs_plugins :: "plugin_ref list"
  svs_port :: int

record service_status =
  svst_phase :: service_phase
  svst_service_type :: string
  svst_latest_revision :: string
  svst_last_push_detected :: "time option"
  svst_ci_ref :: string
  svst_cd_ref :: string
  svst_dockerfile_config_map :: string
  svst_dockerfile_source :: string
  svst_detected :: "detected_stack option"
  svst_observed_generation :: int
  svst_error :: string
  svst_message :: string
  svst_conditions :: "condition list"

record service =
  sv_meta :: obj_meta
  sv_spec_of :: service_spec
  sv_status_of :: service_status

section \<open>The Alert\<close>

datatype alert_event = AlertPush | AlertCIStarted | AlertCISucceeded | AlertCIFailed
  | AlertCDDeploying | AlertCDSucceeded | AlertCDFailed

fun alert_event_string :: "alert_event \<Rightarrow> string" where
  "alert_event_string AlertPush = ''Push''"
| "alert_event_string AlertCIStarted = ''CIStarted''"
| "alert_event_string AlertCISucceeded = ''CISucceeded''"
| "alert_event_string AlertCIFailed = ''CIFailed''"
| "alert_event_string AlertCDDeploying = ''CDDeploying''"
| "alert_event_string AlertCDSucceeded = ''CDSucceeded''"
| "alert_event_string AlertCDFailed = ''CDFailed''"

datatype channel_type = ChannelSlack | ChannelTeams | ChannelWebhook | ChannelOther string

record alert_channel =
  ach_name :: string
  ach_type :: channel_type
  ach_url_secret_ref :: secret_key_ref
  ach_signing_secret_ref :: "secret_key_ref option"

record alert_spec =
  as_service_ref :: "object_reference option"
  as_selector :: "label_selector option"
  as_events :: "alert_event list"
  as_channels :: "alert_channel list"
  as_suspend :: bool

record alert_delivery =
  ad_time :: time
  ad_service :: string
  ad_event :: alert_event
  ad_channel :: string
  ad_revision :: string
  ad_success :: bool
  ad_error :: string

text \<open>
  \<^verbatim>\<open>LastNotified\<close> is a Go map the code ranges over: an association list with distinct keys.
\<close>

record alert_status =
  ast_initialized :: bool
  ast_last_notified :: "(string \<times> string) list"
  ast_deliveries :: "alert_delivery list"
  ast_observed_generation :: int
  ast_conditions :: "condition list"

record alert =
  al_meta :: obj_meta
  al_spec_of :: alert_spec
  al_status_of :: alert_status

section \<open>The SelfService\<close>

datatype selfservice_phase = SelfServicePhaseUnset | SelfServicePhaseProvisioning
  | SelfServicePhaseReady | SelfServicePhaseFailed

record existing_repo =
  er_url :: string
  er_secret_ref :: secret_key_ref

record create_repo =
  cr_provider :: string
  cr_owner :: string
  cr_name :: string
  cr_private :: "bool option"
  cr_base_url :: string
  cr_token_secret_ref :: secret_key_ref

record selfservice_repo =
  sr_existing :: "existing_repo option"
  sr_create :: "create_repo option"

record agent_ai =
  ai_provider :: string
  ai_model :: string
  ai_base_url :: string
  ai_api_key_secret_ref :: "secret_key_ref option"

record selfservice_template =
  st_image :: "image_spec option"
  st_replicas :: "int option"
  st_port :: int
  st_env :: "env_var list"
  st_plugins :: "plugin_ref list"

record selfservice_spec =
  sss_repo :: selfservice_repo
  sss_branch :: string
  sss_ai :: agent_ai
  sss_service :: selfservice_template
  sss_allow_commands :: bool
  sss_agent_image :: string
  sss_suspend :: bool

record selfservice_status =
  ssst_phase :: selfservice_phase
  ssst_repo_url :: string
  ssst_agent_service :: string
  ssst_service_ref :: string
  ssst_message :: string
  ssst_observed_generation :: int
  ssst_conditions :: "condition list"

record selfservice =
  self_meta :: obj_meta
  self_spec_of :: selfservice_spec
  self_status_of :: selfservice_status

lemma alert_event_string_inject: "alert_event_string a = alert_event_string b \<Longrightarrow> a = b"
  by (cases a; cases b) auto

lemma alert_event_string_no_slash: "CHR ''/'' \<notin> set (alert_event_string a)"
  by (cases a) auto

end
