(* ===== verification/Regexps.thy ===== *)
theory Regexps
  imports GoStrings
begin

text \<open>
  Regular expressions, for the anchored patterns (\<open>^...$\<close>) the repository validates its
  inputs with. A pattern is a term of type \<open>rexp\<close>, written next to the source's text;
  \<open>full_match\<close> decides whether a string matches it, by taking derivatives, and is proved
  equal to membership in the pattern's language. All character classes are ASCII, so
  matching bytes and matching runes agree.
\<close>

datatype rexp = Never | Blank | Cls "char \<Rightarrow> bool" | Alt rexp rexp | Sq rexp rexp | Many rexp

abbreviation Some_of :: "rexp \<Rightarrow> rexp" where
  \<comment> \<open>\<open>r+\<close>\<close>
  "Some_of r \<equiv> Sq r (Many r)"

abbreviation Opt :: "rexp \<Rightarrow> rexp" where
  \<comment> \<open>\<open>r?\<close>\<close>
  "Opt r \<equiv> Alt Blank r"

abbreviation Chr :: "char \<Rightarrow> rexp" where
  "Chr c \<equiv> Cls (\<lambda>x. x = c)"

fun times :: "nat \<Rightarrow> rexp \<Rightarrow> rexp" where
  \<comment> \<open>\<open>r{n}\<close>\<close>
  "times 0 r = Blank"
| "times (Suc n) r = Sq r (times n r)"

fun upto_times :: "nat \<Rightarrow> rexp \<Rightarrow> rexp" where
  \<comment> \<open>\<open>r{0,n}\<close>\<close>
  "upto_times 0 r = Blank"
| "upto_times (Suc n) r = Opt (Sq r (upto_times n r))"

section \<open>Language\<close>

inductive_set repeats :: "string set \<Rightarrow> string set" for A where
  none: "[] \<in> repeats A"
| more: "a \<in> A \<Longrightarrow> w \<in> repeats A \<Longrightarrow> a @ w \<in> repeats A"

primrec language :: "rexp \<Rightarrow> string set" where
  "language Never = {}"
| "language Blank = {[]}"
| "language (Cls p) = {[c] | c. p c}"
| "language (Alt r s) = language r \<union> language s"
| "language (Sq r s) = {u @ v | u v. u \<in> language r \<and> v \<in> language s}"
| "language (Many r) = repeats (language r)"

section \<open>Matching\<close>

primrec accepts_empty :: "rexp \<Rightarrow> bool" where
  "accepts_empty Never = False"
| "accepts_empty Blank = True"
| "accepts_empty (Cls p) = False"
| "accepts_empty (Alt r s) = (accepts_empty r \<or> accepts_empty s)"
| "accepts_empty (Sq r s) = (accepts_empty r \<and> accepts_empty s)"
| "accepts_empty (Many r) = True"

primrec after :: "char \<Rightarrow> rexp \<Rightarrow> rexp" where
  \<comment> \<open>what has to match once the character was read\<close>
  "after c Never = Never"
| "after c Blank = Never"
| "after c (Cls p) = (if p c then Blank else Never)"
| "after c (Alt r s) = Alt (after c r) (after c s)"
| "after c (Sq r s) = (if accepts_empty r then Alt (Sq (after c r) s) (after c s) else Sq (after c r) s)"
| "after c (Many r) = Sq (after c r) (Many r)"

primrec full_match :: "rexp \<Rightarrow> string \<Rightarrow> bool" where
  "full_match r [] = accepts_empty r"
| "full_match r (c # s) = full_match (after c r) s"

text \<open>
  \<open>full_match\<close> is primitive recursive on the string; the pattern varies, so it is stated with
  the string second and generalised over the pattern.
\<close>

lemma accepts_empty_iff: "accepts_empty r \<longleftrightarrow> [] \<in> language r"
  by (induction r) (auto intro: repeats.none)

lemma repeats_Cons:
  "c # s \<in> repeats A \<longleftrightarrow> (\<exists>u v. s = u @ v \<and> c # u \<in> A \<and> v \<in> repeats A)"
proof
  have "w \<in> repeats A \<Longrightarrow> w = c # s \<Longrightarrow> \<exists>u v. s = u @ v \<and> c # u \<in> A \<and> v \<in> repeats A" for w
  proof (induction arbitrary: s rule: repeats.induct)
    case (more a w)
    then show ?case by (cases a) auto
  qed simp
  then show "c # s \<in> repeats A \<Longrightarrow> \<exists>u v. s = u @ v \<and> c # u \<in> A \<and> v \<in> repeats A" by blast
next
  assume "\<exists>u v. s = u @ v \<and> c # u \<in> A \<and> v \<in> repeats A"
  then show "c # s \<in> repeats A" by (metis append_Cons repeats.more)
qed

lemma language_after: "s \<in> language (after c r) \<longleftrightarrow> c # s \<in> language r"
proof (induction r arbitrary: s)
  case (Sq r1 r2)
  show ?case
    by (auto simp: Sq.IH accepts_empty_iff Cons_eq_append_conv)
next
  case (Many r)
  then show ?case by (auto simp: repeats_Cons)
qed auto

lemma full_match_iff: "full_match r s \<longleftrightarrow> s \<in> language r"
  by (induction s arbitrary: r) (auto simp: accepts_empty_iff language_after)

section \<open>Languages of the shapes that occur\<close>

text \<open>All characters of the language's strings satisfy \<open>P\<close> when all the pattern's classes do.\<close>

primrec over :: "(char \<Rightarrow> bool) \<Rightarrow> rexp \<Rightarrow> bool" where
  "over P Never = True"
| "over P Blank = True"
| "over P (Cls p) = (\<forall>c. p c \<longrightarrow> P c)"
| "over P (Alt a b) = (over P a \<and> over P b)"
| "over P (Sq a b) = (over P a \<and> over P b)"
| "over P (Many a) = over P a"

lemma over_repeats: "s \<in> repeats A \<Longrightarrow> (\<And>a. a \<in> A \<Longrightarrow> list_all P a) \<Longrightarrow> list_all P s"
  by (induction rule: repeats.induct) auto

lemma over_language: "over P r \<Longrightarrow> s \<in> language r \<Longrightarrow> list_all P s"
  by (induction r arbitrary: s) (auto dest!: over_repeats)

lemma many_cls: "s \<in> repeats {[c] | c. p c} \<longleftrightarrow> list_all p s"
proof (induction s)
  case Nil
  show ?case by (simp add: repeats.none)
next
  case (Cons c s)
  then show ?case by (auto simp: repeats_Cons)
qed

lemma sq_cls_Nil: "[] \<notin> language (Sq (Cls p) r)"
  by simp

lemma sq_cls_Cons: "c # t \<in> language (Sq (Cls p) r) \<longleftrightarrow> p c \<and> t \<in> language r"
  unfolding language_after [symmetric] by simp

lemma some_cls: "s \<in> language (Some_of (Cls p)) \<longleftrightarrow> s \<noteq> [] \<and> list_all p s"
proof (cases s)
  case Nil
  then show ?thesis using sq_cls_Nil by blast
next
  case (Cons c t)
  then show ?thesis by (simp only: sq_cls_Cons language.simps(6) language.simps(3) many_cls) simp
qed

lemma times_cls: "s \<in> language (times n (Cls p)) \<longleftrightarrow> length s = n \<and> list_all p s"
proof (induction n arbitrary: s)
  case (Suc n)
  show ?case
  proof (cases s)
    case Nil
    then show ?thesis by simp
  next
    case (Cons c t)
    then show ?thesis by (simp only: times.simps sq_cls_Cons Suc.IH) auto
  qed
qed auto

lemma repeats_slash_blocks:
  assumes "\<And>w. w \<in> W \<Longrightarrow> CHR ''/'' \<notin> set w"
  shows "t \<in> repeats {[CHR ''/''] @ v | v. v \<in> W} \<Longrightarrow> w \<in> W \<Longrightarrow> \<forall>x\<in>set (split_on CHR ''/'' (w @ t)). x \<in> W"
proof (induction arbitrary: w rule: repeats.induct)
  case none
  then show ?case using assms [of w] by (simp add: split_on_single)
next
  case (more a t)
  then obtain v where v: "a = CHR ''/'' # v" "v \<in> W" by auto
  show ?case using more.IH [OF v(2)] more.prems v(1) assms [of w] by (simp add: split_on_append)
qed

lemma slash_blocks_repeats:
  "\<forall>x\<in>set (split_on CHR ''/'' s). x \<in> W \<Longrightarrow>
   \<exists>w t. s = w @ t \<and> w \<in> W \<and> t \<in> repeats {[CHR ''/''] @ v | v. v \<in> W}"
proof (induction "length s" arbitrary: s rule: less_induct)
  case less
  show ?case
  proof (cases "CHR ''/'' \<in> set s")
    case False
    then have "s \<in> W" using less.prems by (simp add: split_on_single)
    moreover have "s = s @ []" by simp
    ultimately show ?thesis using repeats.none by blast
  next
    case True
    then obtain w u where wu: "s = w @ CHR ''/'' # u" "CHR ''/'' \<notin> set w"
      by (meson split_list_first)
    with less.prems have w: "w \<in> W" and u: "\<forall>x\<in>set (split_on CHR ''/'' u). x \<in> W"
      by (simp_all add: split_on_append)
    from wu have "length u < length s" by simp
    from less.hyps [OF this u] obtain v t where vt: "u = v @ t" "v \<in> W"
      "t \<in> repeats {[CHR ''/''] @ v | v. v \<in> W}" by blast
    then have "([CHR ''/''] @ v) @ t \<in> repeats {[CHR ''/''] @ v | v. v \<in> W}"
      by (intro repeats.more) auto
    moreover have "s = w @ ([CHR ''/''] @ v) @ t" using wu vt by simp
    ultimately show ?thesis using w by blast
  qed
qed

lemma slash_separated:
  \<comment> \<open>\<open>r+(/r+)*\<close> for a class without the slash: the pieces between slashes are non-empty\<close>
  assumes "\<not> p CHR ''/''"
  shows "s \<in> language (Sq (Some_of (Cls p)) (Many (Sq (Chr CHR ''/'') (Some_of (Cls p)))))
    \<longleftrightarrow> (\<forall>w\<in>set (split_on CHR ''/'' s). w \<noteq> [] \<and> list_all p w)"
proof -
  define W where "W = language (Some_of (Cls p))"
  have W: "w \<in> W \<longleftrightarrow> w \<noteq> [] \<and> list_all p w" for w
    unfolding W_def by (rule some_cls)
  have noslash: "CHR ''/'' \<notin> set w" if "w \<in> W" for w
    using that assms by (auto simp: W list_all_iff)
  have "language (Sq (Chr CHR ''/'') (Some_of (Cls p))) = {[CHR ''/''] @ v | v. v \<in> W}"
    unfolding W_def by auto
  then have "s \<in> language (Sq (Some_of (Cls p)) (Many (Sq (Chr CHR ''/'') (Some_of (Cls p)))))
    \<longleftrightarrow> (\<exists>w t. s = w @ t \<and> w \<in> W \<and> t \<in> repeats {[CHR ''/''] @ v | v. v \<in> W})"
    unfolding language.simps(5) [of "Some_of (Cls p)"] language.simps(6) W_def by simp
  also have "\<dots> \<longleftrightarrow> (\<forall>x\<in>set (split_on CHR ''/'' s). x \<in> W)"
    using slash_blocks_repeats [of s W] repeats_slash_blocks [of W, OF noslash] by blast
  finally show ?thesis by (simp add: W)
qed

end
