(* ===== verification/Utils.thy ===== *)
theory Utils
  imports Regexps Kube
begin

text \<open>
  Package \<^verbatim>\<open>internal/utils\<close>: the validators of \<^verbatim>\<open>url.go\<close>, which decide which repository
  URLs, revisions and paths reach git and the build, and the pure part of \<^verbatim>\<open>git.go\<close>: which
  credentials go to which remote (\<open>token_auth\<close>) and how a revision is looked up in the
  references a remote lists (\<open>resolve_refs\<close>; the listing itself is an effect, in theory
  \<open>Git\<close>). The lemmas give each validator's exact language and show that an accepted path
  stays below the directory it is resolved in.
\<close>

section \<open>url.go\<close>

definition scp_like_url :: rexp where
  \<comment> \<open>\<^verbatim>\<open>^[A-Za-z0-9._-]+@[A-Za-z0-9.-]+:[A-Za-z0-9._/~-]+$\<close>\<close>
  "scp_like_url =
     Sq (Some_of (Cls (\<lambda>c. is_alnum c \<or> c \<in> set ''._-'')))
      (Sq (Chr CHR ''@'')
       (Sq (Some_of (Cls (\<lambda>c. is_alnum c \<or> c \<in> set ''.-'')))
        (Sq (Chr CHR '':'') (Some_of (Cls (\<lambda>c. is_alnum c \<or> c \<in> set ''._/~-''))))))"

definition revision_re :: rexp where
  \<comment> \<open>\<^verbatim>\<open>^[A-Za-z0-9._/][A-Za-z0-9._/-]*$\<close>\<close>
  "revision_re = Sq (Cls (\<lambda>c. is_alnum c \<or> c \<in> set ''._/''))
     (Many (Cls (\<lambda>c. is_alnum c \<or> c \<in> set ''._/-'')))"

definition sha_re :: rexp where
  \<comment> \<open>\<^verbatim>\<open>^[0-9a-f]{40}$\<close>\<close>
  "sha_re = times 40 (Cls (\<lambda>c. is_digit c \<or> (CHR ''a'' \<le> c \<and> c \<le> CHR ''f'')))"

definition rel_path_char :: "char \<Rightarrow> bool" where
  "rel_path_char c \<longleftrightarrow> is_alnum c \<or> c \<in> set ''._-''"

definition rel_path_re :: rexp where
  \<comment> \<open>\<^verbatim>\<open>^[A-Za-z0-9._-]+(/[A-Za-z0-9._-]+)*$\<close>\<close>
  "rel_path_re = Sq (Some_of (Cls rel_path_char)) (Many (Sq (Chr CHR ''/'') (Some_of (Cls rel_path_char))))"

definition validate_git_url :: "klib \<Rightarrow> string \<Rightarrow> gerror option" where
  "validate_git_url L repo =
     (if repo = '''' then Some (errorf ''repository URL is empty'')
      else if has_prefix repo ''-'' \<or> contains_any repo [CHR '' '', CHR 0x09, CHR 0x0D, CHR 0x0A]
      then Some (errorf (''repository URL '' @ fmt_q repo @ '' is not allowed''))
      else if full_match scp_like_url repo then None
      else (case lib_url_parse L repo of
          Inl err \<Rightarrow> Some (wrapf (''repository URL '' @ fmt_q repo @ '': '') err)
        | Inr u \<Rightarrow>
            if u_scheme u \<notin> set [''https'', ''http'', ''ssh'', ''git'']
            then Some (errorf (''repository URL scheme '' @ fmt_q (u_scheme u)
              @ '' is not allowed (use https, http, ssh or git)''))
            else if u_host u = '''' \<or> u_path u = '''' \<or> u_path u = ''/''
            then Some (errorf (''repository URL '' @ fmt_q repo @ '' needs a host and a path''))
            else None))"

definition validate_revision :: "string \<Rightarrow> gerror option" where
  "validate_revision rv =
     (if rv = '''' then None
      else if length rv > 250 \<or> \<not> full_match revision_re rv \<or> contains rv ''..''
      then Some (errorf (''revision '' @ fmt_q rv @ '' is not allowed''))
      else None)"

definition is_sha :: "string \<Rightarrow> bool" where
  "is_sha rv = full_match sha_re rv"

fun dot_segment :: "string list \<Rightarrow> bool" where
  \<comment> \<open>the loop over \<^verbatim>\<open>strings.Split(p, "/")\<close>\<close>
  "dot_segment [] = False"
| "dot_segment (seg # segs) = (if seg = ''.'' \<or> seg = ''..'' then True else dot_segment segs)"

definition validate_rel_path :: "string \<Rightarrow> string \<Rightarrow> gerror option" where
  "validate_rel_path field p =
     (if p = '''' then None
      else if length p > 250 \<or> \<not> full_match rel_path_re p
      then Some (errorf (field @ '' '' @ fmt_q p @ '' is not a relative path''))
      else if dot_segment (split_on CHR ''/'' p)
      then Some (errorf (field @ '' '' @ fmt_q p @ '' must not contain . or .. segments''))
      else None)"

lemma is_sha_iff:
  "is_sha rv \<longleftrightarrow> length rv = 40 \<and> list_all (\<lambda>c. is_digit c \<or> (CHR ''a'' \<le> c \<and> c \<le> CHR ''f'')) rv"
  by (simp add: is_sha_def sha_re_def full_match_iff times_cls)

lemma dot_segment_iff: "dot_segment segs \<longleftrightarrow> ''.'' \<in> set segs \<or> ''..'' \<in> set segs"
  by (induction segs) auto

lemma rel_path_re_iff:
  "full_match rel_path_re p \<longleftrightarrow> (\<forall>w\<in>set (split_on CHR ''/'' p). w \<noteq> [] \<and> list_all rel_path_char w)"
  unfolding rel_path_re_def full_match_iff
  by (rule slash_separated) (simp add: rel_path_char_def is_alnum_def is_upper_def is_lower_def is_digit_def)

lemma revision_re_iff:
  "full_match revision_re rv \<longleftrightarrow> rv \<noteq> [] \<and> hd rv \<noteq> CHR ''-''
     \<and> list_all (\<lambda>c. is_alnum c \<or> c \<in> set ''._/-'') rv"
proof (cases rv)
  case Nil
  then show ?thesis by (simp add: revision_re_def)
next
  case (Cons c t)
  have "\<not> is_alnum CHR ''-''" by (simp add: is_alnum_def is_upper_def is_lower_def is_digit_def)
  then show ?thesis
    unfolding full_match_iff revision_re_def Cons sq_cls_Cons language.simps(6) language.simps(3) many_cls
    by auto
qed

lemma validate_rel_path_iff:
  "validate_rel_path field p = None \<longleftrightarrow>
     p = '''' \<or> (length p \<le> 250 \<and> (\<forall>w\<in>set (split_on CHR ''/'' p).
        w \<noteq> [] \<and> list_all rel_path_char w \<and> w \<noteq> ''.'' \<and> w \<noteq> ''..''))"
  unfolding validate_rel_path_def rel_path_re_iff dot_segment_iff by auto

lemma validate_revision_iff:
  "validate_revision rv = None \<longleftrightarrow>
     rv = '''' \<or> (length rv \<le> 250 \<and> hd rv \<noteq> CHR ''-'' \<and> \<not> contains rv ''..''
        \<and> list_all (\<lambda>c. is_alnum c \<or> c \<in> set ''._/-'') rv)"
  unfolding validate_revision_def revision_re_iff by auto

text \<open>
  What a relative path promises, stated without the validator: resolving it segment by
  segment, as a file system does, from any directory. \<open>descend\<close> is \<open>None\<close> when a
  \<^verbatim>\<open>..\<close> leaves the root; a directory is the list of its components.
\<close>

fun descend :: "string list \<Rightarrow> string list \<Rightarrow> string list option" where
  "descend dir [] = Some dir"
| "descend dir (seg # segs) =
     (if seg = '''' \<or> seg = ''.'' then descend dir segs
      else if seg = ''..'' then (if dir = [] then None else descend (butlast dir) segs)
      else descend (dir @ [seg]) segs)"

lemma descend_plain:
  "\<forall>w\<in>set segs. w \<noteq> '''' \<and> w \<noteq> ''.'' \<and> w \<noteq> ''..'' \<Longrightarrow> descend dir segs = Some (dir @ segs)"
  by (induction segs arbitrary: dir) auto

section \<open>git.go: credentials\<close>

record basic_auth =
  ba_username :: string
  ba_password :: string

definition token_auth :: "string \<Rightarrow> string \<Rightarrow> gerror + basic_auth option" where
  "token_auth repo token =
     (if token = '''' then Inr None
      else if has_prefix repo ''https://''
      then Inr (Some \<lparr>ba_username = ''x-access-token'', ba_password = token\<rparr>)
      else if has_prefix repo ''http://''
      then Inl (errorf (''refusing to send credentials to '' @ repo @ '' over plain http; use https''))
      else Inr None)"

lemma token_auth_some:
  "token_auth repo token = Inr (Some a) \<Longrightarrow>
   token \<noteq> '''' \<and> has_prefix repo ''https://'' \<and> ba_password a = token"
  by (auto simp: token_auth_def split: if_splits)

section \<open>git.go: looking a revision up\<close>

text \<open>
  A reference a remote lists: a name with a hash, or a symbolic name with its target
  (\<^verbatim>\<open>plumbing.Reference\<close>).
\<close>

datatype git_ref = HashRef (ref_of: string) (hash_of: string) | SymbolicRef (ref_of: string) (target_of: string)

fun ref_hash :: "git_ref \<Rightarrow> string" where
  \<comment> \<open>\<^verbatim>\<open>ref.Hash().String()\<close>; a symbolic reference has the zero hash\<close>
  "ref_hash (HashRef n h) = h"
| "ref_hash (SymbolicRef n t) = replicate 40 (CHR ''0'')"

record revision =
  rev_sha :: string
  rev_ref :: string

definition branch_name :: "string \<Rightarrow> string" where
  "branch_name b = ''refs/heads/'' @ b"

definition tag_name :: "string \<Rightarrow> string" where
  "tag_name t = ''refs/tags/'' @ t"

definition first_named :: "string \<Rightarrow> git_ref list \<Rightarrow> revision option" where
  \<comment> \<open>the loop of \<^verbatim>\<open>ResolveBranch\<close> and \<^verbatim>\<open>ResolveTag\<close>\<close>
  "first_named target refs =
     map_option (\<lambda>r. \<lparr>rev_sha = ref_hash r, rev_ref = target\<rparr>) (find (\<lambda>r. ref_of r = target) refs)"

fun find_head :: "git_ref option \<Rightarrow> git_ref list \<Rightarrow> git_ref option" where
  \<comment> \<open>the last reference called HEAD\<close>
  "find_head head [] = head"
| "find_head head (r # rs) = find_head (if ref_of r = ''HEAD'' then Some r else head) rs"

fun scan_refs :: "string \<Rightarrow> string \<Rightarrow> revision option \<Rightarrow> git_ref list \<Rightarrow> revision option" where
  \<comment> \<open>the final loop of \<^verbatim>\<open>ResolveRevision\<close>: a branch returns at once, a tag is remembered,
      its peeled entry replaces it\<close>
  "scan_refs branch tag found [] = found"
| "scan_refs branch tag found (r # rs) =
     (if ref_of r = branch then Some \<lparr>rev_sha = ref_hash r, rev_ref = ref_of r\<rparr>
      else if ref_of r = tag
      then scan_refs branch tag
        (if found = None then Some \<lparr>rev_sha = ref_hash r, rev_ref = ref_of r\<rparr> else found) rs
      else if ref_of r = tag @ ''^{}''
      then scan_refs branch tag (Some \<lparr>rev_sha = ref_hash r, rev_ref = tag\<rparr>) rs
      else scan_refs branch tag found rs)"

definition resolve_refs :: "klib \<Rightarrow> string \<Rightarrow> string \<Rightarrow> git_ref list \<Rightarrow> gerror + revision" where
  \<comment> \<open>\<^verbatim>\<open>ResolveRevision\<close> after the references were listed\<close>
  "resolve_refs L repo rv refs =
     (let named = (\<lambda>rv. case scan_refs (branch_name rv) (tag_name rv) None refs of
            Some r \<Rightarrow> Inr r
          | None \<Rightarrow> Inl (errorf (''revision '' @ fmt_q rv @ '' not found in '' @ repo)))
      in if rv = '''' then
           (case find_head None refs of
              None \<Rightarrow> Inl (errorf (repo @ '' has no default branch (HEAD)''))
            | Some (HashRef n h) \<Rightarrow> Inr \<lparr>rev_sha = h, rev_ref = ''HEAD''\<rparr>
            | Some (SymbolicRef n t) \<Rightarrow> named (lib_ref_short L t))
         else named rv)"

text \<open>
  The specification of the lookup: the first branch of that name, else the commit a tag
  points to (the last peeled entry, else the first tag entry).
\<close>

definition lookup_spec :: "string \<Rightarrow> git_ref list \<Rightarrow> string option" where
  "lookup_spec rv refs =
     (case find (\<lambda>r. ref_of r = branch_name rv) refs of Some r \<Rightarrow> Some (ref_hash r)
      | None \<Rightarrow> (case filter (\<lambda>r. ref_of r = tag_name rv @ ''^{}'') refs of
          p # ps \<Rightarrow> Some (ref_hash (last (p # ps)))
        | [] \<Rightarrow> map_option ref_hash (find (\<lambda>r. ref_of r = tag_name rv) refs)))"

lemma branch_not_tag [simp]:
  "branch_name a \<noteq> tag_name b" "branch_name a \<noteq> tag_name b @ s" "tag_name b \<noteq> tag_name b @ ''^{}''"
  by (simp_all add: branch_name_def tag_name_def)

lemma scan_refs_branch:
  "find (\<lambda>r. ref_of r = branch) refs = Some r \<Longrightarrow> branch \<noteq> tag \<Longrightarrow> branch \<noteq> tag @ ''^{}'' \<Longrightarrow>
   scan_refs branch tag found refs = Some \<lparr>rev_sha = ref_hash r, rev_ref = branch\<rparr>"
  by (induction refs arbitrary: found) (auto split: if_splits)

lemma scan_refs_found:
  "find (\<lambda>r. ref_of r = branch) refs = None \<Longrightarrow>
   scan_refs branch tag (Some f) refs =
     (case filter (\<lambda>r. ref_of r = tag @ ''^{}'') refs of [] \<Rightarrow> Some f
      | p # ps \<Rightarrow> Some \<lparr>rev_sha = ref_hash (last (p # ps)), rev_ref = tag\<rparr>)"
proof (induction refs arbitrary: f)
  case (Cons a refs)
  then have none: "find (\<lambda>r. ref_of r = branch) refs = None" "ref_of a \<noteq> branch"
    by (auto split: if_splits)
  show ?case
    using none by (cases "filter (\<lambda>r. ref_of r = tag @ ''^{}'') refs") (auto simp: Cons.IH [OF none(1)])
qed simp

lemma scan_refs_tag:
  "find (\<lambda>r. ref_of r = branch) refs = None \<Longrightarrow>
   map_option rev_sha (scan_refs branch tag None refs) =
     (case filter (\<lambda>r. ref_of r = tag @ ''^{}'') refs of
        p # ps \<Rightarrow> Some (ref_hash (last (p # ps)))
      | [] \<Rightarrow> map_option ref_hash (find (\<lambda>r. ref_of r = tag) refs))"
proof (induction refs)
  case (Cons a refs)
  then have none: "find (\<lambda>r. ref_of r = branch) refs = None" "ref_of a \<noteq> branch"
    by (auto split: if_splits)
  show ?case
    using none Cons.IH [OF none(1)]
    by (cases "filter (\<lambda>r. ref_of r = tag @ ''^{}'') refs") (auto simp: scan_refs_found)
qed simp

lemma scan_refs_spec:
  "map_option rev_sha (scan_refs (branch_name rv) (tag_name rv) None refs) = lookup_spec rv refs"
  by (auto simp: lookup_spec_def scan_refs_branch scan_refs_tag split: option.split)

end
