(* ===== verification/Effects.thy ===== *)
theory Effects
  imports ApiTypes Utils "HOL-Library.State_Monad"
begin

text \<open>
  How the reconcilers' effects are modelled. A reconciler talks to the API server through
  \<^verbatim>\<open>client.Client\<close>, to git remotes, to HTTP servers and to the clock; all of them are outside
  the repository. They are the parameter record \<open>env\<close>: functions from the history of the run
  (every request so far with its answer) and the request to the answer. Quantifying over
  \<open>env\<close> therefore covers every behaviour of the world around the operator: failures at any
  request, stale caches, other writers, in any order.

  A handler is a computation in the state monad over the history (\<open>'a io\<close>), so a run yields
  its result and the sequence of requests it made. Properties of a handler are properties of
  that sequence and of the result: \<open>emits m P\<close> says that every request of \<open>m\<close> satisfies
  \<open>P\<close>, and \<open>wp m Q t\<close> that running \<open>m\<close> from history \<open>t\<close> ends in a result and a history
  satisfying \<open>Q\<close>.
\<close>

section \<open>Requests\<close>

text \<open>
  The requests on objects of one kind, each with its answer. \<open>VGet\<close> is a read through the
  informer cache, \<open>VRead\<close> one around it (\<^verbatim>\<open>APIReader\<close>). A list names its namespace and its
  options. \<open>VPatch\<close> and \<open>VPatchStatus\<close> are merge patches computed from an original and a
  changed object; the flag of \<open>VPatchStatus\<close> is the optimistic lock.
  \<^verbatim>\<open>controllerutil.CreateOrUpdate\<close> is two requests around the caller's mutate function:
  \<open>VFetch\<close> answers with the object the mutate function gets (the stored one, or the one
  passed in when none is stored) and \<open>VStore\<close> creates or updates what it left.
\<close>

datatype list_option = ListAll | ListLabel string string | ListSelector selector

datatype 'o verb =
    VGet nsname "gerror + 'o"
  | VRead nsname "gerror + 'o"
  | VList string list_option "gerror + 'o list"
  | VCreate 'o "gerror + 'o"
  | VUpdate 'o "gerror + 'o"
  | VPatch 'o 'o "gerror + 'o"
  | VPatchStatus bool 'o 'o "gerror + 'o"
  | VDelete 'o "gerror + unit"
  | VDeleteAll string string string "gerror + unit"
  | VFetch 'o "gerror + 'o"
  | VStore 'o "gerror + 'o"

text \<open>
  Requests to other servers: HTTP with a JSON body, and a git remote's references. An \<open>EvHttp\<close> is one call of
  \<^verbatim>\<open>(*http.Client).Do\<close> with what the call returns. What the client does to get there is the client's: the
  connection, and the redirects it follows when it is one that follows them (\<^verbatim>\<open>http.DefaultClient\<close>, which
  \<^verbatim>\<open>internal/gitprovider\<close> is given), are inside the answer.
\<close>

datatype json = JStr string | JBool bool | JInt int | JObj "(string \<times> json) list" | JArr "json list"

record http_request =
  hq_method :: string
  hq_url :: string
  hq_headers :: "(string \<times> string) list"
  hq_body :: "json option"

record http_response =
  hr_status :: int
  hr_body :: string

text \<open>
  What discovery is asked and answers (\<^verbatim>\<open>internal/service/discovery.go\<close>,
  \<^verbatim>\<open>internal/service/languages/language.go\<close>).
\<close>

record discovery_request =
  dq_repo :: string
  dq_rev :: revision
  dq_token :: string
  dq_context_dir :: string
  dq_dockerfile_path :: string
  dq_language :: string
  dq_port :: int

record facts =
  f_language :: string
  f_version :: string
  f_package_manager :: string
  f_framework :: string
  f_entrypoint :: string
  f_install_cmd :: string
  f_build_cmd :: string
  f_start_cmd :: "string list"
  f_port :: int
  f_extra :: "(string \<times> string) list"

record discovery_result =
  dr_facts :: "facts option"
  dr_source :: string
  dr_dockerfile :: string
  dr_dockerignore :: string

datatype event =
    EvService "service verb"
  | EvCI "ci verb"
  | EvCD "cd verb"
  | EvPlugin "ciplugin verb"
  | EvAlert "alert verb"
  | EvSelf "selfservice verb"
  | EvPod "pod verb"
  | EvSecret "secret verb"
  | EvConfigMap "config_map verb"
  | EvDeployment "deployment verb"
  | EvKubeService "kube_service verb"
  | EvListRefs string "basic_auth option" "gerror + git_ref list"
  | EvDiscover discovery_request "gerror + discovery_result"
  | EvHttp http_request "gerror + http_response"
  | EvSleep time

type_synonym trace = "event list"

section \<open>The environment\<close>

record 'o kapi =
  ka_get :: "trace \<Rightarrow> nsname \<Rightarrow> gerror + 'o"
  ka_read :: "trace \<Rightarrow> nsname \<Rightarrow> gerror + 'o"
  ka_list :: "trace \<Rightarrow> string \<Rightarrow> list_option \<Rightarrow> gerror + 'o list"
  ka_create :: "trace \<Rightarrow> 'o \<Rightarrow> gerror + 'o"
  ka_update :: "trace \<Rightarrow> 'o \<Rightarrow> gerror + 'o"
  ka_patch :: "trace \<Rightarrow> 'o \<Rightarrow> 'o \<Rightarrow> gerror + 'o"
  ka_patch_status :: "trace \<Rightarrow> bool \<Rightarrow> 'o \<Rightarrow> 'o \<Rightarrow> gerror + 'o"
  ka_delete :: "trace \<Rightarrow> 'o \<Rightarrow> gerror + unit"
  ka_delete_all :: "trace \<Rightarrow> string \<Rightarrow> string \<Rightarrow> string \<Rightarrow> gerror + unit"
  ka_fetch :: "trace \<Rightarrow> 'o \<Rightarrow> gerror + 'o"
  ka_store :: "trace \<Rightarrow> 'o \<Rightarrow> gerror + 'o"

record env =
  env_service :: "service kapi"
  env_ci :: "ci kapi"
  env_cd :: "cd kapi"
  env_plugin :: "ciplugin kapi"
  env_alert :: "alert kapi"
  env_self :: "selfservice kapi"
  env_pod :: "pod kapi"
  env_secret :: "secret kapi"
  env_config_map :: "config_map kapi"
  env_deployment :: "deployment kapi"
  env_kube_service :: "kube_service kapi"
  env_list_refs :: "trace \<Rightarrow> string \<Rightarrow> basic_auth option \<Rightarrow> gerror + git_ref list"
  env_discover :: "trace \<Rightarrow> discovery_request \<Rightarrow> gerror + discovery_result"
  env_http :: "trace \<Rightarrow> http_request \<Rightarrow> gerror + http_response"
  env_cancelled :: "trace \<Rightarrow> bool"
  env_now :: "trace \<Rightarrow> time"

text \<open>
  A concrete environment for the closed instances of the properties: nothing is stored, every
  write succeeds and answers with what was written, nothing answers over the network.
\<close>

definition kapi_ref :: "'o kapi" where
  "kapi_ref = \<lparr>
     ka_get = (\<lambda>t key. Inl \<lparr>err_class = ErrNotFound, err_msg = ''not found''\<rparr>),
     ka_read = (\<lambda>t key. Inl \<lparr>err_class = ErrNotFound, err_msg = ''not found''\<rparr>),
     ka_list = (\<lambda>t ns opt. Inr []),
     ka_create = (\<lambda>t x. Inr x),
     ka_update = (\<lambda>t x. Inr x),
     ka_patch = (\<lambda>t orig x. Inr x),
     ka_patch_status = (\<lambda>t lock orig x. Inr x),
     ka_delete = (\<lambda>t x. Inr ()),
     ka_delete_all = (\<lambda>t ns k v. Inr ()),
     ka_fetch = (\<lambda>t x. Inr x),
     ka_store = (\<lambda>t x. Inr x)\<rparr>"

definition env_ref :: env where
  "env_ref = \<lparr>env_service = kapi_ref, env_ci = kapi_ref, env_cd = kapi_ref, env_plugin = kapi_ref,
     env_alert = kapi_ref, env_self = kapi_ref, env_pod = kapi_ref, env_secret = kapi_ref,
     env_config_map = kapi_ref, env_deployment = kapi_ref, env_kube_service = kapi_ref,
     env_list_refs = (\<lambda>t repo auth. Inl (errorf ''unreachable'')),
     env_discover = (\<lambda>t q. Inl (errorf ''unreachable'')),
     env_http = (\<lambda>t q. Inl (errorf ''unreachable'')),
     env_cancelled = (\<lambda>t. False), env_now = (\<lambda>t. 0)\<rparr>"

lemma kapi_ref_simps [simp]:
  "ka_get kapi_ref t key = Inl \<lparr>err_class = ErrNotFound, err_msg = ''not found''\<rparr>"
  "ka_read kapi_ref t key = Inl \<lparr>err_class = ErrNotFound, err_msg = ''not found''\<rparr>"
  "ka_list kapi_ref t ns opt = Inr []" "ka_create kapi_ref t x = Inr x" "ka_update kapi_ref t x = Inr x"
  "ka_patch kapi_ref t x y = Inr y" "ka_patch_status kapi_ref t l x y = Inr y" "ka_delete kapi_ref t x = Inr ()"
  "ka_delete_all kapi_ref t ns k v = Inr ()" "ka_fetch kapi_ref t x = Inr x" "ka_store kapi_ref t x = Inr x"
  by (simp_all add: kapi_ref_def)

lemma env_ref_simps [simp]:
  "env_service env_ref = kapi_ref" "env_ci env_ref = kapi_ref" "env_cd env_ref = kapi_ref"
  "env_plugin env_ref = kapi_ref" "env_alert env_ref = kapi_ref" "env_self env_ref = kapi_ref"
  "env_pod env_ref = kapi_ref" "env_secret env_ref = kapi_ref" "env_config_map env_ref = kapi_ref"
  "env_deployment env_ref = kapi_ref" "env_kube_service env_ref = kapi_ref"
  "env_http env_ref t q = Inl (errorf ''unreachable'')" "env_cancelled env_ref t = False" "env_now env_ref t = 0"
  "env_list_refs env_ref t repo auth = Inl (errorf ''unreachable'')"
  "env_discover env_ref t dq = Inl (errorf ''unreachable'')"
  by (simp_all add: env_ref_def)

text \<open>A kind of object: where its requests go and how they are recorded.\<close>

record 'o kind =
  kd_api :: "env \<Rightarrow> 'o kapi"
  kd_event :: "'o verb \<Rightarrow> event"

definition services :: "service kind" where "services = \<lparr>kd_api = env_service, kd_event = EvService\<rparr>"
definition cis :: "ci kind" where "cis = \<lparr>kd_api = env_ci, kd_event = EvCI\<rparr>"
definition cds :: "cd kind" where "cds = \<lparr>kd_api = env_cd, kd_event = EvCD\<rparr>"
definition ciplugins :: "ciplugin kind" where "ciplugins = \<lparr>kd_api = env_plugin, kd_event = EvPlugin\<rparr>"
definition alerts :: "alert kind" where "alerts = \<lparr>kd_api = env_alert, kd_event = EvAlert\<rparr>"
definition selfservices :: "selfservice kind" where "selfservices = \<lparr>kd_api = env_self, kd_event = EvSelf\<rparr>"
definition pods :: "pod kind" where "pods = \<lparr>kd_api = env_pod, kd_event = EvPod\<rparr>"
definition secrets :: "secret kind" where "secrets = \<lparr>kd_api = env_secret, kd_event = EvSecret\<rparr>"
definition config_maps :: "config_map kind" where "config_maps = \<lparr>kd_api = env_config_map, kd_event = EvConfigMap\<rparr>"
definition deployments :: "deployment kind" where "deployments = \<lparr>kd_api = env_deployment, kd_event = EvDeployment\<rparr>"
definition kube_services :: "kube_service kind" where "kube_services = \<lparr>kd_api = env_kube_service, kd_event = EvKubeService\<rparr>"

lemmas kind_defs = services_def cis_def cds_def ciplugins_def alerts_def selfservices_def pods_def
  secrets_def config_maps_def deployments_def kube_services_def

lemma kind_simps [simp]:
  "kd_api services = env_service" "kd_event services = EvService"
  "kd_api cis = env_ci" "kd_event cis = EvCI"
  "kd_api cds = env_cd" "kd_event cds = EvCD"
  "kd_api ciplugins = env_plugin" "kd_event ciplugins = EvPlugin"
  "kd_api alerts = env_alert" "kd_event alerts = EvAlert"
  "kd_api selfservices = env_self" "kd_event selfservices = EvSelf"
  "kd_api pods = env_pod" "kd_event pods = EvPod"
  "kd_api secrets = env_secret" "kd_event secrets = EvSecret"
  "kd_api config_maps = env_config_map" "kd_event config_maps = EvConfigMap"
  "kd_api deployments = env_deployment" "kd_event deployments = EvDeployment"
  "kd_api kube_services = env_kube_service" "kd_event kube_services = EvKubeService"
  by (simp_all add: kind_defs)

section \<open>Handlers\<close>

type_synonym 'a io = "(trace, 'a) state"

abbreviation ret :: "'a \<Rightarrow> 'a io" where
  "ret \<equiv> State_Monad.return"

definition perform :: "(trace \<Rightarrow> 'r) \<Rightarrow> ('r \<Rightarrow> event) \<Rightarrow> 'r io" where
  "perform answer ev = State (\<lambda>t. (answer t, t @ [ev (answer t)]))"

definition now :: "env \<Rightarrow> time io" where
  "now E = State (\<lambda>t. (env_now E t, t))"

definition k_get :: "env \<Rightarrow> 'o kind \<Rightarrow> nsname \<Rightarrow> (gerror + 'o) io" where
  "k_get E K key = perform (\<lambda>t. ka_get (kd_api K E) t key) (\<lambda>r. kd_event K (VGet key r))"

definition k_read :: "env \<Rightarrow> 'o kind \<Rightarrow> nsname \<Rightarrow> (gerror + 'o) io" where
  "k_read E K key = perform (\<lambda>t. ka_read (kd_api K E) t key) (\<lambda>r. kd_event K (VRead key r))"

definition k_list :: "env \<Rightarrow> 'o kind \<Rightarrow> string \<Rightarrow> list_option \<Rightarrow> (gerror + 'o list) io" where
  "k_list E K ns opt = perform (\<lambda>t. ka_list (kd_api K E) t ns opt) (\<lambda>r. kd_event K (VList ns opt r))"

definition k_create :: "env \<Rightarrow> 'o kind \<Rightarrow> 'o \<Rightarrow> (gerror + 'o) io" where
  "k_create E K x = perform (\<lambda>t. ka_create (kd_api K E) t x) (\<lambda>r. kd_event K (VCreate x r))"

definition k_update :: "env \<Rightarrow> 'o kind \<Rightarrow> 'o \<Rightarrow> (gerror + 'o) io" where
  "k_update E K x = perform (\<lambda>t. ka_update (kd_api K E) t x) (\<lambda>r. kd_event K (VUpdate x r))"

definition k_patch :: "env \<Rightarrow> 'o kind \<Rightarrow> 'o \<Rightarrow> 'o \<Rightarrow> (gerror + 'o) io" where
  "k_patch E K orig x = perform (\<lambda>t. ka_patch (kd_api K E) t orig x) (\<lambda>r. kd_event K (VPatch orig x r))"

definition k_patch_status :: "env \<Rightarrow> 'o kind \<Rightarrow> bool \<Rightarrow> 'o \<Rightarrow> 'o \<Rightarrow> (gerror + 'o) io" where
  "k_patch_status E K lock orig x =
     perform (\<lambda>t. ka_patch_status (kd_api K E) t lock orig x) (\<lambda>r. kd_event K (VPatchStatus lock orig x r))"

definition k_delete :: "env \<Rightarrow> 'o kind \<Rightarrow> 'o \<Rightarrow> (gerror + unit) io" where
  "k_delete E K x = perform (\<lambda>t. ka_delete (kd_api K E) t x) (\<lambda>r. kd_event K (VDelete x r))"

definition k_delete_all :: "env \<Rightarrow> 'o kind \<Rightarrow> string \<Rightarrow> string \<Rightarrow> string \<Rightarrow> (gerror + unit) io" where
  "k_delete_all E K ns k v =
     perform (\<lambda>t. ka_delete_all (kd_api K E) t ns k v) (\<lambda>r. kd_event K (VDeleteAll ns k v r))"

definition k_fetch :: "env \<Rightarrow> 'o kind \<Rightarrow> 'o \<Rightarrow> (gerror + 'o) io" where
  "k_fetch E K x = perform (\<lambda>t. ka_fetch (kd_api K E) t x) (\<lambda>r. kd_event K (VFetch x r))"

definition k_store :: "env \<Rightarrow> 'o kind \<Rightarrow> 'o \<Rightarrow> (gerror + 'o) io" where
  "k_store E K x = perform (\<lambda>t. ka_store (kd_api K E) t x) (\<lambda>r. kd_event K (VStore x r))"

lemmas k_defs = k_get_def k_read_def k_list_def k_create_def k_update_def k_patch_def
  k_patch_status_def k_delete_def k_delete_all_def k_fetch_def k_store_def

text \<open>
  \<^verbatim>\<open>controllerutil.CreateOrUpdate(ctx, client, obj, mutate)\<close>: an error of the mutate
  function ends it before anything is written.
\<close>

definition create_or_update :: "env \<Rightarrow> 'o kind \<Rightarrow> 'o \<Rightarrow> ('o \<Rightarrow> gerror + 'o) \<Rightarrow> (gerror + 'o) io" where
  "create_or_update E K obj mutate = do {
     fetched \<leftarrow> k_fetch E K obj;
     case fetched of
       Inl err \<Rightarrow> ret (Inl err)
     | Inr stored \<Rightarrow>
         (case mutate stored of
            Inl err \<Rightarrow> ret (Inl err)
          | Inr wanted \<Rightarrow> k_store E K wanted)
   }"

section \<open>What a reconcile returns\<close>

record ctrl_result =
  res_requeue :: bool
  res_requeue_after :: time

definition no_requeue :: ctrl_result where
  "no_requeue = \<lparr>res_requeue = False, res_requeue_after = 0\<rparr>"

definition requeue :: ctrl_result where
  "requeue = \<lparr>res_requeue = True, res_requeue_after = 0\<rparr>"

definition requeue_after :: "time \<Rightarrow> ctrl_result" where
  "requeue_after d = \<lparr>res_requeue = False, res_requeue_after = d\<rparr>"

text \<open>
  \<^verbatim>\<open>return res, err\<close> with the error of a last request: the pair a reconcile returns.
\<close>

type_synonym outcome = "ctrl_result \<times> gerror option"

definition err_of :: "gerror + 'a \<Rightarrow> gerror option" where
  "err_of r = (case r of Inl e \<Rightarrow> Some e | Inr _ \<Rightarrow> None)"

lemma err_of_simps [simp]: "err_of (Inl e) = Some e" "err_of (Inr x) = None"
  by (simp_all add: err_of_def)

section \<open>Running handlers\<close>

lemma run_perform [simp]: "run_state (perform answer ev) t = (answer t, t @ [ev (answer t)])"
  by (simp add: perform_def)

lemma run_now [simp]: "run_state (now E) t = (env_now E t, t)"
  by (simp add: now_def)

subsection \<open>Which requests a handler makes\<close>

definition emits :: "'a io \<Rightarrow> (event \<Rightarrow> bool) \<Rightarrow> bool" where
  "emits m P \<longleftrightarrow> (\<forall>t. \<exists>es. snd (run_state m t) = t @ es \<and> list_all P es)"

lemma emits_ret [emits_intros]: "emits (ret x) P"
  by (simp add: emits_def)

lemma emits_now [emits_intros]: "emits (now E) P"
  by (simp add: emits_def)

lemma emits_perform: "(\<And>r. P (ev r)) \<Longrightarrow> emits (perform answer ev) P"
  by (simp add: emits_def)

lemma emits_bind [emits_intros]:
  assumes "emits m P" and "\<And>x. emits (f x) P"
  shows "emits (m \<bind> f) P"
  unfolding emits_def
proof
  fix t
  obtain x t1 where m: "run_state m t = (x, t1)" by fastforce
  from assms(1) m obtain es where es: "t1 = t @ es" "list_all P es"
    unfolding emits_def by (metis snd_conv)
  from assms(2) obtain es' where es': "snd (run_state (f x) t1) = t1 @ es'" "list_all P es'"
    unfolding emits_def by blast
  from m es es' have "snd (run_state (m \<bind> f) t) = t @ (es @ es')" "list_all P (es @ es')"
    by simp_all
  then show "\<exists>es. snd (run_state (m \<bind> f) t) = t @ es \<and> list_all P es" by blast
qed

lemma emits_if [emits_intros]: "emits m P \<Longrightarrow> emits n P \<Longrightarrow> emits (if b then m else n) P"
  by simp

lemma emits_sum [emits_intros]:
  "(\<And>e. emits (f e) P) \<Longrightarrow> (\<And>x. emits (g x) P) \<Longrightarrow> emits (case r of Inl e \<Rightarrow> f e | Inr x \<Rightarrow> g x) P"
  by (simp split: sum.split)

lemma emits_option [emits_intros]:
  "emits m P \<Longrightarrow> (\<And>x. emits (g x) P) \<Longrightarrow> emits (case r of None \<Rightarrow> m | Some x \<Rightarrow> g x) P"
  by (simp split: option.split)

lemma emits_prod [emits_intros]:
  "(\<And>a b. emits (f a b) P) \<Longrightarrow> emits (case r of (a, b) \<Rightarrow> f a b) P"
  by (simp split: prod.split)

lemma emits_list [emits_intros]:
  "emits m P \<Longrightarrow> (\<And>x xs. emits (g x xs) P) \<Longrightarrow> emits (case r of [] \<Rightarrow> m | x # xs \<Rightarrow> g x xs) P"
  by (simp split: list.split)

lemma emits_let [emits_intros]: "emits (f v) P \<Longrightarrow> emits (let x = v in f x) P"
  by simp

lemma emits_weaken: "emits m P \<Longrightarrow> (\<And>e. P e \<Longrightarrow> Q e) \<Longrightarrow> emits m Q"
  unfolding emits_def by (metis (mono_tags, lifting) list_all_iff)

lemma emits_k [emits_intros]:
  "(\<And>r. P (kd_event K (VGet key r))) \<Longrightarrow> emits (k_get E K key) P"
  "(\<And>r. P (kd_event K (VRead key r))) \<Longrightarrow> emits (k_read E K key) P"
  "(\<And>r. P (kd_event K (VList ns opt r))) \<Longrightarrow> emits (k_list E K ns opt) P"
  "(\<And>r. P (kd_event K (VCreate x r))) \<Longrightarrow> emits (k_create E K x) P"
  "(\<And>r. P (kd_event K (VUpdate x r))) \<Longrightarrow> emits (k_update E K x) P"
  "(\<And>r. P (kd_event K (VPatch x y r))) \<Longrightarrow> emits (k_patch E K x y) P"
  "(\<And>r. P (kd_event K (VPatchStatus lock x y r))) \<Longrightarrow> emits (k_patch_status E K lock x y) P"
  "(\<And>r. P (kd_event K (VDelete x r))) \<Longrightarrow> emits (k_delete E K x) P"
  "(\<And>r. P (kd_event K (VDeleteAll ns k v r))) \<Longrightarrow> emits (k_delete_all E K ns k v) P"
  "(\<And>r. P (kd_event K (VFetch x r))) \<Longrightarrow> emits (k_fetch E K x) P"
  "(\<And>r. P (kd_event K (VStore x r))) \<Longrightarrow> emits (k_store E K x) P"
  unfolding k_defs by (intro emits_perform; simp)+

lemma emits_create_or_update [emits_intros]:
  assumes "\<And>r. P (kd_event K (VFetch obj r))"
    and "\<And>o' w r. mutate o' = Inr w \<Longrightarrow> P (kd_event K (VStore w r))"
  shows "emits (create_or_update E K obj mutate) P"
  unfolding create_or_update_def
proof (rule emits_bind)
  show "emits (k_fetch E K obj) P"
    by (rule emits_k(10)) (rule assms(1))
next
  fix fetched
  have store: "emits (case mutate o' of Inl e \<Rightarrow> ret (Inl e) | Inr w \<Rightarrow> k_store E K w) P" for o'
    using assms(2) [of o'] by (cases "mutate o'") (auto intro: emits_ret emits_k(11))
  show "emits (case fetched of Inl err \<Rightarrow> ret (Inl err)
     | Inr stored \<Rightarrow> (case mutate stored of Inl err \<Rightarrow> ret (Inl err) | Inr w \<Rightarrow> k_store E K w)) P"
    by (intro emits_sum emits_ret store)
qed

lemma emitsD: "emits m P \<Longrightarrow> run_state m t = (x, t') \<Longrightarrow> \<exists>es. t' = t @ es \<and> list_all P es"
  unfolding emits_def by (metis snd_conv)

subsection \<open>Weakest preconditions\<close>

definition wp :: "'a io \<Rightarrow> ('a \<Rightarrow> trace \<Rightarrow> bool) \<Rightarrow> trace \<Rightarrow> bool" where
  "wp m Q t = (case run_state m t of (x, t') \<Rightarrow> Q x t')"

lemma wp_ret [wp_simps]: "wp (ret x) Q t = Q x t"
  by (simp add: wp_def)

lemma wp_bind [wp_simps]: "wp (m \<bind> f) Q t = wp m (\<lambda>x. wp (f x) Q) t"
  by (simp add: wp_def split: prod.split)

lemma wp_perform [wp_simps]: "wp (perform answer ev) Q t = Q (answer t) (t @ [ev (answer t)])"
  by (simp add: wp_def)

lemma wp_now [wp_simps]: "wp (now E) Q t = Q (env_now E t) t"
  by (simp add: wp_def)

lemma wp_mono: "wp m Q t \<Longrightarrow> (\<And>x t'. Q x t' \<Longrightarrow> R x t') \<Longrightarrow> wp m R t"
  by (auto simp: wp_def split: prod.splits)

lemma wp_conj: "wp m (\<lambda>x t. Q x t \<and> R x t) t \<longleftrightarrow> wp m Q t \<and> wp m R t"
  by (auto simp: wp_def split: prod.splits)

lemma wpI: "(\<And>x t'. run_state m t = (x, t') \<Longrightarrow> Q x t') \<Longrightarrow> wp m Q t"
  by (simp add: wp_def split: prod.split)

lemma wpD: "wp m Q t \<Longrightarrow> run_state m t = (x, t') \<Longrightarrow> Q x t'"
  by (simp add: wp_def)

lemma wp_k [wp_simps]:
  "wp (k_get E K key) Q t =
     Q (ka_get (kd_api K E) t key) (t @ [kd_event K (VGet key (ka_get (kd_api K E) t key))])"
  "wp (k_read E K key) Q t =
     Q (ka_read (kd_api K E) t key) (t @ [kd_event K (VRead key (ka_read (kd_api K E) t key))])"
  "wp (k_create E K x) Q t =
     Q (ka_create (kd_api K E) t x) (t @ [kd_event K (VCreate x (ka_create (kd_api K E) t x))])"
  "wp (k_update E K x) Q t =
     Q (ka_update (kd_api K E) t x) (t @ [kd_event K (VUpdate x (ka_update (kd_api K E) t x))])"
  "wp (k_patch E K x y) Q t =
     Q (ka_patch (kd_api K E) t x y) (t @ [kd_event K (VPatch x y (ka_patch (kd_api K E) t x y))])"
  "wp (k_patch_status E K lock x y) Q t =
     Q (ka_patch_status (kd_api K E) t lock x y)
       (t @ [kd_event K (VPatchStatus lock x y (ka_patch_status (kd_api K E) t lock x y))])"
  "wp (k_fetch E K x) Q t =
     Q (ka_fetch (kd_api K E) t x) (t @ [kd_event K (VFetch x (ka_fetch (kd_api K E) t x))])"
  "wp (k_store E K x) Q t =
     Q (ka_store (kd_api K E) t x) (t @ [kd_event K (VStore x (ka_store (kd_api K E) t x))])"
  "wp (k_list E K ns opt) Ql t =
     Ql (ka_list (kd_api K E) t ns opt) (t @ [kd_event K (VList ns opt (ka_list (kd_api K E) t ns opt))])"
  "wp (k_delete E K x) Qu t =
     Qu (ka_delete (kd_api K E) t x) (t @ [kd_event K (VDelete x (ka_delete (kd_api K E) t x))])"
  "wp (k_delete_all E K ns k v) Qu t =
     Qu (ka_delete_all (kd_api K E) t ns k v)
       (t @ [kd_event K (VDeleteAll ns k v (ka_delete_all (kd_api K E) t ns k v))])"
  unfolding k_defs by (simp_all add: wp_simps)

lemma wp_emits: "emits m P \<Longrightarrow> wp m (\<lambda>x t'. \<exists>es. t' = t @ es \<and> list_all P es) t"
  by (auto intro!: wpI dest: emitsD)

text \<open>
  The same as introduction rules, for runs with an unknown environment: a call that is only
  known by the requests it makes is \<open>wp_frame\<close>, and the case distinctions keep their case.
\<close>

lemma wp_frame: "emits m P \<Longrightarrow> (\<And>x es. list_all P es \<Longrightarrow> Q x (t @ es)) \<Longrightarrow> wp m Q t"
  by (auto intro!: wpI dest: emitsD)

lemma wpI_ret: "Q x t \<Longrightarrow> wp (ret x) Q t"
  by (simp add: wp_ret)

lemma wpI_bind: "wp m (\<lambda>x. wp (f x) Q) t \<Longrightarrow> wp (m \<bind> f) Q t"
  by (simp add: wp_bind)

lemma wpI_now: "(\<And>n. Q n t) \<Longrightarrow> wp (now E) Q t"
  by (simp add: wp_now)

lemma wpI_if: "(b \<Longrightarrow> wp m Q t) \<Longrightarrow> (\<not> b \<Longrightarrow> wp n Q t) \<Longrightarrow> wp (if b then m else n) Q t"
  by simp

lemma wpI_sum:
  "(\<And>e. r = Inl e \<Longrightarrow> wp (f e) Q t) \<Longrightarrow> (\<And>x. r = Inr x \<Longrightarrow> wp (g x) Q t) \<Longrightarrow>
   wp (case r of Inl e \<Rightarrow> f e | Inr x \<Rightarrow> g x) Q t"
  by (simp split: sum.split)

lemma wpI_option:
  "(r = None \<Longrightarrow> wp m Q t) \<Longrightarrow> (\<And>x. r = Some x \<Longrightarrow> wp (g x) Q t) \<Longrightarrow>
   wp (case r of None \<Rightarrow> m | Some x \<Rightarrow> g x) Q t"
  by (simp split: option.split)

lemma wpI_prod: "(\<And>a b. r = (a, b) \<Longrightarrow> wp (f a b) Q t) \<Longrightarrow> wp (case r of (a, b) \<Rightarrow> f a b) Q t"
  by (simp split: prod.split)

lemma wpI_let: "(\<And>x. x = v \<Longrightarrow> wp (f x) Q t) \<Longrightarrow> wp (let x = v in f x) Q t"
  by simp

lemma wpI_k:
  "(\<And>r. Q r (t @ [kd_event K (VGet key r)])) \<Longrightarrow> wp (k_get E K key) Q t"
  "(\<And>r. Q r (t @ [kd_event K (VRead key r)])) \<Longrightarrow> wp (k_read E K key) Q t"
  "(\<And>r. Q r (t @ [kd_event K (VCreate x r)])) \<Longrightarrow> wp (k_create E K x) Q t"
  "(\<And>r. Q r (t @ [kd_event K (VUpdate x r)])) \<Longrightarrow> wp (k_update E K x) Q t"
  "(\<And>r. Q r (t @ [kd_event K (VPatch x y r)])) \<Longrightarrow> wp (k_patch E K x y) Q t"
  "(\<And>r. Q r (t @ [kd_event K (VPatchStatus lock x y r)])) \<Longrightarrow> wp (k_patch_status E K lock x y) Q t"
  "(\<And>r. Q r (t @ [kd_event K (VFetch x r)])) \<Longrightarrow> wp (k_fetch E K x) Q t"
  "(\<And>r. Q r (t @ [kd_event K (VStore x r)])) \<Longrightarrow> wp (k_store E K x) Q t"
  "(\<And>r. Ql r (t @ [kd_event K (VList ns opt r)])) \<Longrightarrow> wp (k_list E K ns opt) Ql t"
  "(\<And>r. Qu r (t @ [kd_event K (VDelete x r)])) \<Longrightarrow> wp (k_delete E K x) Qu t"
  "(\<And>r. Qu r (t @ [kd_event K (VDeleteAll ns k v r)])) \<Longrightarrow> wp (k_delete_all E K ns k v) Qu t"
  by (simp_all add: wp_k)

lemmas wp_intros = wpI_bind wpI_ret wpI_now wpI_if wpI_sum wpI_option wpI_prod wpI_let wpI_k

lemma wp_create_or_update:
  assumes "\<And>err. Q (Inl err) (t @ [kd_event K (VFetch obj (Inl err))])"
    and "\<And>o' err. mutate o' = Inl err \<Longrightarrow> Q (Inl err) (t @ [kd_event K (VFetch obj (Inr o'))])"
    and "\<And>o' w r. mutate o' = Inr w \<Longrightarrow>
           Q r (t @ [kd_event K (VFetch obj (Inr o')), kd_event K (VStore w r)])"
  shows "wp (create_or_update E K obj mutate) Q t"
  unfolding create_or_update_def
  by (intro wp_intros) (use assms in simp_all)

lemma wp_both:
  "emits m P \<Longrightarrow> (\<And>t. wp m (\<lambda>x _. R x) t) \<Longrightarrow> (\<And>x es. list_all P es \<Longrightarrow> R x \<Longrightarrow> Q x (t @ es)) \<Longrightarrow> wp m Q t"
proof (rule wpI)
  fix x t' assume a: "emits m P" "\<And>t. wp m (\<lambda>x _. R x) t" "\<And>x es. list_all P es \<Longrightarrow> R x \<Longrightarrow> Q x (t @ es)"
    and run: "run_state m t = (x, t')"
  from emitsD [OF a(1) run] obtain es where "t' = t @ es" "list_all P es" by blast
  with a(3) wpD [OF a(2) run] show "Q x t'" by simp
qed

lemma emits_wpI:
  assumes "\<And>t. wp m (\<lambda>_ t'. \<exists>es. t' = t @ es \<and> list_all P es) t"
  shows "emits m P"
  unfolding emits_def
proof
  fix t
  show "\<exists>es. snd (run_state m t) = t @ es \<and> list_all P es"
    using assms [of t] by (cases "run_state m t") (simp add: wp_def)
qed

lemma wp_stored:
  \<comment> \<open>\<open>create_or_update\<close> by what it asks, and that its answer is that of the write\<close>
  assumes "\<And>r. P (kd_event K (VFetch obj r))" "\<And>x0 w r. mutate x0 = Inr w \<Longrightarrow> P (kd_event K (VStore w r))"
    and Q: "\<And>r es. list_all P es \<Longrightarrow> (\<And>d. r = Inr d \<Longrightarrow> \<exists>w. kd_event K (VStore w (Inr d)) \<in> set es) \<Longrightarrow> Q r (t @ es)"
  shows "wp (create_or_update E K obj mutate) Q t"
  by (rule wp_create_or_update; rule Q) (use assms(1,2) in auto)

text \<open>The place of the one request of a kind in a history.\<close>

lemma split_at_unique:
  assumes "list_all (\<lambda>e. \<not> P e) (pre @ suf)" "P e" "P e'" "pre @ [e] @ suf = pre' @ [e'] @ suf'"
  shows "pre' = pre \<and> e' = e \<and> suf' = suf"
proof -
  have count: "length (filter P (pre' @ [e'] @ suf')) = 1"
    unfolding assms(4) [symmetric] using assms(1,2)
    by (simp add: list_all_iff filter_False)
  then have "filter P pre' = [] \<and> filter P suf' = []" using assms(3) by simp
  then have "takeWhile (\<lambda>e. \<not> P e) (pre' @ [e'] @ suf') = pre'" "dropWhile (\<lambda>e. \<not> P e) (pre' @ [e'] @ suf') = e' # suf'"
    using assms(3) by (simp_all add: filter_empty_conv takeWhile_append dropWhile_append3 takeWhile_eq_all_conv
        dropWhile_eq_Nil_conv dropWhile_append)
  moreover have "takeWhile (\<lambda>e. \<not> P e) (pre @ [e] @ suf) = pre" "dropWhile (\<lambda>e. \<not> P e) (pre @ [e] @ suf) = e # suf"
    using assms(1,2) by (simp_all add: list_all_iff takeWhile_append dropWhile_append)
  ultimately show ?thesis using assms(4) by simp
qed

end
