(* ===== verification/Git.thy ===== *)
theory Git
  imports Effects
begin

text \<open>
  \<^verbatim>\<open>internal/utils/git.go\<close>: the functions that list a remote's references. The listing is
  go-git's (\<^verbatim>\<open>Remote.List\<close>); what the functions make of the list is \<open>resolve_refs\<close> of theory
  \<open>Utils\<close>. The lemmas say which requests a lookup makes: none for a full SHA, else one
  listing, which carries a token to https remotes only.
\<close>

definition list_remote_refs :: "env \<Rightarrow> string \<Rightarrow> string \<Rightarrow> (gerror + git_ref list) io" where
  "list_remote_refs E repo token =
     (case token_auth repo token of
        Inl err \<Rightarrow> ret (Inl err)
      | Inr auth \<Rightarrow> perform (\<lambda>t. env_list_refs E t repo auth) (EvListRefs repo auth))"

definition ResolveBranch :: "env \<Rightarrow> string \<Rightarrow> string \<Rightarrow> string \<Rightarrow> (gerror + revision) io" where
  "ResolveBranch E repo branch token = do {
     refs \<leftarrow> list_remote_refs E repo token;
     ret (case refs of Inl err \<Rightarrow> Inl err
        | Inr rs \<Rightarrow> (case first_named (branch_name branch) rs of
             Some rv \<Rightarrow> Inr rv
           | None \<Rightarrow> Inl (errorf (''branch '' @ fmt_q branch @ '' not found in '' @ repo))))
   }"

definition ResolveTag :: "env \<Rightarrow> string \<Rightarrow> string \<Rightarrow> string \<Rightarrow> (gerror + revision) io" where
  "ResolveTag E repo tag token = do {
     refs \<leftarrow> list_remote_refs E repo token;
     ret (case refs of Inl err \<Rightarrow> Inl err
        | Inr rs \<Rightarrow> (case first_named (tag_name tag) rs of
             Some rv \<Rightarrow> Inr rv
           | None \<Rightarrow> Inl (errorf (''tag '' @ fmt_q tag @ '' not found in '' @ repo))))
   }"

definition ResolveRevision :: "env \<Rightarrow> klib \<Rightarrow> string \<Rightarrow> string \<Rightarrow> string \<Rightarrow> (gerror + revision) io" where
  "ResolveRevision E L repo rv token =
     (if is_sha rv then ret (Inr \<lparr>rev_sha = rv, rev_ref = rv\<rparr>)
      else do {
        refs \<leftarrow> list_remote_refs E repo token;
        ret (case refs of Inl err \<Rightarrow> Inl err | Inr rs \<Rightarrow> resolve_refs L repo rv rs)
      })"

definition HasRevisionChanged ::
  "env \<Rightarrow> klib \<Rightarrow> string \<Rightarrow> string \<Rightarrow> string \<Rightarrow> string \<Rightarrow> (gerror + bool \<times> revision) io" where
  "HasRevisionChanged E L repo rv known token = do {
     r \<leftarrow> ResolveRevision E L repo rv token;
     ret (case r of Inl err \<Rightarrow> Inl err | Inr v \<Rightarrow> Inr (rev_sha v \<noteq> known, v))
   }"

text \<open>A listing that sends credentials, if any, over https only.\<close>

fun safe_listing :: "event \<Rightarrow> bool" where
  "safe_listing (EvListRefs repo auth r) = (auth \<noteq> None \<longrightarrow> has_prefix repo ''https://'')"
| "safe_listing _ = False"

lemma emits_list_remote_refs: "emits (list_remote_refs E repo token) safe_listing"
proof (cases "token_auth repo token")
  case (Inl err)
  then show ?thesis by (simp add: list_remote_refs_def emits_ret)
next
  case (Inr auth)
  then show ?thesis
    by (auto simp: list_remote_refs_def token_auth_def intro!: emits_perform split: if_splits)
qed

lemma emits_ResolveRevision: "emits (ResolveRevision E L repo rv token) safe_listing"
  by (auto simp: ResolveRevision_def intro!: emits_intros emits_list_remote_refs)

lemma emits_HasRevisionChanged: "emits (HasRevisionChanged E L repo rv known token) safe_listing"
  by (auto simp: HasRevisionChanged_def intro!: emits_intros emits_ResolveRevision)

lemma run_ResolveRevision_sha:
  "is_sha rv \<Longrightarrow> run_state (ResolveRevision E L repo rv token) t = (Inr \<lparr>rev_sha = rv, rev_ref = rv\<rparr>, t)"
  by (simp add: ResolveRevision_def)

end
