(* ===== verification/Utf8.thy ===== *)
theory Utf8
  imports GoStrings
begin

text \<open>
  UTF-8 as Go decodes it, and the strings \<^verbatim>\<open>json.Marshal\<close> writes. Shared by the notifications, the
  JSON decoder and the templates of the Dockerfiles.
\<close>

section \<open>UTF-8\<close>

definition byte :: "char \<Rightarrow> nat" where
  "byte c = of_char c"

definition utf8 :: "nat \<Rightarrow> string" where
  \<comment> \<open>\<^verbatim>\<open>utf8.EncodeRune\<close>\<close>
  "utf8 r = (if r < 0x80 then [char_of r]
     else if r < 0x800 then [char_of (0xC0 + r div 64), char_of (0x80 + r mod 64)]
     else if r < 0x10000 then [char_of (0xE0 + r div 4096), char_of (0x80 + r div 64 mod 64), char_of (0x80 + r mod 64)]
     else [char_of (0xF0 + r div 262144), char_of (0x80 + r div 4096 mod 64), char_of (0x80 + r div 64 mod 64),
           char_of (0x80 + r mod 64)])"

definition replacement :: string where
  \<comment> \<open>U+FFFD\<close>
  "replacement = [CHR 0xEF, CHR 0xBF, CHR 0xBD]"

definition within :: "nat \<Rightarrow> nat \<Rightarrow> char \<Rightarrow> bool" where
  "within lo hi c \<longleftrightarrow> lo \<le> byte c \<and> byte c \<le> hi"

definition second_range :: "nat \<Rightarrow> nat \<times> nat" where
  \<comment> \<open>which bytes may follow the first one\<close>
  "second_range b = (if b = 0xE0 then (0xA0, 0xBF) else if b = 0xED then (0x80, 0x9F)
     else if b = 0xF0 then (0x90, 0xBF) else if b = 0xF4 then (0x80, 0x8F) else (0x80, 0xBF))"

definition rune_size :: "string \<Rightarrow> nat" where
  \<comment> \<open>the bytes of the rune a string starts with, 0 when they are not valid UTF-8\<close>
  "rune_size s = (case s of [] \<Rightarrow> 0
     | a # s \<Rightarrow> (let n = byte a; k = (if n < 0x80 then 1 else if 0xC2 \<le> n \<and> n \<le> 0xDF then 2
           else if 0xE0 \<le> n \<and> n \<le> 0xEF then 3 else if 0xF0 \<le> n \<and> n \<le> 0xF4 then 4 else 0) in
         if k \<le> 1 then k
         else (case s of [] \<Rightarrow> 0
           | b # s \<Rightarrow> if within (fst (second_range n)) (snd (second_range n)) b \<and> k - 2 \<le> length s
                \<and> list_all (within 0x80 0xBF) (take (k - 2) s) then k else 0)))"

section \<open>JSON strings\<close>

text \<open>
  What \<^verbatim>\<open>json.Marshal\<close> makes of a string: quotes, backslashes, control characters and \<^verbatim>\<open><\<close>, \<^verbatim>\<open>>\<close>, \<^verbatim>\<open>&\<close>
  are escaped, and so are U+2028 and U+2029; a byte that starts no rune is written as the escape of U+FFFD.
\<close>

definition json_char :: "char \<Rightarrow> string" where
  "json_char c =
     (let n = (of_char c :: nat) in
      if n = 34 \<or> n = 92 then [CHR 0x5C, c]
      else if n = 8 then [CHR 0x5C, CHR ''b''] else if n = 12 then [CHR 0x5C, CHR ''f'']
      else if n = 10 then [CHR 0x5C, CHR ''n''] else if n = 13 then [CHR 0x5C, CHR ''r'']
      else if n = 9 then [CHR 0x5C, CHR ''t'']
      else if n < 32 \<or> n \<in> {60, 62, 38}
      then [CHR 0x5C] @ ''u00'' @ [hex_digit (n div 16), hex_digit (n mod 16)]
      else [c])"

fun json_runes :: "nat \<Rightarrow> string \<Rightarrow> string" where
  \<comment> \<open>the text between the quotes; the number is the length of the rest\<close>
  "json_runes 0 s = ''''"
| "json_runes (Suc n) s = (case s of
       [] \<Rightarrow> ''''
     | c # rest \<Rightarrow>
         if byte c < 128 then json_char c @ json_runes n rest
         else if rune_size s \<le> 1 then CHR 0x5C # ''ufffd'' @ json_runes n rest
         else if take 3 s = [CHR 0xE2, CHR 0x80, CHR 0xA8] then CHR 0x5C # ''u2028'' @ json_runes n (drop 3 s)
         else if take 3 s = [CHR 0xE2, CHR 0x80, CHR 0xA9] then CHR 0x5C # ''u2029'' @ json_runes n (drop 3 s)
         else take (rune_size s) s @ json_runes n (drop (rune_size s) s))"

definition json_string :: "string \<Rightarrow> string" where
  "json_string s = [CHR 0x22] @ json_runes (length s) s @ [CHR 0x22]"

end
