(* ===== verification/Notify.thy ===== *)
theory Notify
  imports Effects Utf8
begin

unbundle bit_operations_syntax

text \<open>
  Package \<^verbatim>\<open>internal/notify\<close>: the event a notification carries (\<^verbatim>\<open>event.go\<close>), the three
  channel types, which format it (\<^verbatim>\<open>slack.go\<close>, \<^verbatim>\<open>teams.go\<close>, \<^verbatim>\<open>webhook.go\<close>), and the
  shared posting with retries (\<^verbatim>\<open>notifier.go\<close>). A post is an effect: each attempt is one
  request \<open>EvHttp\<close>, each pause an \<open>EvSleep\<close>. The dialer's filter of \<^verbatim>\<open>transport.go\<close>,
  which works inside the HTTP client, is theory \<open>Transport\<close>. Times are formatted in UTC. The lemmas describe
  every run of \<open>post\<close>: at most three requests, all the same, none after a success or a
  permanent failure, and success exactly when the last answer is a 2xx.
\<close>

section \<open>event.go\<close>

datatype severity = SeverityUnset | SeverityInfo | SeveritySuccess | SeverityError

fun severity_string :: "severity \<Rightarrow> string" where
  "severity_string SeverityUnset = ''''"
| "severity_string SeverityInfo = ''info''"
| "severity_string SeveritySuccess = ''success''"
| "severity_string SeverityError = ''error''"

record notify_event =
  ne_id :: string
  ne_kind :: string
  ne_service :: string
  ne_namespace :: string
  ne_repo :: string
  ne_revision :: string
  ne_image :: string
  ne_phase :: string
  ne_message :: string
  ne_severity :: severity
  ne_time :: time

definition Title :: "notify_event \<Rightarrow> string" where
  "Title e = ne_kind e @ '' '' @ ne_namespace e @ ''/'' @ ne_service e @ '': '' @ ne_message e"

definition ShortRevision :: "notify_event \<Rightarrow> string" where
  "ShortRevision e = (if length (ne_revision e) > 12 then take 12 (ne_revision e) else ne_revision e)"

definition event_facts :: "notify_event \<Rightarrow> (string \<times> string) list" where
  "event_facts e = (''Service'', ne_namespace e @ ''/'' @ ne_service e)
     # filter (\<lambda>f. snd f \<noteq> '''') [(''Revision'', ShortRevision e), (''Image'', ne_image e),
          (''Phase'', ne_phase e), (''Repository'', ne_repo e)]"

section \<open>Times as text\<close>

definition pad_left :: "nat \<Rightarrow> string \<Rightarrow> string" where
  "pad_left n s = replicate (n - length s) CHR ''0'' @ s"

text \<open>The civil date of a day counted from 1970-01-01: year, month, day.\<close>

definition civil_date :: "int \<Rightarrow> int \<times> int \<times> int" where
  "civil_date days =
     (let z = days + 719468;
          era = z div 146097;
          doe = z mod 146097;
          yoe = (doe - doe div 1460 + doe div 36524 - doe div 146096) div 365;
          doy = doe - (365 * yoe + yoe div 4 - yoe div 100);
          mp = (5 * doy + 2) div 153;
          d = doy - (153 * mp + 2) div 5 + 1;
          m = (if mp < 10 then mp + 3 else mp - 9);
          y = yoe + era * 400 + (if m \<le> 2 then 1 else 0)
      in (y, m, d))"

definition date_text :: "time \<Rightarrow> string" where
  "date_text t = (case civil_date (t div seconds 86400) of (y, m, d) \<Rightarrow>
     pad_left 4 (fmt_d y) @ ''-'' @ pad_left 2 (fmt_d m) @ ''-'' @ pad_left 2 (fmt_d d))"

definition clock_text :: "time \<Rightarrow> string" where
  "clock_text t = (let s = (t mod seconds 86400) div seconds 1 in
     pad_left 2 (fmt_d (s div 3600)) @ '':'' @ pad_left 2 (fmt_d (s div 60 mod 60)) @ '':''
     @ pad_left 2 (fmt_d (s mod 60)))"

definition slack_time :: "time \<Rightarrow> string" where
  \<comment> \<open>layout \<^verbatim>\<open>2006-01-02 15:04:05 MST\<close> in UTC\<close>
  "slack_time t = date_text t @ '' '' @ clock_text t @ '' UTC''"

definition rfc3339_nano :: "time \<Rightarrow> string" where
  \<comment> \<open>how \<^verbatim>\<open>encoding/json\<close> writes a \<^verbatim>\<open>time.Time\<close>: trailing zeros of the fraction are dropped\<close>
  "rfc3339_nano t =
     (let frac = List.rev (dropWhile (\<lambda>c. c = CHR ''0'') (List.rev (pad_left 9 (fmt_d (t mod seconds 1)))))
      in date_text t @ ''T'' @ clock_text t @ (if frac = '''' then '''' else ''.'' @ frac) @ ''Z'')"

section \<open>JSON as bytes\<close>

text \<open>\<^verbatim>\<open>json.Marshal\<close>, which a signature is computed over: compact, with the strings of \<open>json_string\<close>.\<close>

fun json_bytes :: "json \<Rightarrow> string" where
  "json_bytes (JStr s) = json_string s"
| "json_bytes (JBool b) = (if b then ''true'' else ''false'')"
| "json_bytes (JInt i) = fmt_d i"
| "json_bytes (JArr xs) = ''['' @ join (map json_bytes xs) '','' @ '']''"
| "json_bytes (JObj kvs) =
     ''{'' @ join (map (\<lambda>(k, v). json_string k @ '':'' @ json_bytes v) kvs) '','' @ ''}''"

section \<open>notifier.go\<close>

record poster =
  po_url :: string

datatype notifier = SlackNotifier poster | TeamsNotifier poster | WebhookNotifier poster string

record notify_config =
  nc_type :: string
  nc_url :: string
  nc_signing_key :: string

definition validateURL :: "klib \<Rightarrow> notify_config \<Rightarrow> gerror option" where
  "validateURL L cfg =
     (case lib_url_parse L (nc_url cfg) of
        Inl err \<Rightarrow> Some (errorf (''the '' @ nc_type cfg @ '' URL is not a valid URL''))
      | Inr u \<Rightarrow>
          if u_host u = '''' then Some (errorf (''the '' @ nc_type cfg @ '' URL is not a valid URL''))
          else if u_scheme u = ''https'' then None
          else if u_scheme u = ''http'' \<and> nc_type cfg = ''webhook'' then None
          else Some (errorf (''the '' @ nc_type cfg @ '' URL must use https'')))"

definition new_notifier :: "klib \<Rightarrow> notify_config \<Rightarrow> gerror + notifier" where
  "new_notifier L cfg =
     (case validateURL L cfg of
        Some err \<Rightarrow> Inl err
      | None \<Rightarrow>
          let p = \<lparr>po_url = nc_url cfg\<rparr> in
          if nc_type cfg = ''slack'' then Inr (SlackNotifier p)
          else if nc_type cfg = ''teams'' then Inr (TeamsNotifier p)
          else if nc_type cfg = ''webhook'' then Inr (WebhookNotifier p (nc_signing_key cfg))
          else Inl (errorf (''unknown channel type '' @ fmt_q (nc_type cfg))))"

fun replace_upto :: "nat \<Rightarrow> string \<Rightarrow> string \<Rightarrow> string \<Rightarrow> string" where
  \<comment> \<open>\<^verbatim>\<open>bytes.ReplaceAll\<close> for a non-empty old; every step consumes a byte, the first
      argument bounds the steps\<close>
  "replace_upto 0 s old new = s"
| "replace_upto (Suc n) s old new =
     (case s of [] \<Rightarrow> []
      | c # cs \<Rightarrow> if old \<noteq> [] \<and> has_prefix s old then new @ replace_upto n (drop (length old) s) old new
                  else c # replace_upto n cs old new)"

definition redact :: "gerror \<Rightarrow> string \<Rightarrow> string" where
  "redact err u = replace_upto (length (err_msg err)) (err_msg err) u ''<url>''"

definition post_request :: "poster \<Rightarrow> json \<Rightarrow> (string \<times> string) list \<Rightarrow> http_request" where
  "post_request p body headers = \<lparr>hq_method = ''POST'', hq_url = po_url p,
     hq_headers = [(''Content-Type'', ''application/json''), (''User-Agent'', ''koptan-operator'')] @ headers,
     hq_body = Some body\<rparr>"

definition once :: "env \<Rightarrow> klib \<Rightarrow> poster \<Rightarrow> json \<Rightarrow> (string \<times> string) list \<Rightarrow> (bool \<times> gerror option) io" where
  "once E L p body headers =
     (case lib_url_parse L (po_url p) of
        Inl err \<Rightarrow> ret (False, Some err)
      | Inr _ \<Rightarrow> do {
          r \<leftarrow> perform (\<lambda>t. env_http E t (post_request p body headers)) (EvHttp (post_request p body headers));
          ret (case r of
              Inl err \<Rightarrow> (True, Some (errorf (''post failed: '' @ redact err (po_url p))))
            | Inr resp \<Rightarrow>
                if hr_status resp \<ge> 200 \<and> hr_status resp < 300 then (False, None)
                else (hr_status resp = 429 \<or> hr_status resp \<ge> 500,
                      Some (errorf (''receiver answered '' @ fmt_d (hr_status resp) @ '': ''
                        @ trim_space (take 300 (hr_body resp))))))
        })"

definition attempts :: nat where
  "attempts = 3"

definition context_error :: gerror where
  "context_error = errorf ''context canceled''"

fun post_from :: "env \<Rightarrow> klib \<Rightarrow> poster \<Rightarrow> json \<Rightarrow> (string \<times> string) list \<Rightarrow> nat \<Rightarrow> nat
    \<Rightarrow> gerror option \<Rightarrow> gerror option io" where
  \<comment> \<open>the loop of \<^verbatim>\<open>post\<close>: attempts left, the attempt's index, the last error\<close>
  "post_from E L p body headers 0 i lst = ret lst"
| "post_from E L p body headers (Suc n) i lst = do {
     stop \<leftarrow> (if i > 0 then do {
                 cancelled \<leftarrow> State (\<lambda>t. (env_cancelled E t, t));
                 if cancelled then ret True
                 else do { _ \<leftarrow> perform (\<lambda>t. ()) (\<lambda>_. EvSleep (int i * 500000000)); ret False }
               } else ret False);
     if stop then ret (Some context_error)
     else do {
       r \<leftarrow> once E L p body headers;
       (case r of
          (retry, None) \<Rightarrow> ret None
        | (retry, Some err) \<Rightarrow>
            if \<not> retry then ret (Some err)
            else post_from E L p body headers n (Suc i) (Some err))
     }
   }"

definition post :: "env \<Rightarrow> klib \<Rightarrow> poster \<Rightarrow> json \<Rightarrow> (string \<times> string) list \<Rightarrow> gerror option io" where
  "post E L p body headers = post_from E L p body headers attempts 0 None"

section \<open>slack.go\<close>

fun slackEmoji :: "severity \<Rightarrow> string" where
  "slackEmoji SeverityUnset = ''''"
| "slackEmoji SeverityInfo = '':information_source:''"
| "slackEmoji SeveritySuccess = '':white_check_mark:''"
| "slackEmoji SeverityError = '':x:''"

definition mrkdwn :: "string \<Rightarrow> json" where
  "mrkdwn s = JObj [(''type'', JStr ''mrkdwn''), (''text'', JStr s)]"

definition slack_body :: "notify_event \<Rightarrow> json" where
  "slack_body e =
     (let fields = concat (map (\<lambda>(k, v). ''*'' @ k @ '':* '' @ v @ [CHR 0x0A]) (event_facts e)) in
      JObj [(''text'', JStr (Title e)),
            (''blocks'', JArr [
               JObj [(''type'', JStr ''section''),
                     (''text'', mrkdwn (slackEmoji (ne_severity e) @ '' *'' @ ne_kind e @ ''* ''
                        @ [CHR 0xE2, CHR 0x80, CHR 0x94] @ '' '' @ ne_message e))],
               JObj [(''type'', JStr ''section''), (''text'', mrkdwn fields)],
               JObj [(''type'', JStr ''context''),
                     (''elements'', JArr [mrkdwn (''Koptan '' @ [CHR 0xC2, CHR 0xB7] @ '' ''
                        @ slack_time (ne_time e))])]])])"

section \<open>teams.go\<close>

fun teamsColor :: "severity \<Rightarrow> string" where
  "teamsColor SeverityUnset = ''''"
| "teamsColor SeverityInfo = ''Accent''"
| "teamsColor SeveritySuccess = ''Good''"
| "teamsColor SeverityError = ''Attention''"

definition teams_body :: "notify_event \<Rightarrow> json" where
  "teams_body e =
     (let facts = map (\<lambda>(k, v). JObj [(''title'', JStr k), (''value'', JStr v)]) (event_facts e);
          card = JObj [
            (''$schema'', JStr ''http://adaptivecards.io/schemas/adaptive-card.json''),
            (''type'', JStr ''AdaptiveCard''),
            (''version'', JStr ''1.4''),
            (''body'', JArr [
               JObj [(''type'', JStr ''TextBlock''), (''text'', JStr (ne_kind e)), (''weight'', JStr ''Bolder''),
                     (''size'', JStr ''Medium''), (''color'', JStr (teamsColor (ne_severity e)))],
               JObj [(''type'', JStr ''TextBlock''), (''text'', JStr (ne_message e)), (''wrap'', JBool True)],
               JObj [(''type'', JStr ''FactSet''), (''facts'', JArr facts)]])]
      in JObj [(''type'', JStr ''message''),
               (''attachments'', JArr [
                  JObj [(''contentType'', JStr ''application/vnd.microsoft.card.adaptive''),
                        (''content'', card)]])])"

section \<open>webhook.go\<close>

definition SignatureHeader :: string where
  "SignatureHeader = ''X-Koptan-Signature''"

definition omit_empty :: "string \<Rightarrow> string \<Rightarrow> (string \<times> json) list" where
  "omit_empty k v = (if v = '''' then [] else [(k, JStr v)])"

definition event_json :: "notify_event \<Rightarrow> json" where
  "event_json e = JObj (
     [(''id'', JStr (ne_id e)), (''kind'', JStr (ne_kind e)), (''service'', JStr (ne_service e)),
      (''namespace'', JStr (ne_namespace e))]
     @ omit_empty ''repo'' (ne_repo e) @ omit_empty ''revision'' (ne_revision e)
     @ omit_empty ''image'' (ne_image e) @ omit_empty ''phase'' (ne_phase e)
     @ [(''message'', JStr (ne_message e)), (''severity'', JStr (severity_string (ne_severity e))),
        (''time'', JStr (rfc3339_nano (ne_time e)))])"

text \<open>HMAC (RFC 2104) over SHA-256, whose block is 64 bytes.\<close>

definition xor_bytes :: "nat \<Rightarrow> string \<Rightarrow> string" where
  "xor_bytes n bs = map (\<lambda>b. char_of ((of_char b :: nat) XOR n)) bs"

definition hmac_sha256 :: "klib \<Rightarrow> string \<Rightarrow> string \<Rightarrow> string" where
  "hmac_sha256 L key msg =
     (let key = (if length key > 64 then lib_sha256 L key else key);
          key = key @ replicate (64 - length key) (char_of (0 :: nat))
      in lib_sha256 L (xor_bytes 0x5C key @ lib_sha256 L (xor_bytes 0x36 key @ msg)))"

definition Sign :: "klib \<Rightarrow> string \<Rightarrow> string \<Rightarrow> string" where
  "Sign L key body = ''sha256='' @ fmt_x (hmac_sha256 L key body)"

definition webhook_headers :: "klib \<Rightarrow> string \<Rightarrow> notify_event \<Rightarrow> (string \<times> string) list" where
  "webhook_headers L key e =
     [(''X-Koptan-Event'', ne_kind e), (''X-Koptan-Delivery'', ne_id e)]
     @ (if key \<noteq> '''' then [(SignatureHeader, Sign L key (json_bytes (event_json e)))] else [])"

section \<open>The interface\<close>

fun Send :: "env \<Rightarrow> klib \<Rightarrow> notifier \<Rightarrow> notify_event \<Rightarrow> gerror option io" where
  "Send E L (SlackNotifier p) e = post E L p (slack_body e) []"
| "Send E L (TeamsNotifier p) e = post E L p (teams_body e) []"
| "Send E L (WebhookNotifier p key) e = post E L p (event_json e) (webhook_headers L key e)"

fun notifier_url :: "notifier \<Rightarrow> string" where
  "notifier_url (SlackNotifier p) = po_url p"
| "notifier_url (TeamsNotifier p) = po_url p"
| "notifier_url (WebhookNotifier p key) = po_url p"

section \<open>Every run of post\<close>

definition delivered :: "gerror + http_response \<Rightarrow> bool" where
  "delivered a = (case a of Inl _ \<Rightarrow> False | Inr resp \<Rightarrow> hr_status resp \<ge> 200 \<and> hr_status resp < 300)"

definition transient :: "gerror + http_response \<Rightarrow> bool" where
  "transient a = (case a of Inl _ \<Rightarrow> True | Inr resp \<Rightarrow> hr_status resp = 429 \<or> hr_status resp \<ge> 500)"

text \<open>The answers to the requests of a history, and its requests.\<close>

fun http_answers :: "trace \<Rightarrow> (gerror + http_response) list" where
  "http_answers [] = []"
| "http_answers (EvHttp q a # t) = a # http_answers t"
| "http_answers (e # t) = http_answers t"

fun is_post_event :: "http_request \<Rightarrow> event \<Rightarrow> bool" where
  "is_post_event q (EvHttp q' a) = (q' = q)"
| "is_post_event q (EvSleep d) = True"
| "is_post_event q _ = False"

lemma http_answers_append [simp]: "http_answers (s @ t) = http_answers s @ http_answers t"
  by (induction s rule: http_answers.induct) auto

definition post_run :: "poster \<Rightarrow> json \<Rightarrow> (string \<times> string) list \<Rightarrow> nat \<Rightarrow> trace \<Rightarrow> gerror option \<Rightarrow> bool" where
  "post_run p body headers n es r \<longleftrightarrow>
     list_all (is_post_event (post_request p body headers)) es
   \<and> length (http_answers es) \<le> n
   \<and> (\<forall>a\<in>set (butlast (http_answers es)). transient a \<and> \<not> delivered a)
   \<and> (r = None \<longrightarrow> http_answers es \<noteq> [] \<and> delivered (last (http_answers es)))
   \<and> (r \<noteq> None \<longrightarrow> list_all (\<lambda>a. \<not> delivered a) (http_answers es))"

lemma run_once:
  assumes "lib_url_parse L (po_url p) = Inr u"
    and "q = post_request p body headers"
  shows "\<exists>err. run_state (once E L p body headers \<bind> f) t
     = run_state (f (if delivered (env_http E t q) then (False, None)
         else (transient (env_http E t q), Some err))) (t @ [EvHttp q (env_http E t q)])"
proof (cases "env_http E t q")
  case (Inl err)
  then show ?thesis
    using assms by (auto simp: once_def delivered_def transient_def)
next
  case (Inr resp)
  then show ?thesis
    using assms by (auto simp: once_def delivered_def transient_def)
qed

lemma run_post_from:
  assumes "run_state (post_from E L p body headers n i lst) t = (r, t')" and "n > 0 \<or> lst \<noteq> None"
  shows "\<exists>es. t' = t @ es \<and> post_run p body headers n es r"
  using assms
proof (induction n arbitrary: i lst t)
  case 0
  then show ?case by (auto simp: post_run_def)
next
  case (Suc n)
  define pause where "pause = (if i > 0 \<and> \<not> env_cancelled E t then [EvSleep (int i * 500000000)] else [])"
  show ?case
  proof (cases "i > 0 \<and> env_cancelled E t")
    case True
    with Suc.prems have "t' = t" "r = Some context_error" by auto
    then show ?thesis by (auto simp: post_run_def)
  next
    case False
    define t1 where "t1 = t @ pause"
    define judge where "judge = (\<lambda>r. case r of (retry, None) \<Rightarrow> ret None
        | (retry, Some err) \<Rightarrow> if \<not> retry then ret (Some err)
            else post_from E L p body headers n (Suc i) (Some err))"
    have run1: "run_state (post_from E L p body headers (Suc n) i lst) t
       = run_state (once E L p body headers \<bind> judge) t1"
      using False by (auto simp: t1_def pause_def judge_def)
    have pauses: "list_all (is_post_event q) pause" "http_answers pause = []" for q
      by (simp_all add: pause_def)
    show ?thesis
    proof (cases "lib_url_parse L (po_url p)")
      case (Inl err)
      then have "t' = t @ pause" "r = Some err"
        using Suc.prems(1) unfolding run1 by (auto simp: once_def t1_def judge_def)
      then show ?thesis using pauses by (auto simp: post_run_def)
    next
      case (Inr u)
      define a where "a = env_http E t1 (post_request p body headers)"
      define es1 where "es1 = pause @ [EvHttp (post_request p body headers) a]"
      have es1: "list_all (is_post_event (post_request p body headers)) es1" "http_answers es1 = [a]"
        using pauses by (simp_all add: es1_def)
      have tr: "t1 @ [EvHttp (post_request p body headers) a] = t @ es1"
        by (simp add: t1_def es1_def)
      consider (ok) "delivered a" "r = None" "t' = t @ es1"
        | (perm) err where "\<not> delivered a" "\<not> transient a" "r = Some err" "t' = t @ es1"
        | (again) err where "\<not> delivered a" "transient a"
            "run_state (post_from E L p body headers n (Suc i) (Some err)) (t @ es1) = (r, t')"
      proof -
        obtain err where "run_state (once E L p body headers \<bind> judge) t1
            = run_state (judge (if delivered a then (False, None) else (transient a, Some err))) (t @ es1)"
          using run_once [OF Inr refl, of E body headers judge t1] unfolding a_def [symmetric] tr by blast
        with Suc.prems(1) run1
        have run: "run_state (judge (if delivered a then (False, None) else (transient a, Some err))) (t @ es1)
            = (r, t')" by simp
        show thesis
        proof (cases "delivered a")
          case True
          with run ok show thesis by (simp add: judge_def)
        next
          case False
          with run perm [of err] again show thesis by (cases "transient a") (auto simp: judge_def)
        qed
      qed
      then show ?thesis
      proof cases
        case ok
        then show ?thesis using es1 by (auto simp: post_run_def)
      next
        case perm
        then show ?thesis using es1 by (auto simp: post_run_def)
      next
        case (again err)
        from Suc.IH [OF again(3)] obtain es where es: "t' = (t @ es1) @ es" "post_run p body headers n es r"
          by auto
        then have "post_run p body headers (Suc n) (es1 @ es) r"
          using es1 again(1,2) by (auto simp: post_run_def)
        then show ?thesis using es(1) by (intro exI [of _ "es1 @ es"]) simp
      qed
    qed
  qed
qed

lemma run_post:
  "run_state (post E L p body headers) t = (r, t') \<Longrightarrow> \<exists>es. t' = t @ es \<and> post_run p body headers 3 es r"
  unfolding post_def attempts_def by (rule run_post_from) auto

text \<open>A notifier's requests are POSTs to its URL.\<close>

fun is_post_to :: "string \<Rightarrow> event \<Rightarrow> bool" where
  "is_post_to u (EvHttp q a) = (hq_method q = ''POST'' \<and> hq_url q = u)"
| "is_post_to u (EvSleep d) = True"
| "is_post_to u _ = False"

lemma emits_post: "emits (post E L p body headers) (is_post_to (po_url p))"
  unfolding emits_def
proof
  fix t
  obtain r t' where run: "run_state (post E L p body headers) t = (r, t')" by fastforce
  from run_post [OF run] obtain es where es: "t' = t @ es"
    "list_all (is_post_event (post_request p body headers)) es"
    unfolding post_run_def by blast
  have "is_post_to (po_url p) e" if "is_post_event (post_request p body headers) e" for e
    using that by (cases e) (auto simp: post_request_def)
  then have "list_all (is_post_to (po_url p)) es"
    using es(2) by (auto simp: list_all_iff)
  with es(1) run show "\<exists>es. snd (run_state (post E L p body headers) t) = t @ es
     \<and> list_all (is_post_to (po_url p)) es" by auto
qed

lemma emits_Send: "emits (Send E L n e) (is_post_to (notifier_url n))"
  by (cases n) (auto intro: emits_post)

lemma new_notifier_url: "new_notifier L cfg = Inr n \<Longrightarrow> notifier_url n = nc_url cfg"
  by (auto simp: new_notifier_def Let_def split: option.splits if_splits)

end
