(* ===== verification/Alerting.thy ===== *)
theory Alerting
  imports Notify "HOL-Library.AList"
begin

text \<open>
  Package \<^verbatim>\<open>internal/alerting\<close>: which events a Service's pipeline shows (\<^verbatim>\<open>events.go\<close>) and
  which of them each channel of an Alert still needs (\<^verbatim>\<open>plan.go\<close>). Both are pure. A Go map
  the code ranges over or stores is an association list with distinct keys. The lemmas show
  that there is at most one occurrence per kind, that a state key identifies service, kind
  and channel, that \<open>Plan\<close> decides every pair of occurrence and channel exactly one way, and
  that a plan that was carried out leaves nothing to send.
\<close>

section \<open>events.go\<close>

record snapshot =
  sn_service :: service
  sn_ci :: "ci option"
  sn_cd :: "cd option"

record occurrence =
  oc_kind :: alert_event
  oc_key :: string
  oc_event :: notify_event

definition short :: "string \<Rightarrow> string" where
  "short sha = (if length sha > 12 then take 12 sha else sha)"

definition mk_occurrence :: "alert_event \<Rightarrow> string \<Rightarrow> notify_event \<Rightarrow> occurrence" where
  "mk_occurrence kind key e =
     (let e = e\<lparr>ne_kind := alert_event_string kind\<rparr>;
          e = e\<lparr>ne_id := ne_namespace e @ ''/'' @ ne_service e @ ''/'' @ alert_event_string kind @ ''/'' @ key\<rparr>
      in \<lparr>oc_kind = kind, oc_key = key, oc_event = e\<rparr>)"

definition ciEvents :: "notify_event \<Rightarrow> ci \<Rightarrow> occurrence list" where
  "ciEvents base x =
     (let st = ci_status_of x; rv = cst_building_revision st in
      if rv = '''' then []
      else
        let key = rv @ ''@'' @ fmt_d (cst_observed_generation st) @ ''/'' @ cst_build_pod st;
            e = base\<lparr>ne_revision := rv, ne_phase := ci_phase_string (cst_phase st)\<rparr>
        in (case cst_phase st of
              CIPhaseBuilding \<Rightarrow>
                [mk_occurrence AlertCIStarted key
                   (e\<lparr>ne_message := ''Building '' @ short rv, ne_severity := SeverityInfo\<rparr>)]
            | CIPhaseSucceeded \<Rightarrow>
                [mk_occurrence AlertCISucceeded key
                   (e\<lparr>ne_image := cst_image st, ne_message := ''Built '' @ cst_image st,
                      ne_severity := SeveritySuccess\<rparr>)]
            | CIPhaseFailed \<Rightarrow>
                [mk_occurrence AlertCIFailed key
                   (e\<lparr>ne_message := ''Build failed: '' @ cst_message st, ne_severity := SeverityError\<rparr>)]
            | _ \<Rightarrow> []))"

definition cdEvents :: "notify_event \<Rightarrow> cd \<Rightarrow> occurrence list" where
  "cdEvents base x =
     (let st = cd_status_of x; image = cdst_image st in
      if image = '''' then []
      else
        let e = base\<lparr>ne_revision := cdst_revision st, ne_image := image,
                     ne_phase := cd_phase_string (cdst_phase st)\<rparr>
        in (case cdst_phase st of
              CDPhaseDeploying \<Rightarrow>
                [mk_occurrence AlertCDDeploying image
                   (e\<lparr>ne_message := ''Rolling out '' @ image, ne_severity := SeverityInfo\<rparr>)]
            | CDPhaseRunning \<Rightarrow>
                [mk_occurrence AlertCDSucceeded image
                   (e\<lparr>ne_message := image @ '' is running ('' @ fmt_d (cdst_available_replicas st)
                        @ '' replicas available)'', ne_severity := SeveritySuccess\<rparr>)]
            | CDPhaseFailed \<Rightarrow>
                [mk_occurrence AlertCDFailed image
                   (e\<lparr>ne_message := ''Deployment failed: '' @ cdst_message st, ne_severity := SeverityError\<rparr>)]
            | _ \<Rightarrow> []))"

definition base_event :: "service \<Rightarrow> notify_event" where
  "base_event svc = \<lparr>ne_id = '''', ne_kind = '''', ne_service = m_name (sv_meta svc),
     ne_namespace = m_namespace (sv_meta svc), ne_repo = src_repo (svs_source (sv_spec_of svc)),
     ne_revision = '''', ne_image = '''', ne_phase = '''', ne_message = '''', ne_severity = SeverityUnset,
     ne_time = 0\<rparr>"

definition push_event :: "notify_event \<Rightarrow> service \<Rightarrow> notify_event" where
  "push_event base svc =
     (let rv = svst_latest_revision (sv_status_of svc) in
      base\<lparr>ne_revision := rv,
           ne_message := ''New revision '' @ short rv @ '' of '' @ src_repo (svs_source (sv_spec_of svc)),
           ne_severity := SeverityInfo\<rparr>)"

definition Events :: "snapshot \<Rightarrow> occurrence list" where
  "Events s =
     (let svc = sn_service s; base = base_event svc;
          rv = svst_latest_revision (sv_status_of svc);
          out = (if rv \<noteq> '''' then [mk_occurrence AlertPush rv (push_event base svc)] else []);
          out = (case sn_ci s of None \<Rightarrow> out | Some x \<Rightarrow> out @ ciEvents base x);
          out = (case sn_cd s of None \<Rightarrow> out | Some x \<Rightarrow> out @ cdEvents base x)
      in out)"

lemma mk_occurrence_simps [simp]:
  "oc_kind (mk_occurrence kind key e) = kind"
  "oc_key (mk_occurrence kind key e) = key"
  "ne_service (oc_event (mk_occurrence kind key e)) = ne_service e"
  "ne_namespace (oc_event (mk_occurrence kind key e)) = ne_namespace e"
  by (simp_all add: mk_occurrence_def Let_def)

lemma ciEvents_cases:
  "ciEvents base x = [] \<or> (\<exists>kind key e. ciEvents base x = [mk_occurrence kind key e]
     \<and> kind \<in> {AlertCIStarted, AlertCISucceeded, AlertCIFailed} \<and> key \<noteq> ''''
     \<and> ne_service e = ne_service base \<and> ne_namespace e = ne_namespace base)"
  by (cases "cst_phase (ci_status_of x)")
    (auto simp: ciEvents_def Let_def, (intro exI conjI, rule refl, simp_all)+)

lemma cdEvents_cases:
  "cdEvents base x = [] \<or> (\<exists>kind key e. cdEvents base x = [mk_occurrence kind key e]
     \<and> kind \<in> {AlertCDDeploying, AlertCDSucceeded, AlertCDFailed} \<and> key \<noteq> ''''
     \<and> ne_service e = ne_service base \<and> ne_namespace e = ne_namespace base)"
  by (cases "cdst_phase (cd_status_of x)")
    (auto simp: cdEvents_def Let_def, (intro exI conjI, rule refl, simp_all)+)

lemma Events_parts:
  obtains p c d where "Events s = p @ c @ d"
    and "p = [] \<or> (\<exists>key e. p = [mk_occurrence AlertPush key e] \<and> key \<noteq> ''''
          \<and> ne_service e = m_name (sv_meta (sn_service s)))"
    and "c = [] \<or> (\<exists>kind key e. c = [mk_occurrence kind key e]
          \<and> kind \<in> {AlertCIStarted, AlertCISucceeded, AlertCIFailed} \<and> key \<noteq> ''''
          \<and> ne_service e = m_name (sv_meta (sn_service s)))"
    and "d = [] \<or> (\<exists>kind key e. d = [mk_occurrence kind key e]
          \<and> kind \<in> {AlertCDDeploying, AlertCDSucceeded, AlertCDFailed} \<and> key \<noteq> ''''
          \<and> ne_service e = m_name (sv_meta (sn_service s)))"
proof -
  let ?b = "base_event (sn_service s)"
  have b: "ne_service ?b = m_name (sv_meta (sn_service s))" by (simp add: base_event_def)
  define p where "p = Events (s\<lparr>sn_ci := None, sn_cd := None\<rparr>)"
  define c where "c = (case sn_ci s of None \<Rightarrow> [] | Some x \<Rightarrow> ciEvents ?b x)"
  define d where "d = (case sn_cd s of None \<Rightarrow> [] | Some x \<Rightarrow> cdEvents ?b x)"
  show thesis
  proof (rule that [of p c d])
    show "Events s = p @ c @ d"
      by (simp add: Events_def p_def c_def d_def Let_def split: option.split)
    show "p = [] \<or> (\<exists>key e. p = [mk_occurrence AlertPush key e] \<and> key \<noteq> ''''
          \<and> ne_service e = m_name (sv_meta (sn_service s)))"
    proof -
      have "ne_service (push_event ?b (sn_service s)) = m_name (sv_meta (sn_service s))"
        using b by (simp add: push_event_def Let_def)
      moreover have "p = (if svst_latest_revision (sv_status_of (sn_service s)) \<noteq> ''''
          then [mk_occurrence AlertPush (svst_latest_revision (sv_status_of (sn_service s)))
                  (push_event ?b (sn_service s))] else [])"
        by (simp add: p_def Events_def Let_def)
      ultimately show ?thesis by auto
    qed
    show "c = [] \<or> (\<exists>kind key e. c = [mk_occurrence kind key e]
          \<and> kind \<in> {AlertCIStarted, AlertCISucceeded, AlertCIFailed} \<and> key \<noteq> ''''
          \<and> ne_service e = m_name (sv_meta (sn_service s)))"
      using ciEvents_cases [of ?b] unfolding b c_def by (cases "sn_ci s") (simp, simp only: option.case, blast)
    show "d = [] \<or> (\<exists>kind key e. d = [mk_occurrence kind key e]
          \<and> kind \<in> {AlertCDDeploying, AlertCDSucceeded, AlertCDFailed} \<and> key \<noteq> ''''
          \<and> ne_service e = m_name (sv_meta (sn_service s)))"
      using cdEvents_cases [of ?b] unfolding b d_def by (cases "sn_cd s") (simp, simp only: option.case, blast)
  qed
qed

lemma Events_distinct: "distinct (map oc_kind (Events s))"
  by (rule Events_parts [of s]) auto

lemma Events_service:
  "oc \<in> set (Events s) \<Longrightarrow> oc_key oc \<noteq> '''' \<and> ne_service (oc_event oc) = m_name (sv_meta (sn_service s))"
  by (rule Events_parts [of s]) (auto simp del: mk_occurrence_simps(1))

section \<open>plan.go\<close>

type_synonym ledger = "(string \<times> string) list"

record delivery =
  dl_occurrence :: occurrence
  dl_channel :: string
  dl_state_key :: string

record decision =
  dn_send :: "delivery list"
  dn_record :: ledger

record plan_input =
  in_occurrences :: "occurrence list"
  in_channels :: "string list"
  in_wanted :: "alert_event list"
  in_sent :: ledger
  in_baseline :: "string list"

definition StateKey :: "string \<Rightarrow> alert_event \<Rightarrow> string \<Rightarrow> string" where
  "StateKey service kind channel = service @ ''/'' @ alert_event_string kind @ ''/'' @ channel"

definition lookup :: "ledger \<Rightarrow> string \<Rightarrow> string" where
  \<comment> \<open>the zero value for a missing key\<close>
  "lookup sent k = (case map_of sent k of None \<Rightarrow> '''' | Some v \<Rightarrow> v)"

definition plan_one :: "plan_input \<Rightarrow> decision \<Rightarrow> occurrence \<times> string \<Rightarrow> decision" where
  "plan_one inp d pair = (case pair of (oc, ch) \<Rightarrow>
     let k = StateKey (ne_service (oc_event oc)) (oc_kind oc) ch in
     if lookup (in_sent inp) k = oc_key oc then d
     else if ch \<in> set (in_baseline inp)
           \<or> (in_wanted inp \<noteq> [] \<and> oc_kind oc \<notin> set (in_wanted inp))
     then d\<lparr>dn_record := AList.update k (oc_key oc) (dn_record d)\<rparr>
     else d\<lparr>dn_send := dn_send d @ [\<lparr>dl_occurrence = oc, dl_channel = ch, dl_state_key = k\<rparr>]\<rparr>)"

definition plan_pairs :: "plan_input \<Rightarrow> (occurrence \<times> string) list" where
  \<comment> \<open>the iterations of the two nested loops\<close>
  "plan_pairs inp = concat (map (\<lambda>oc. map (Pair oc) (in_channels inp)) (in_occurrences inp))"

definition Plan :: "plan_input \<Rightarrow> decision" where
  "Plan inp = foldl (plan_one inp) \<lparr>dn_send = [], dn_record = []\<rparr> (plan_pairs inp)"

definition Prune :: "ledger \<Rightarrow> string list \<Rightarrow> ledger" where
  "Prune sent selected = filter (\<lambda>(k, v). case cut k CHR ''/'' of (service, _, _) \<Rightarrow> service \<in> set selected) sent"

definition ChannelsInState :: "ledger \<Rightarrow> string list" where
  "ChannelsInState sent = List.map_filter (\<lambda>(k, v). last_segment k CHR ''/'') sent"

subsection \<open>State keys\<close>

lemma append_slash_inj:
  "CHR ''/'' \<notin> set a \<Longrightarrow> CHR ''/'' \<notin> set b \<Longrightarrow> a @ CHR ''/'' # x = b @ CHR ''/'' # y \<Longrightarrow> a = b \<and> x = y"
  by (metis cut_append prod.inject)

lemma StateKey_inj:
  assumes "CHR ''/'' \<notin> set s" "CHR ''/'' \<notin> set s'" "StateKey s k c = StateKey s' k' c'"
  shows "s = s' \<and> k = k' \<and> c = c'"
proof -
  from assms(3) have eq: "s @ CHR ''/'' # (alert_event_string k @ CHR ''/'' # c)
      = s' @ CHR ''/'' # (alert_event_string k' @ CHR ''/'' # c')"
    by (simp add: StateKey_def)
  from append_slash_inj [OF assms(1,2) eq]
  have s: "s = s'" and rest: "alert_event_string k @ CHR ''/'' # c = alert_event_string k' @ CHR ''/'' # c'"
    by auto
  from append_slash_inj [OF alert_event_string_no_slash alert_event_string_no_slash rest]
  have "alert_event_string k = alert_event_string k'" "c = c'" by auto
  with s alert_event_string_inject show ?thesis by blast
qed

lemma cut_StateKey: "CHR ''/'' \<notin> set s \<Longrightarrow> fst (cut (StateKey s k c) CHR ''/'') = s"
proof -
  assume "CHR ''/'' \<notin> set s"
  moreover have "StateKey s k c = s @ CHR ''/'' # (alert_event_string k @ CHR ''/'' # c)"
    by (simp add: StateKey_def)
  ultimately show ?thesis using cut_append by simp
qed

lemma last_segment_StateKey: "CHR ''/'' \<notin> set c \<Longrightarrow> last_segment (StateKey s k c) CHR ''/'' = Some c"
  unfolding StateKey_def
  using last_segment_append [of "CHR ''/''" c "s @ ''/'' @ alert_event_string k"] by simp

subsection \<open>What Plan decides\<close>

definition pair_key :: "occurrence \<times> string \<Rightarrow> string" where
  "pair_key pair = (case pair of (oc, ch) \<Rightarrow> StateKey (ne_service (oc_event oc)) (oc_kind oc) ch)"

definition handled :: "ledger \<Rightarrow> occurrence \<times> string \<Rightarrow> bool" where
  "handled sent pair \<longleftrightarrow> lookup sent (pair_key pair) = oc_key (fst pair)"

definition silent :: "plan_input \<Rightarrow> occurrence \<times> string \<Rightarrow> bool" where
  "silent inp pair \<longleftrightarrow> snd pair \<in> set (in_baseline inp)
     \<or> (in_wanted inp \<noteq> [] \<and> oc_kind (fst pair) \<notin> set (in_wanted inp))"

definition pair_delivery :: "occurrence \<times> string \<Rightarrow> delivery" where
  "pair_delivery pair = \<lparr>dl_occurrence = fst pair, dl_channel = snd pair, dl_state_key = pair_key pair\<rparr>"

lemma plan_one_simps:
  "dn_send (plan_one inp d pair) = (if handled (in_sent inp) pair \<or> silent inp pair then dn_send d
     else dn_send d @ [pair_delivery pair])"
  "dn_record (plan_one inp d pair) = (if \<not> handled (in_sent inp) pair \<and> silent inp pair
     then AList.update (pair_key pair) (oc_key (fst pair)) (dn_record d) else dn_record d)"
  by (cases pair; simp add: plan_one_def handled_def silent_def pair_key_def pair_delivery_def Let_def)+

lemma plan_send_fold:
  "dn_send (foldl (plan_one inp) d pairs) = dn_send d
     @ map pair_delivery (filter (\<lambda>p. \<not> handled (in_sent inp) p \<and> \<not> silent inp p) pairs)"
  by (induction pairs arbitrary: d) (simp_all add: plan_one_simps)

lemma Plan_send:
  "dn_send (Plan inp)
     = map pair_delivery (filter (\<lambda>p. \<not> handled (in_sent inp) p \<and> \<not> silent inp p) (plan_pairs inp))"
  by (simp add: Plan_def plan_send_fold)

lemma plan_record_fold:
  "dn_record (foldl (plan_one inp) d pairs) =
     foldl (\<lambda>m p. AList.update (pair_key p) (oc_key (fst p)) m) (dn_record d)
       (filter (\<lambda>p. \<not> handled (in_sent inp) p \<and> silent inp p) pairs)"
  by (induction pairs arbitrary: d) (simp_all add: plan_one_simps)

lemma Plan_record:
  "dn_record (Plan inp) = foldl (\<lambda>m p. AList.update (pair_key p) (oc_key (fst p)) m) []
       (filter (\<lambda>p. \<not> handled (in_sent inp) p \<and> silent inp p) (plan_pairs inp))"
  by (simp add: Plan_def plan_record_fold)

text \<open>
  Pairs with the same state key are the same occurrence: so it is for the pairs of a run of
  the controller, whose Services have different names.
\<close>

definition keys_determine :: "(occurrence \<times> string) list \<Rightarrow> bool" where
  "keys_determine pairs \<longleftrightarrow>
     (\<forall>p\<in>set pairs. \<forall>q\<in>set pairs. pair_key p = pair_key q \<longrightarrow> oc_key (fst p) = oc_key (fst q))"

lemma keys_determineD:
  "keys_determine pairs \<Longrightarrow> p \<in> set pairs \<Longrightarrow> q \<in> set pairs \<Longrightarrow> pair_key p = pair_key q \<Longrightarrow>
   oc_key (fst p) = oc_key (fst q)"
  unfolding keys_determine_def by blast

lemma keys_determine_subset: "keys_determine qs \<Longrightarrow> set ps \<subseteq> set qs \<Longrightarrow> keys_determine ps"
  unfolding keys_determine_def by blast

lemma map_of_record_fold:
  assumes "keys_determine ps" and "p \<in> set ps"
  shows "map_of (foldl (\<lambda>m p. AList.update (pair_key p) (oc_key (fst p)) m) m ps) (pair_key p)
     = Some (oc_key (fst p))"
  using assms
proof (induction ps rule: rev_induct)
  case (snoc q ps)
  have ps: "keys_determine ps" by (rule keys_determine_subset [OF snoc.prems(1)]) auto
  show ?case
  proof (cases "pair_key p = pair_key q")
    case True
    then have "oc_key (fst p) = oc_key (fst q)"
      using keys_determineD [OF snoc.prems(1) snoc.prems(2), of q] by simp
    with True show ?thesis by (simp add: update_conv)
  next
    case False
    then have "p \<in> set ps" using snoc.prems(2) by auto
    from snoc.IH [OF ps this] False show ?thesis by (simp add: update_conv)
  qed
qed simp

lemma map_of_record_fold_other:
  "k \<notin> pair_key ` set ps \<Longrightarrow>
   map_of (foldl (\<lambda>m p. AList.update (pair_key p) (oc_key (fst p)) m) m ps) k = map_of m k"
  by (induction ps arbitrary: m) (auto simp: update_conv)

text \<open>The record as an update of a ledger (\<^verbatim>\<open>for k, v := range decision.Record\<close>).\<close>

definition record_all :: "ledger \<Rightarrow> ledger \<Rightarrow> ledger" where
  "record_all sent rec = foldl (\<lambda>m (k, v). AList.update k v m) sent rec"

lemma map_of_record_all:
  "distinct (map fst rec) \<Longrightarrow>
   map_of (record_all sent rec) k = (case map_of rec k of Some v \<Rightarrow> Some v | None \<Rightarrow> map_of sent k)"
  unfolding record_all_def
proof (induction rec arbitrary: sent)
  case (Cons kv rec)
  obtain a b where kv: "kv = (a, b)" by fastforce
  with Cons.prems have a: "map_of rec a = None" by (auto simp: map_of_eq_None_iff)
  from Cons kv show ?case by (auto simp: update_conv a split: option.split)
qed simp

lemma distinct_record_fold:
  "distinct (map fst m) \<Longrightarrow>
   distinct (map fst (foldl (\<lambda>m p. AList.update (pair_key p) (oc_key (fst p)) m) m ps))"
  by (induction ps arbitrary: m) (simp_all add: distinct_update)

lemma distinct_Plan_record: "distinct (map fst (dn_record (Plan inp)))"
  by (simp add: Plan_record distinct_record_fold)

subsection \<open>Planning again after the decision was carried out\<close>

text \<open>
  \<open>settle sent rec ds\<close> is the ledger after the records \<open>rec\<close> were stored and the deliveries
  \<open>ds\<close> succeeded.
\<close>

definition mark_sent :: "ledger \<Rightarrow> delivery list \<Rightarrow> ledger" where
  "mark_sent sent ds = foldl (\<lambda>m d. AList.update (dl_state_key d) (oc_key (dl_occurrence d)) m) sent ds"

definition settle :: "ledger \<Rightarrow> ledger \<Rightarrow> delivery list \<Rightarrow> ledger" where
  "settle sent rec ds = mark_sent (record_all sent rec) ds"

lemma mark_sent_pairs:
  "mark_sent sent (map pair_delivery ps) = foldl (\<lambda>m p. AList.update (pair_key p) (oc_key (fst p)) m) sent ps"
  unfolding mark_sent_def by (simp add: foldl_map pair_delivery_def)

lemma lookup_settle:
  assumes det: "keys_determine (plan_pairs inp)"
    and qs: "set qs \<subseteq> {p \<in> set (plan_pairs inp). \<not> handled (in_sent inp) p \<and> \<not> silent inp p}"
    and p: "p \<in> set (plan_pairs inp)"
  defines "sent' \<equiv> settle (in_sent inp) (dn_record (Plan inp)) (map pair_delivery qs)"
  shows "handled sent' p \<longleftrightarrow> handled (in_sent inp) p
     \<or> (\<exists>q\<in>set (plan_pairs inp). silent inp q \<and> \<not> handled (in_sent inp) q \<and> pair_key q = pair_key p)
     \<or> pair_key p \<in> pair_key ` set qs"
proof -
  define rs where "rs = filter (\<lambda>p. \<not> handled (in_sent inp) p \<and> silent inp p) (plan_pairs inp)"
  define m0 where "m0 = record_all (in_sent inp) (dn_record (Plan inp))"
  have det_qs: "keys_determine qs" and det_rs: "keys_determine rs"
    by (rule keys_determine_subset [OF det], use qs in \<open>force simp: rs_def\<close>)+
  have rec: "map_of m0 k = (case map_of (dn_record (Plan inp)) k of Some v \<Rightarrow> Some v
      | None \<Rightarrow> map_of (in_sent inp) k)" for k
    unfolding m0_def by (rule map_of_record_all [OF distinct_Plan_record])
  have rec_in: "map_of m0 (pair_key q) = Some (oc_key (fst q))" if "q \<in> set rs" for q
    using rec map_of_record_fold [OF det_rs that, of "[]"] by (simp add: Plan_record rs_def)
  have rec_out: "map_of m0 k = map_of (in_sent inp) k" if "k \<notin> pair_key ` set rs" for k
    using rec map_of_record_fold_other [OF that, of "[]"] by (simp add: Plan_record rs_def)
  have sent': "sent' = foldl (\<lambda>m p. AList.update (pair_key p) (oc_key (fst p)) m) m0 qs"
    by (simp add: sent'_def settle_def mark_sent_pairs m0_def)
  have same: "oc_key (fst q) = oc_key (fst p)" if "q \<in> set (plan_pairs inp)" "pair_key q = pair_key p" for q
    using keys_determineD [OF det that(1) p that(2)] .
  show ?thesis
  proof (cases "pair_key p \<in> pair_key ` set qs")
    case True
    then obtain q where q: "q \<in> set qs" "pair_key q = pair_key p" by auto
    then have "map_of sent' (pair_key p) = Some (oc_key (fst q))"
      using map_of_record_fold [OF det_qs q(1), of m0] by (simp add: sent')
    moreover have "oc_key (fst q) = oc_key (fst p)" using same [of q] q qs by blast
    ultimately show ?thesis using True by (simp add: handled_def lookup_def)
  next
    case False
    then have s: "map_of sent' (pair_key p) = map_of m0 (pair_key p)"
      using map_of_record_fold_other [OF False, of m0] by (simp add: sent')
    show ?thesis
    proof (cases "pair_key p \<in> pair_key ` set rs")
      case True
      then obtain q where q: "q \<in> set rs" "pair_key q = pair_key p" by auto
      then have "handled sent' p"
        using rec_in [OF q(1)] s same [of q] by (simp add: handled_def lookup_def rs_def)
      moreover have "\<exists>q\<in>set (plan_pairs inp). silent inp q \<and> \<not> handled (in_sent inp) q \<and> pair_key q = pair_key p"
        using q by (auto simp: rs_def)
      ultimately show ?thesis by blast
    next
      case none: False
      then have "handled sent' p \<longleftrightarrow> handled (in_sent inp) p"
        using s rec_out by (simp add: handled_def lookup_def)
      moreover have "\<not> (\<exists>q\<in>set (plan_pairs inp). silent inp q \<and> \<not> handled (in_sent inp) q \<and> pair_key q = pair_key p)"
      proof
        assume "\<exists>q\<in>set (plan_pairs inp). silent inp q \<and> \<not> handled (in_sent inp) q \<and> pair_key q = pair_key p"
        then obtain q where "q \<in> set rs" "pair_key q = pair_key p" by (auto simp: rs_def)
        then show False using none by (metis imageI)
      qed
      ultimately show ?thesis using False by blast
    qed
  qed
qed

lemma silent_in_sent [simp]: "silent (inp\<lparr>in_sent := s\<rparr>) p = silent inp p"
  by (simp add: silent_def)

lemma plan_pairs_in_sent [simp]: "plan_pairs (inp\<lparr>in_sent := s\<rparr>) = plan_pairs inp"
  by (simp add: plan_pairs_def)

text \<open>Silence depends on channel and kind only, which the state key determines.\<close>

definition silent_determined :: "plan_input \<Rightarrow> bool" where
  "silent_determined inp \<longleftrightarrow> (\<forall>p\<in>set (plan_pairs inp). \<forall>q\<in>set (plan_pairs inp).
     pair_key p = pair_key q \<longrightarrow> silent inp p = silent inp q)"

lemma Plan_after:
  assumes det: "keys_determine (plan_pairs inp)" "silent_determined inp"
    and qs: "set qs \<subseteq> {p \<in> set (plan_pairs inp). \<not> handled (in_sent inp) p \<and> \<not> silent inp p}"
  defines "sent' \<equiv> settle (in_sent inp) (dn_record (Plan inp)) (map pair_delivery qs)"
  shows "dn_record (Plan (inp\<lparr>in_sent := sent'\<rparr>)) = []"
    and "dn_send (Plan (inp\<lparr>in_sent := sent'\<rparr>))
       = filter (\<lambda>d. dl_state_key d \<notin> pair_key ` set qs) (dn_send (Plan inp))"
proof -
  note h = lookup_settle [OF det(1) qs, folded sent'_def]
  have rec: "\<not> (\<not> handled sent' p \<and> silent inp p)" if "p \<in> set (plan_pairs inp)" for p
    using h [OF that] that by auto
  then have "filter (\<lambda>p. \<not> handled sent' p \<and> silent inp p) (plan_pairs inp) = []"
    by (simp add: filter_empty_conv)
  then show "dn_record (Plan (inp\<lparr>in_sent := sent'\<rparr>)) = []"
    by (simp add: Plan_record)
  have "\<not> handled sent' p \<and> \<not> silent inp p \<longleftrightarrow>
      (\<not> handled (in_sent inp) p \<and> \<not> silent inp p) \<and> pair_key p \<notin> pair_key ` set qs"
    if "p \<in> set (plan_pairs inp)" for p
    using h [OF that] det(2) that unfolding silent_determined_def by blast
  then have "filter (\<lambda>p. \<not> handled sent' p \<and> \<not> silent inp p) (plan_pairs inp)
      = filter (\<lambda>p. (\<not> handled (in_sent inp) p \<and> \<not> silent inp p) \<and> pair_key p \<notin> pair_key ` set qs) (plan_pairs inp)"
    by (intro filter_cong) auto
  moreover have "filter (\<lambda>d. dl_state_key d \<notin> pair_key ` set qs) (map pair_delivery ps)
      = map pair_delivery (filter (\<lambda>p. pair_key p \<notin> pair_key ` set qs) ps)" for ps
    by (induction ps) (auto simp: pair_delivery_def)
  ultimately show "dn_send (Plan (inp\<lparr>in_sent := sent'\<rparr>))
       = filter (\<lambda>d. dl_state_key d \<notin> pair_key ` set qs) (dn_send (Plan inp))"
    by (simp add: Plan_send filter_filter conj_commute)
qed

subsection \<open>The pairs of a run\<close>

lemma keys_determine_run:
  assumes "distinct (map (\<lambda>s. m_name (sv_meta (sn_service s))) snaps)"
    and "\<forall>s\<in>set snaps. CHR ''/'' \<notin> set (m_name (sv_meta (sn_service s)))"
    and "in_occurrences inp = concat (map Events snaps)"
  shows "keys_determine (plan_pairs inp)"
  unfolding keys_determine_def
proof (intro ballI impI)
  fix p q
  assume p: "p \<in> set (plan_pairs inp)" and q: "q \<in> set (plan_pairs inp)" and k: "pair_key p = pair_key q"
  obtain o1 c1 o2 c2 where pq: "p = (o1, c1)" "q = (o2, c2)" by fastforce
  from p assms(3) pq obtain s1 where s1: "s1 \<in> set snaps" "o1 \<in> set (Events s1)"
    by (auto simp: plan_pairs_def)
  from q assms(3) pq obtain s2 where s2: "s2 \<in> set snaps" "o2 \<in> set (Events s2)"
    by (auto simp: plan_pairs_def)
  note n1 = Events_service [OF s1(2)] and n2 = Events_service [OF s2(2)]
  have "ne_service (oc_event o1) = ne_service (oc_event o2) \<and> oc_kind o1 = oc_kind o2 \<and> c1 = c2"
    by (rule StateKey_inj) (use n1 n2 s1 s2 assms(2) k pq in \<open>auto simp: pair_key_def\<close>)
  then have kind: "oc_kind o1 = oc_kind o2"
    and name: "m_name (sv_meta (sn_service s1)) = m_name (sv_meta (sn_service s2))"
    using n1 n2 by auto
  have "s1 = s2"
    using assms(1) s1(1) s2(1) name by (auto simp: distinct_map inj_on_def)
  then have "o1 = o2"
    using s1(2) s2(2) kind Events_distinct [of s1] by (auto simp: distinct_map inj_on_def)
  then show "oc_key (fst p) = oc_key (fst q)" by (simp add: pq)
qed

lemma silent_determined_run:
  assumes "\<forall>oc\<in>set (in_occurrences inp). CHR ''/'' \<notin> set (ne_service (oc_event oc))"
  shows "silent_determined inp"
  unfolding silent_determined_def
proof (intro ballI impI)
  fix p q
  assume p: "p \<in> set (plan_pairs inp)" and q: "q \<in> set (plan_pairs inp)" and k: "pair_key p = pair_key q"
  obtain o1 c1 o2 c2 where pq: "p = (o1, c1)" "q = (o2, c2)" by fastforce
  have "oc_kind o1 = oc_kind o2 \<and> c1 = c2"
    using StateKey_inj [of "ne_service (oc_event o1)" "ne_service (oc_event o2)" "oc_kind o1" c1 "oc_kind o2" c2]
      p q k assms pq by (auto simp: plan_pairs_def pair_key_def)
  then show "silent inp p = silent inp q" by (simp add: silent_def pq)
qed

end
