(* ===== verification/Secrets.thy ===== *)
theory Secrets
  imports Effects
begin

text \<open>
  \<^verbatim>\<open>internal/controller/credentials.go\<close>: which Secrets Koptan resources may use. A Secret is
  usable when it carries the credentials label or the operator was started with
  \<^verbatim>\<open>--allow-unlabeled-secrets\<close>. \<open>check_pod_spec\<close> applies that to every Secret a pod spec
  references, before anything with that spec is created; the lemmas show that the references
  it collects are all there are, that passing means each of them was read and found usable (or
  is missing and optional everywhere), and that a refusal names one that was not.
\<close>

definition label_credentials :: string where
  "label_credentials = ''koptan.felukka.org/credentials''"

record secret_policy =
  sp_allow_unlabeled :: bool

definition check_secret :: "secret_policy \<Rightarrow> secret \<Rightarrow> gerror option" where
  "check_secret p s =
     (if sp_allow_unlabeled p \<or> label (sec_meta s) label_credentials = ''true'' then None
      else Some (errorf (''secret '' @ fmt_q (m_name (sec_meta s)) @ '' is not labelled ''
        @ label_credentials @ ''=true; add the label to let Koptan use it'')))"

text \<open>
  A reader is the operator's cached client or the reader around the cache; both answer
  \<^verbatim>\<open>Get\<close>.
\<close>

type_synonym secret_reader = "nsname \<Rightarrow> (gerror + secret) io"

definition get_secret :: "secret_policy \<Rightarrow> secret_reader \<Rightarrow> string \<Rightarrow> string \<Rightarrow> (gerror + secret) io" where
  "get_secret p reader ns name = do {
     r \<leftarrow> reader (ns, name);
     ret (case r of
         Inl err \<Rightarrow> Inl (wrapf (''read secret '' @ fmt_q name @ '': '') err)
       | Inr s \<Rightarrow> (case check_secret p s of Some err \<Rightarrow> Inl err | None \<Rightarrow> Inr s))
   }"

section \<open>The Secrets a pod spec references\<close>

text \<open>A reference: the Secret's name and its optional flag. In the order of the code's \<open>add\<close> calls.\<close>

type_synonym pod_secret_ref = "string \<times> bool option"

definition env_refs :: "env_var list \<Rightarrow> pod_secret_ref list" where
  "env_refs evs = concat (map (\<lambda>e. case ev_from e of None \<Rightarrow> []
     | Some f \<Rightarrow> (case es_secret f of None \<Rightarrow> [] | Some r \<Rightarrow> [(sk_name r, sk_optional r)])) evs)"

definition env_from_refs :: "env_from list \<Rightarrow> pod_secret_ref list" where
  "env_from_refs efs = concat (map (\<lambda>e. case ef_secret e of None \<Rightarrow> []
     | Some r \<Rightarrow> [(ss_name r, ss_optional r)]) efs)"

definition container_refs :: "container \<Rightarrow> pod_secret_ref list" where
  "container_refs c = env_refs (k_env c) @ env_from_refs (k_env_from c)"

definition volume_refs :: "volume \<Rightarrow> pod_secret_ref list" where
  "volume_refs v =
     (case v_secret v of None \<Rightarrow> [] | Some s \<Rightarrow> [(sv_name s, sv_optional s)])
   @ (case v_projected v of None \<Rightarrow> []
      | Some srcs \<Rightarrow> concat (map (\<lambda>s. case vp_secret s of None \<Rightarrow> []
          | Some r \<Rightarrow> [(ss_name r, ss_optional r)]) srcs))"

definition pod_secret_refs :: "pod_spec \<Rightarrow> pod_secret_ref list" where
  "pod_secret_refs spec =
     concat (map container_refs (ps_init spec @ ps_containers spec))
   @ concat (map volume_refs (ps_volumes spec))
   @ map (\<lambda>n. (n, None)) (ps_pull_secrets spec)"

text \<open>
  \<open>add\<close> keeps the names in the order of their first reference and, per name, whether every
  reference so far is optional.
\<close>

type_synonym secret_acc = "string list \<times> (string \<rightharpoonup> bool)"

fun add_ref :: "secret_acc \<Rightarrow> pod_secret_ref \<Rightarrow> secret_acc" where
  "add_ref (names, optional) (name, opt) =
     (let (names, optional) = (if optional name = None then (names @ [name], optional(name \<mapsto> True))
                               else (names, optional))
      in (names, optional(name \<mapsto> (the (optional name) \<and> opt = Some True))))"

definition collect_refs :: "pod_spec \<Rightarrow> secret_acc" where
  "collect_refs spec = foldl add_ref ([], Map.empty) (pod_secret_refs spec)"

fun check_names :: "secret_policy \<Rightarrow> secret_reader \<Rightarrow> string \<Rightarrow> (string \<rightharpoonup> bool) \<Rightarrow> string list \<Rightarrow> gerror option io"
where
  "check_names p reader ns optional [] = ret None"
| "check_names p reader ns optional (name # names) = do {
     r \<leftarrow> reader (ns, name);
     (case r of
        Inl err \<Rightarrow>
          if is_not_found err \<and> optional name = Some True
          then check_names p reader ns optional names
          else ret (Some (wrapf (''read secret '' @ fmt_q name @ '': '') err))
      | Inr s \<Rightarrow>
          (case check_secret p s of
             Some err \<Rightarrow> ret (Some err)
           | None \<Rightarrow> check_names p reader ns optional names))
   }"

definition check_pod_spec :: "secret_policy \<Rightarrow> secret_reader \<Rightarrow> string \<Rightarrow> pod_spec \<Rightarrow> gerror option io" where
  "check_pod_spec p reader ns spec =
     (case collect_refs spec of (names, optional) \<Rightarrow> check_names p reader ns optional names)"

definition check_pod :: "secret_policy \<Rightarrow> secret_reader \<Rightarrow> pod \<Rightarrow> gerror option io" where
  "check_pod p reader x = check_pod_spec p reader (m_namespace (pod_meta x)) (pod_spec_of x)"

section \<open>What passing means\<close>

text \<open>A reference is optional when each reference to that name says so.\<close>

definition all_optional :: "pod_secret_ref list \<Rightarrow> string \<Rightarrow> bool" where
  "all_optional refs name \<longleftrightarrow> (\<forall>opt. (name, opt) \<in> set refs \<longrightarrow> opt = Some True)"

definition answer_usable :: "secret_policy \<Rightarrow> pod_secret_ref list \<Rightarrow> string \<Rightarrow> gerror + secret \<Rightarrow> bool" where
  "answer_usable p refs name a =
     (case a of Inl err \<Rightarrow> is_not_found err \<and> all_optional refs name
      | Inr s \<Rightarrow> sp_allow_unlabeled p \<or> label (sec_meta s) label_credentials = ''true'')"

lemma check_secret_None [simp]:
  "check_secret p s = None \<longleftrightarrow> sp_allow_unlabeled p \<or> label (sec_meta s) label_credentials = ''true''"
  by (simp add: check_secret_def)

lemma collect_refs_fold:
  assumes "set names = dom optional"
  shows "case foldl add_ref (names, optional) refs of (names', optional') \<Rightarrow>
     set names' = set names \<union> fst ` set refs \<and> dom optional' = set names'
   \<and> (\<forall>n. optional' n = Some True \<longleftrightarrow> n \<in> set names'
        \<and> (n \<in> dom optional \<longrightarrow> optional n = Some True) \<and> all_optional refs n)"
  using assms
proof (induction refs arbitrary: names optional)
  case Nil
  then show ?case by (auto simp: all_optional_def)
next
  case (Cons r refs)
  obtain name opt where r: "r = (name, opt)" by fastforce
  obtain names1 optional1 where step: "add_ref (names, optional) r = (names1, optional1)" by fastforce
  from step r Cons.prems have names1: "set names1 = insert name (set names)" "set names1 = dom optional1"
    by (auto simp: Let_def split: if_splits)
  have opt1: "optional1 n = (if n = name
       then Some ((name \<in> dom optional \<longrightarrow> optional name = Some True) \<and> opt = Some True) else optional n)" for n
    using step r Cons.prems by (auto simp: Let_def split: if_splits)
  have all: "all_optional (r # refs) n \<longleftrightarrow> (n = name \<longrightarrow> opt = Some True) \<and> all_optional refs n" for n
    by (auto simp: all_optional_def r)
  obtain names' optional' where rest: "foldl add_ref (names1, optional1) refs = (names', optional')"
    by fastforce
  from Cons.IH [OF names1(2)] rest have ih: "set names' = set names1 \<union> fst ` set refs"
    "dom optional' = set names'"
    "\<And>n. optional' n = Some True \<longleftrightarrow> n \<in> set names'
        \<and> (n \<in> dom optional1 \<longrightarrow> optional1 n = Some True) \<and> all_optional refs n" by auto
  have "optional' n = Some True \<longleftrightarrow> n \<in> set names'
        \<and> (n \<in> dom optional \<longrightarrow> optional n = Some True) \<and> all_optional (r # refs) n" for n
    using ih(3) [of n] opt1 [of n] all [of n] names1 by (auto simp: dom_def)
  moreover have "set names' = set names \<union> fst ` set (r # refs)"
    using ih(1) names1(1) r by auto
  moreover have "foldl add_ref (names, optional) (r # refs) = (names', optional')"
    using step rest by simp
  ultimately show ?case using ih(2) by (simp del: foldl_Cons)
qed

lemma collect_refs:
  assumes "collect_refs spec = (names, optional)"
  shows "set names = fst ` set (pod_secret_refs spec)"
    and "optional n = Some True \<longleftrightarrow> n \<in> set names \<and> all_optional (pod_secret_refs spec) n"
  using collect_refs_fold [of "[]" Map.empty "pod_secret_refs spec"] assms
  by (auto simp: collect_refs_def)

text \<open>
  The requests of a passing check: one read per name, each with a usable answer.
\<close>

definition reads :: "string \<Rightarrow> (string \<times> (gerror + secret)) list \<Rightarrow> trace" where
  "reads ns answers = map (\<lambda>(n, a). EvSecret (VGet (ns, n) a)) answers"

definition check_post ::
  "secret_policy \<Rightarrow> pod_secret_ref list \<Rightarrow> string \<Rightarrow> string list \<Rightarrow> trace \<Rightarrow> gerror option \<Rightarrow> trace \<Rightarrow> bool"
where
  "check_post p refs ns names t r t' \<longleftrightarrow> (\<exists>answers. t' = t @ reads ns answers
     \<and> (\<exists>rest. names = map fst answers @ rest \<and> (r = None \<longrightarrow> rest = []))
     \<and> (r = None \<longleftrightarrow> (\<forall>(n, a)\<in>set answers. answer_usable p refs n a)))"

lemma check_post_step:
  assumes "answer_usable p refs name a"
    and "check_post p refs ns names (t @ [EvSecret (VGet (ns, name) a)]) r t'"
  shows "check_post p refs ns (name # names) t r t'"
proof -
  from assms(2) obtain answers rest where ans: "t' = (t @ [EvSecret (VGet (ns, name) a)]) @ reads ns answers"
    "names = map fst answers @ rest" "r = None \<longrightarrow> rest = []"
    "r = None \<longleftrightarrow> (\<forall>(n, a)\<in>set answers. answer_usable p refs n a)"
    unfolding check_post_def by blast
  show ?thesis
    unfolding check_post_def
    by (rule exI [of _ "(name, a) # answers"]) (use ans assms(1) in \<open>auto simp: reads_def\<close>)
qed

lemma check_post_stop:
  assumes "\<not> answer_usable p refs name a"
  shows "check_post p refs ns (name # names) t (Some err) (t @ [EvSecret (VGet (ns, name) a)])"
  unfolding check_post_def
  by (rule exI [of _ "[(name, a)]"]) (use assms in \<open>auto simp: reads_def\<close>)

lemma wp_check_names:
  assumes "\<And>n. n \<in> set names \<Longrightarrow> optional n = Some True \<longleftrightarrow> all_optional refs n"
  shows "wp (check_names p (k_get E secrets) ns optional names) (check_post p refs ns names t) t"
  using assms
proof (induction names arbitrary: t)
  case Nil
  then show ?case by (auto simp: wp_simps reads_def check_post_def)
next
  case (Cons name names)
  define a where "a = ka_get (env_secret E) t (ns, name)"
  define t1 where "t1 = t @ [EvSecret (VGet (ns, name) a)]"
  have opt: "optional name = Some True \<longleftrightarrow> all_optional refs name"
    using Cons.prems by simp
  have ih: "wp (check_names p (k_get E secrets) ns optional names)
      (check_post p refs ns names t1) t1"
    using Cons.prems by (intro Cons.IH) simp
  have rest: "wp (check_names p (k_get E secrets) ns optional names)
      (check_post p refs ns (name # names) t) t1"
    if "answer_usable p refs name a"
    using wp_mono [OF ih] check_post_step [OF that] unfolding t1_def by blast
  show ?case
  proof (cases a)
    case (Inl err)
    then have "answer_usable p refs name a \<longleftrightarrow> is_not_found err \<and> optional name = Some True"
      by (simp add: answer_usable_def opt)
    then show ?thesis
      using rest [unfolded t1_def] check_post_stop [of p refs name a ns names t] Inl
      by (auto simp: wp_simps a_def [symmetric])
  next
    case (Inr s)
    then have "answer_usable p refs name a \<longleftrightarrow> check_secret p s = None"
      by (simp add: answer_usable_def)
    then show ?thesis
      using rest [unfolded t1_def] check_post_stop [of p refs name a ns names t] Inr
      by (auto simp: wp_simps a_def [symmetric] simp del: check_secret_None
          split: option.split)
  qed
qed

text \<open>
  \<open>secrets_checked p ns spec t\<close>: every Secret the spec references was read in the history
  \<open>t\<close> with a usable answer.
\<close>

definition secrets_checked :: "secret_policy \<Rightarrow> string \<Rightarrow> pod_spec \<Rightarrow> trace \<Rightarrow> bool" where
  "secrets_checked p ns spec t \<longleftrightarrow>
     (\<forall>n \<in> fst ` set (pod_secret_refs spec). \<exists>a. EvSecret (VGet (ns, n) a) \<in> set t
        \<and> answer_usable p (pod_secret_refs spec) n a)"

lemma secrets_checked_append: "secrets_checked p ns spec t \<Longrightarrow> secrets_checked p ns spec (t @ es)"
  unfolding secrets_checked_def by auto

lemma wp_check_pod_spec:
  "wp (check_pod_spec p (k_get E secrets) ns spec)
     (\<lambda>r t'. \<exists>answers. t' = t @ reads ns answers
        \<and> (r = None \<longrightarrow> fst ` set answers = fst ` set (pod_secret_refs spec))
        \<and> fst ` set answers \<subseteq> fst ` set (pod_secret_refs spec)
        \<and> (r = None \<longleftrightarrow> (\<forall>(n, a)\<in>set answers. answer_usable p (pod_secret_refs spec) n a))) t"
proof -
  obtain names optional where c: "collect_refs spec = (names, optional)" by fastforce
  note refs = collect_refs [OF c]
  have "wp (check_names p (k_get E secrets) ns optional names)
      (check_post p (pod_secret_refs spec) ns names t) t"
    by (rule wp_check_names) (use refs in simp)
  then show ?thesis
    unfolding check_pod_spec_def c prod.case
  proof (rule wp_mono)
    fix r t'
    assume "check_post p (pod_secret_refs spec) ns names t r t'"
    then obtain answers rest where ans: "t' = t @ reads ns answers" "names = map fst answers @ rest"
      "r = None \<longrightarrow> rest = []"
      "r = None \<longleftrightarrow> (\<forall>(n, a)\<in>set answers. answer_usable p (pod_secret_refs spec) n a)"
      unfolding check_post_def by blast
    from ans(2) have "set names = fst ` set answers \<union> set rest" by simp
    with refs(1) ans show "\<exists>answers. t' = t @ reads ns answers
        \<and> (r = None \<longrightarrow> fst ` set answers = fst ` set (pod_secret_refs spec))
        \<and> fst ` set answers \<subseteq> fst ` set (pod_secret_refs spec)
        \<and> (r = None \<longleftrightarrow> (\<forall>(n, a)\<in>set answers. answer_usable p (pod_secret_refs spec) n a))"
      by (intro exI [of _ answers]) auto
  qed
qed

lemma check_pod_spec_passed:
  assumes "run_state (check_pod_spec p (k_get E secrets) ns spec) t = (None, t')"
  shows "secrets_checked p ns spec t'"
proof -
  from wpD [OF wp_check_pod_spec assms] obtain answers where
    t': "t' = t @ reads ns answers" and all: "fst ` set answers = fst ` set (pod_secret_refs spec)"
    and okall: "\<forall>(n, a)\<in>set answers. answer_usable p (pod_secret_refs spec) n a" by blast
  have ok: "answer_usable p (pod_secret_refs spec) n a" if "(n, a) \<in> set answers" for n a
    using okall that by auto
  show ?thesis
    unfolding secrets_checked_def
  proof
    fix n assume "n \<in> fst ` set (pod_secret_refs spec)"
    then obtain a where a: "(n, a) \<in> set answers" using all by force
    then have "EvSecret (VGet (ns, n) a) \<in> set t'" by (force simp: t' reads_def)
    with ok [OF a] show "\<exists>a. EvSecret (VGet (ns, n) a) \<in> set t'
        \<and> answer_usable p (pod_secret_refs spec) n a" by blast
  qed
qed

text \<open>The same of the requests of the check itself, whatever was read before it.\<close>

lemma wp_check_pod_spec_local:
  assumes "\<And>r es. list_all (\<lambda>e. \<exists>n a. e = EvSecret (VGet (ns, n) a)) es \<Longrightarrow>
     (r = None \<Longrightarrow> secrets_checked p ns spec es) \<Longrightarrow> Q r (t @ es)"
  shows "wp (check_pod_spec p (k_get E secrets) ns spec) Q t"
proof (rule wp_mono [OF wp_check_pod_spec])
  fix r :: "gerror option" and t'
  assume "\<exists>answers. t' = t @ reads ns answers
        \<and> (r = None \<longrightarrow> fst ` set answers = fst ` set (pod_secret_refs spec))
        \<and> fst ` set answers \<subseteq> fst ` set (pod_secret_refs spec)
        \<and> (r = None \<longleftrightarrow> (\<forall>(n, a)\<in>set answers. answer_usable p (pod_secret_refs spec) n a))"
  then obtain answers where a: "t' = t @ reads ns answers"
    "r = None \<Longrightarrow> fst ` set answers = fst ` set (pod_secret_refs spec)"
    "r = None \<Longrightarrow> \<forall>(n, a)\<in>set answers. answer_usable p (pod_secret_refs spec) n a" by blast
  have "secrets_checked p ns spec (reads ns answers)" if "r = None"
    unfolding secrets_checked_def
  proof
    fix n assume "n \<in> fst ` set (pod_secret_refs spec)"
    with a(2) [OF that] obtain b where b: "(n, b) \<in> set answers" by force
    then have "EvSecret (VGet (ns, n) b) \<in> set (reads ns answers)" by (force simp: reads_def)
    with a(3) [OF that] b show "\<exists>a. EvSecret (VGet (ns, n) a) \<in> set (reads ns answers)
        \<and> answer_usable p (pod_secret_refs spec) n a" by blast
  qed
  moreover have "list_all (\<lambda>e. \<exists>n a. e = EvSecret (VGet (ns, n) a)) (reads ns answers)"
    by (auto simp: reads_def list_all_iff)
  ultimately show "Q r t'" using assms a(1) by blast
qed

text \<open>The only requests of a check are reads of Secrets in its namespace.\<close>

fun is_secret_read :: "event \<Rightarrow> bool" where
  "is_secret_read (EvSecret (VGet key r)) = True"
| "is_secret_read _ = False"

lemma emits_get_secret: "emits (get_secret p (k_get E secrets) ns name) is_secret_read"
  by (auto simp: get_secret_def intro!: emits_intros)

lemma emits_check_names: "emits (check_names p (k_get E secrets) ns optional names) is_secret_read"
  by (induction names) (auto intro!: emits_intros)

lemma emits_check_pod_spec: "emits (check_pod_spec p (k_get E secrets) ns spec) is_secret_read"
  by (auto simp: check_pod_spec_def intro!: emits_check_names split: prod.split)

end
