(* ===== verification/Ctrl.thy ===== *)
theory Ctrl
  imports Secrets
begin

text \<open>
  What the reconcilers of \<^verbatim>\<open>internal/controller\<close> share: label keys and intervals
  (\<^verbatim>\<open>service_controller.go\<close>, \<^verbatim>\<open>ci_build.go\<close>), the restart after a write conflict, and the
  first lines of the Service, CI and CD reconcilers, which handle deletion and the finalizer.
  The Go code repeats those lines per kind; here they are \<open>finalizer_step\<close>, a function of the
  kind. The locale \<open>finalized_kind\<close> says what it relies on, a lens on the object's
  metadata, and the lemmas inside say that the rest of a reconcile runs on a live object that
  carries the finalizer and on nothing else. It is interpreted for the three kinds.
\<close>

section \<open>Names and intervals\<close>

definition labelService :: string where "labelService = ''koptan.felukka.org/service''"
definition labelLanguage :: string where "labelLanguage = ''koptan.felukka.org/language''"
definition labelCI :: string where "labelCI = ''koptan.felukka.org/ci''"
definition labelRevision :: string where "labelRevision = ''koptan.felukka.org/revision''"

definition serviceFinalizer :: string where "serviceFinalizer = ''felukka.org/service-cleanup''"
definition ciFinalizer :: string where "ciFinalizer = ''felukka.org/ci-cleanup''"
definition cdFinalizer :: string where "cdFinalizer = ''felukka.org/cd-cleanup''"

definition pushPollInterval :: time where "pushPollInterval = seconds 60"
definition failedRetryInterval :: time where "failedRetryInterval = seconds 60"
definition buildPollInterval :: time where "buildPollInterval = seconds 15"

definition defaultPort :: int where "defaultPort = 8080"

definition short_rev :: "string \<Rightarrow> string" where
  "short_rev sha = (if length sha > 12 then take 12 sha else sha)"

definition resource_requirements :: "string \<Rightarrow> string \<Rightarrow> string \<Rightarrow> string \<Rightarrow> resource_reqs" where
  "resource_requirements cpu_req mem_req cpu_lim mem_lim =
     \<lparr>rr_requests = [(''cpu'', cpu_req), (''memory'', mem_req)],
      rr_limits = [(''cpu'', cpu_lim), (''memory'', mem_lim)]\<rparr>"

section \<open>Starting over after a write conflict\<close>

definition restart_on_conflict :: "outcome io \<Rightarrow> outcome io" where
  \<comment> \<open>\<^verbatim>\<open>Reconcile\<close> of the Service and the CI around \<^verbatim>\<open>reconcile\<close>\<close>
  "restart_on_conflict m = do {
     out \<leftarrow> m;
     ret (case out of (res, err) \<Rightarrow>
       (case err of Some e \<Rightarrow> if is_conflict e then (requeue, None) else out | None \<Rightarrow> out))
   }"

section \<open>Deletion and the finalizer\<close>

definition finalizer_step ::
  "env \<Rightarrow> klib \<Rightarrow> 'o kind \<Rightarrow> ('o \<Rightarrow> obj_meta) \<Rightarrow> ((obj_meta \<Rightarrow> obj_meta) \<Rightarrow> 'o \<Rightarrow> 'o) \<Rightarrow> string
     \<Rightarrow> nsname \<Rightarrow> ('o \<Rightarrow> outcome io) \<Rightarrow> outcome io" where
  "finalizer_step E L K meta upd fin key body = do {
     r \<leftarrow> k_get E K key;
     (case r of
        Inl err \<Rightarrow> ret (no_requeue, ignore_not_found err)
      | Inr x \<Rightarrow>
          if m_deletion (meta x) \<noteq> None then
            (if lib_contains_finalizer L fin (meta x) then do {
               u \<leftarrow> k_update E K (upd (lib_remove_finalizer L fin) x);
               ret (no_requeue, err_of u)
             } else ret (no_requeue, None))
          else if \<not> lib_contains_finalizer L fin (meta x) then do {
            u \<leftarrow> k_update E K (upd (lib_add_finalizer L fin) x);
            (case u of Inl err \<Rightarrow> ret (no_requeue, Some err) | Inr _ \<Rightarrow> ret (requeue, None))
          } else body x)
   }"

locale finalized_kind =
  fixes K :: "'o kind"
    and meta :: "'o \<Rightarrow> obj_meta"
    and upd :: "(obj_meta \<Rightarrow> obj_meta) \<Rightarrow> 'o \<Rightarrow> 'o"
  assumes meta_upd: "meta (upd f x) = f (meta x)"
begin

lemma step_run:
  assumes "run_state (finalizer_step E L K meta upd fin key body) t = (out, t')"
  obtains
    (failed) err where "out = (no_requeue, ignore_not_found err)" "t' = t @ [kd_event K (VGet key (Inl err))]"
  | (finalizer) x x' u where "t' = t @ [kd_event K (VGet key (Inr x)), kd_event K (VUpdate x' u)]"
      "m_deletion (meta x) \<noteq> None \<and> lib_contains_finalizer L fin (meta x)
         \<and> meta x' = lib_remove_finalizer L fin (meta x)
       \<or> m_deletion (meta x) = None \<and> \<not> lib_contains_finalizer L fin (meta x)
         \<and> meta x' = lib_add_finalizer L fin (meta x)"
      "x' = upd (if m_deletion (meta x) = None then lib_add_finalizer L fin else lib_remove_finalizer L fin) x"
  | (gone) x where "out = (no_requeue, None)" "t' = t @ [kd_event K (VGet key (Inr x))]"
      "m_deletion (meta x) \<noteq> None" "\<not> lib_contains_finalizer L fin (meta x)"
  | (body) x where "m_deletion (meta x) = None" "lib_contains_finalizer L fin (meta x)"
      "run_state (body x) (t @ [kd_event K (VGet key (Inr x))]) = (out, t')"
proof -
  define r where "r = ka_get (kd_api K E) t key"
  show thesis
  proof (cases r)
    case (Inl err)
    with assms failed show thesis
      by (auto simp: finalizer_step_def k_defs r_def [symmetric])
  next
    case (Inr x)
    define t1 where "t1 = t @ [kd_event K (VGet key (Inr x))]"
    have run: "run_state (finalizer_step E L K meta upd fin key body) t = run_state
       (if m_deletion (meta x) \<noteq> None then
            (if lib_contains_finalizer L fin (meta x) then do {
               u \<leftarrow> k_update E K (upd (lib_remove_finalizer L fin) x);
               ret (no_requeue, err_of u)
             } else ret (no_requeue, None))
          else if \<not> lib_contains_finalizer L fin (meta x) then do {
            u \<leftarrow> k_update E K (upd (lib_add_finalizer L fin) x);
            (case u of Inl err \<Rightarrow> ret (no_requeue, Some err) | Inr _ \<Rightarrow> ret (requeue, None))
          } else body x) t1"
      using Inr unfolding finalizer_step_def k_get_def by (simp add: r_def t1_def)
    consider (rm) "m_deletion (meta x) \<noteq> None" "lib_contains_finalizer L fin (meta x)"
      | (no) "m_deletion (meta x) \<noteq> None" "\<not> lib_contains_finalizer L fin (meta x)"
      | (ad) "m_deletion (meta x) = None" "\<not> lib_contains_finalizer L fin (meta x)"
      | (go) "m_deletion (meta x) = None" "lib_contains_finalizer L fin (meta x)" by blast
    then show thesis
    proof cases
      case rm
      define x' where "x' = upd (lib_remove_finalizer L fin) x"
      have "t' = t1 @ [kd_event K (VUpdate x' (ka_update (kd_api K E) t1 x'))]"
        using assms run rm by (simp add: k_update_def x'_def)
      with rm meta_upd show thesis
        by (intro finalizer [of x x' "ka_update (kd_api K E) t1 x'"]) (auto simp: t1_def x'_def)
    next
      case no
      with assms run gone [of x] show thesis by (simp add: t1_def)
    next
      case ad
      define x' where "x' = upd (lib_add_finalizer L fin) x"
      have "t' = t1 @ [kd_event K (VUpdate x' (ka_update (kd_api K E) t1 x'))]"
        using assms run ad by (simp add: k_update_def x'_def split: sum.splits)
      with ad meta_upd show thesis
        by (intro finalizer [of x x' "ka_update (kd_api K E) t1 x'"]) (auto simp: t1_def x'_def)
    next
      case go
      with assms run body [of x] show thesis by (simp add: t1_def)
    qed
  qed
qed

lemma emits_step:
  assumes "\<And>x. emits (body x) P" and "\<And>r. P (kd_event K (VGet key r))"
    and "\<And>x u. P (kd_event K (VUpdate x u))"
  shows "emits (finalizer_step E L K meta upd fin key body) P"
  unfolding finalizer_step_def by (intro emits_intros assms)

end

interpretation service_kind: finalized_kind services sv_meta "\<lambda>f x. x\<lparr>sv_meta := f (sv_meta x)\<rparr>"
  by unfold_locales simp

interpretation ci_kind: finalized_kind cis ci_meta "\<lambda>f x. x\<lparr>ci_meta := f (ci_meta x)\<rparr>"
  by unfold_locales simp

interpretation cd_kind: finalized_kind cds cd_meta "\<lambda>f x. x\<lparr>cd_meta := f (cd_meta x)\<rparr>"
  by unfold_locales simp

lemma run_restart:
  "run_state (restart_on_conflict m) t = (case run_state m t of (out, t') \<Rightarrow>
     (case snd out of Some e \<Rightarrow> if is_conflict e then (requeue, None) else out | None \<Rightarrow> out, t'))"
  unfolding restart_on_conflict_def
  by (simp split: prod.split option.split)

lemma emits_restart: "emits m P \<Longrightarrow> emits (restart_on_conflict m) P"
  unfolding restart_on_conflict_def by (intro emits_intros)

end
