(* ===== verification/AlertCtrl.thy ===== *)
theory AlertCtrl
  imports Alerting Ctrl
begin

text \<open>
  \<^verbatim>\<open>internal/controller/alert_controller.go\<close> and \<^verbatim>\<open>alert_targets.go\<close>: the Alert reconciler.
  It reads the Services an Alert selects with their CI and CD, plans what each channel still
  needs (theory \<open>Alerting\<close>), sends it (theory \<open>Notify\<close>) and records the outcome in the Alert's
  status. The lemmas say what a run may do: it writes nothing but that status, sends only to
  URLs read from Secrets of the Alert's namespace, records exactly the deliveries that
  succeeded, and keeps at most twenty of them.
\<close>

definition alertRetryInterval :: time where "alertRetryInterval = seconds 30"
definition maxDeliveries :: nat where "maxDeliveries = 20"

section \<open>alert\_targets.go\<close>

definition put_service :: "(string \<times> service) list \<Rightarrow> service \<Rightarrow> (string \<times> service) list" where
  "put_service m svc = AList.update (m_name (sv_meta svc)) svc m"

definition sorted_services :: "(string \<times> service) list \<Rightarrow> service list" where
  "sorted_services m = sort_key (\<lambda>svc. m_name (sv_meta svc)) (map snd m)"

definition alert_targets :: "env \<Rightarrow> klib \<Rightarrow> alert \<Rightarrow> (gerror + service list) io" where
  "alert_targets E L a = do {
     named \<leftarrow> (case as_service_ref (al_spec_of a) of
         None \<Rightarrow> ret (Inr [])
       | Some ref \<Rightarrow> do {
           r \<leftarrow> k_get E services (m_namespace (al_meta a), ref_name ref);
           ret (case r of Inr svc \<Rightarrow> Inr (put_service [] svc)
              | Inl err \<Rightarrow> if is_not_found err then Inr [] else Inl err)
         });
     (case named of
        Inl err \<Rightarrow> ret (Inl err)
      | Inr m \<Rightarrow>
          (case as_selector (al_spec_of a) of
             None \<Rightarrow> ret (Inr (sorted_services m))
           | Some s \<Rightarrow>
               (case lib_selector L s of
                  Inl err \<Rightarrow> ret (Inl (wrapf ''spec.selector: '' err))
                | Inr sel \<Rightarrow>
                    if sel_empty sel then ret (Inr (sorted_services m))
                    else do {
                      r \<leftarrow> k_list E services (m_namespace (al_meta a)) (ListSelector sel);
                      ret (case r of Inl err \<Rightarrow> Inl err
                         | Inr svcs \<Rightarrow> Inr (sorted_services (foldl put_service m svcs)))
                    })))
   }"

definition snapshot_of :: "env \<Rightarrow> service \<Rightarrow> (gerror + snapshot) io" where
  "snapshot_of E svc = (let ns = m_namespace (sv_meta svc); name = m_name (sv_meta svc) in do {
     xs \<leftarrow> k_list E cis ns (ListLabel labelService name);
     (case xs of
        Inl err \<Rightarrow> ret (Inl err)
      | Inr cs \<Rightarrow> do {
          ys \<leftarrow> k_list E cds ns (ListLabel labelService name);
          ret (case ys of
              Inl err \<Rightarrow> Inl err
            | Inr ds \<Rightarrow> Inr \<lparr>sn_service = svc,
                sn_ci = find (\<lambda>c. ref_name (cis_service (ci_spec_of c)) = name) cs,
                sn_cd = (case ds of [] \<Rightarrow> None | d # _ \<Rightarrow> Some d)\<rparr>)
        })
   })"

definition secretValue :: "env \<Rightarrow> string \<Rightarrow> secret_key_ref \<Rightarrow> (gerror + string) io" where
  "secretValue E ns ref = do {
     r \<leftarrow> k_get E secrets (ns, sk_name ref);
     ret (case r of
         Inl err \<Rightarrow> Inl (wrapf (''read secret '' @ fmt_q (sk_name ref) @ '': '') err)
       | Inr s \<Rightarrow> (case sec_data s (sk_key ref) of
           Some v \<Rightarrow> if v = '''' then Inl (errorf (''secret '' @ fmt_q (sk_name ref) @ '' has no key '' @ fmt_q (sk_key ref)))
                     else Inr v
         | None \<Rightarrow> Inl (errorf (''secret '' @ fmt_q (sk_name ref) @ '' has no key '' @ fmt_q (sk_key ref)))))
   }"

fun channel_type_string :: "channel_type \<Rightarrow> string" where
  "channel_type_string ChannelSlack = ''slack''"
| "channel_type_string ChannelTeams = ''teams''"
| "channel_type_string ChannelWebhook = ''webhook''"
| "channel_type_string (ChannelOther s) = s"

definition channel_notifier :: "env \<Rightarrow> klib \<Rightarrow> string \<Rightarrow> alert_channel \<Rightarrow> (gerror + notifier) io" where
  \<comment> \<open>one iteration of \<^verbatim>\<open>notifiers\<close>\<close>
  "channel_notifier E L ns ch = do {
     url \<leftarrow> secretValue E ns (ach_url_secret_ref ch);
     (case url of
        Inl err \<Rightarrow> ret (Inl (wrapf (''channel '' @ ach_name ch @ '': '') err))
      | Inr u \<Rightarrow> do {
          key \<leftarrow> (case ach_signing_secret_ref ch of
              None \<Rightarrow> ret (Inr '''')
            | Some ref \<Rightarrow> secretValue E ns ref);
          ret (case key of
              Inl err \<Rightarrow> Inl (wrapf (''channel '' @ ach_name ch @ '' signing key: '') err)
            | Inr k \<Rightarrow>
                (case new_notifier L \<lparr>nc_type = channel_type_string (ach_type ch), nc_url = u, nc_signing_key = k\<rparr> of
                   Inl err \<Rightarrow> Inl (wrapf (''channel '' @ ach_name ch @ '': '') err)
                 | Inr n \<Rightarrow> Inr n))
        })
   }"

fun notifiers :: "env \<Rightarrow> klib \<Rightarrow> string \<Rightarrow> (string \<times> notifier) list \<Rightarrow> alert_channel list
    \<Rightarrow> (gerror + (string \<times> notifier) list) io" where
  "notifiers E L ns out [] = ret (Inr out)"
| "notifiers E L ns out (ch # chs) = do {
     n \<leftarrow> channel_notifier E L ns ch;
     (case n of
        Inl err \<Rightarrow> ret (Inl err)
      | Inr n \<Rightarrow> notifiers E L ns (AList.update (ach_name ch) n out) chs)
   }"

section \<open>alert\_controller.go\<close>

definition setAlertCondition :: "klib \<Rightarrow> time \<Rightarrow> alert \<Rightarrow> string \<Rightarrow> cond_status \<Rightarrow> string \<Rightarrow> string \<Rightarrow> alert" where
  "setAlertCondition L t a ty st reason msg =
     a\<lparr>al_status_of := (al_status_of a)\<lparr>ast_conditions :=
        lib_set_condition L t ((new_condition ty st reason msg)\<lparr>c_observed := m_generation (al_meta a)\<rparr>)
          (ast_conditions (al_status_of a))\<rparr>\<rparr>"

definition channelNames :: "alert \<Rightarrow> string list" where
  "channelNames a = map ach_name (as_channels (al_spec_of a))"

definition baselineChannels :: "alert \<Rightarrow> string list" where
  "baselineChannels a =
     (let known = ChannelsInState (ast_last_notified (al_status_of a));
          spec_changed = ast_observed_generation (al_status_of a) \<noteq> m_generation (al_meta a)
      in map ach_name (filter (\<lambda>ch. \<not> ast_initialized (al_status_of a) \<or> as_suspend (al_spec_of a)
           \<or> (spec_changed \<and> ach_name ch \<notin> set known)) (as_channels (al_spec_of a))))"

definition reportAlert :: "klib \<Rightarrow> time \<Rightarrow> alert \<Rightarrow> nat \<Rightarrow> nat \<Rightarrow> alert" where
  "reportAlert L t a n_services failed =
     (let a = (if as_suspend (al_spec_of a)
               then setAlertCondition L t a ''Ready'' ConditionFalse ''Suspended'' ''Notifications are suspended''
               else if n_services = 0
               then setAlertCondition L t a ''Ready'' ConditionFalse ''NoService'' ''No Service matches the Alert''
               else setAlertCondition L t a ''Ready'' ConditionTrue ''Watching'' ''Watching the selected Services'')
      in if failed > 0
         then setAlertCondition L t a ''Delivered'' ConditionFalse ''DeliveryFailed''
                ''Some notifications failed and will be retried; see status.deliveries''
         else setAlertCondition L t a ''Delivered'' ConditionTrue ''Delivered'' ''Every notification was delivered'')"

text \<open>
  The loop of \<open>deliver\<close> carries the ledger, the recorded deliveries (newest first) and the
  number of failures. A channel without a notifier would be a nil interface.
\<close>

type_synonym deliver_state = "ledger \<times> alert_delivery list \<times> nat"

definition delivery_record :: "time \<Rightarrow> delivery \<Rightarrow> gerror option \<Rightarrow> alert_delivery" where
  "delivery_record t d err = \<lparr>ad_time = t, ad_service = ne_service (oc_event (dl_occurrence d)),
     ad_event = oc_kind (dl_occurrence d), ad_channel = dl_channel d,
     ad_revision = ne_revision (oc_event (dl_occurrence d)), ad_success = (err = None),
     ad_error = (case err of None \<Rightarrow> '''' | Some e \<Rightarrow> err_msg e)\<rparr>"

fun deliver_loop :: "env \<Rightarrow> klib \<Rightarrow> (string \<times> notifier) list \<Rightarrow> delivery list \<Rightarrow> deliver_state
    \<Rightarrow> (gerror + deliver_state) io" where
  "deliver_loop E L ns [] acc = ret (Inr acc)"
| "deliver_loop E L ns (d # ds) acc = (case acc of (sent, dels, failed) \<Rightarrow> do {
     t \<leftarrow> now E;
     (case map_of ns (dl_channel d) of
        None \<Rightarrow> ret (Inl nil_dereference)
      | Some n \<Rightarrow> do {
          err \<leftarrow> Send E L n ((oc_event (dl_occurrence d))\<lparr>ne_time := t\<rparr>);
          deliver_loop E L ns ds
            (if err = None then AList.update (dl_state_key d) (oc_key (dl_occurrence d)) sent else sent,
             delivery_record t d err # dels,
             if err = None then failed else Suc failed)
        })
   })"

definition deliver :: "env \<Rightarrow> klib \<Rightarrow> alert \<Rightarrow> (string \<times> notifier) list \<Rightarrow> delivery list \<Rightarrow> ledger
    \<Rightarrow> (gerror + deliver_state) io" where
  "deliver E L a ns ds sent = do {
     r \<leftarrow> deliver_loop E L ns ds (sent, ast_deliveries (al_status_of a), 0);
     ret (case r of Inl err \<Rightarrow> Inl err
        | Inr (sent, dels, failed) \<Rightarrow>
            Inr (sent, if length dels > maxDeliveries then take maxDeliveries dels else dels, failed))
   }"

fun collect_events :: "env \<Rightarrow> service list \<Rightarrow> occurrence list \<Rightarrow> (gerror + occurrence list) io" where
  "collect_events E [] occs = ret (Inr occs)"
| "collect_events E (svc # svcs) occs = do {
     s \<leftarrow> snapshot_of E svc;
     (case s of Inl err \<Rightarrow> ret (Inl err) | Inr snap \<Rightarrow> collect_events E svcs (occs @ Events snap))
   }"

definition plan_for :: "alert \<Rightarrow> service list \<Rightarrow> occurrence list \<Rightarrow> plan_input" where
  "plan_for a svcs occs = \<lparr>in_occurrences = occs, in_channels = channelNames a,
     in_wanted = as_events (al_spec_of a),
     in_sent = Prune (ast_last_notified (al_status_of a)) (map (\<lambda>svc. m_name (sv_meta svc)) svcs),
     in_baseline = baselineChannels a\<rparr>"

definition finish_alert :: "klib \<Rightarrow> time \<Rightarrow> alert \<Rightarrow> nat \<Rightarrow> deliver_state \<Rightarrow> alert" where
  "finish_alert L t a n_services st = (case st of (sent, dels, failed) \<Rightarrow>
     reportAlert L t (a\<lparr>al_status_of := (al_status_of a)\<lparr>ast_deliveries := dels, ast_last_notified := sent,
        ast_initialized := True, ast_observed_generation := m_generation (al_meta a)\<rparr>\<rparr>) n_services failed)"

definition notify_targets :: "env \<Rightarrow> klib \<Rightarrow> alert \<Rightarrow> service list \<Rightarrow> (string \<times> notifier) list \<Rightarrow> outcome io" where
  \<comment> \<open>the second half of \<^verbatim>\<open>Reconcile\<close>, once the notifiers are built\<close>
  "notify_targets E L a svcs ns = do {
     occs \<leftarrow> collect_events E svcs [];
     (case occs of
        Inl err \<Rightarrow> ret (no_requeue, Some err)
      | Inr occs \<Rightarrow>
          let inp = plan_for a svcs occs; decision = Plan inp in do {
            r \<leftarrow> deliver E L a ns (dn_send decision) (record_all (in_sent inp) (dn_record decision));
            (case r of
               Inl err \<Rightarrow> ret (no_requeue, Some err)
             | Inr (sent, dels, failed) \<Rightarrow> do {
                 t \<leftarrow> now E;
                 p \<leftarrow> k_patch_status E alerts False a (finish_alert L t a (length svcs) (sent, dels, failed));
                 ret (case p of
                     Inl err \<Rightarrow> (no_requeue, Some err)
                   | Inr _ \<Rightarrow> if failed > 0 then (requeue_after alertRetryInterval, None) else (no_requeue, None))
               })
          })
   }"

definition alert_reconcile :: "env \<Rightarrow> klib \<Rightarrow> nsname \<Rightarrow> outcome io" where
  "alert_reconcile E L key = do {
     r \<leftarrow> k_get E alerts key;
     (case r of
        Inl err \<Rightarrow> ret (no_requeue, ignore_not_found err)
      | Inr a \<Rightarrow> do {
          targets \<leftarrow> alert_targets E L a;
          (case targets of
             Inl err \<Rightarrow> ret (no_requeue, Some err)
           | Inr svcs \<Rightarrow> do {
               ns \<leftarrow> notifiers E L (m_namespace (al_meta a)) [] (as_channels (al_spec_of a));
               (case ns of
                  Inl err \<Rightarrow> do {
                    t \<leftarrow> now E;
                    p \<leftarrow> k_patch_status E alerts False a
                      (setAlertCondition L t a ''Ready'' ConditionFalse ''ChannelUnavailable'' (err_msg err));
                    ret (requeue_after alertRetryInterval, err_of p)
                  }
                | Inr ns \<Rightarrow> notify_targets E L a svcs ns)
             })
        })
   }"

definition alerts_for_object :: "env \<Rightarrow> bool \<Rightarrow> obj_meta \<Rightarrow> nsname list io" where
  \<comment> \<open>\<^verbatim>\<open>alertsForObject\<close>; the flag says whether the object is a Service\<close>
  "alerts_for_object E is_service m =
     (let service = (if is_service then m_name m else label m labelService) in
      if service = '''' then ret []
      else do {
        r \<leftarrow> k_list E alerts (m_namespace m) ListAll;
        ret (case r of Inl err \<Rightarrow> []
           | Inr as \<Rightarrow> map (\<lambda>a. meta_key (al_meta a)) (filter (\<lambda>a.
               \<not> (as_selector (al_spec_of a) = None
                  \<and> (case as_service_ref (al_spec_of a) of None \<Rightarrow> False | Some ref \<Rightarrow> ref_name ref \<noteq> service))) as))
      })"

section \<open>What a run may do\<close>

lemma finish_alert_meta [simp]:
  "al_meta (setAlertCondition L t a ty st reason msg) = al_meta a"
  "al_spec_of (setAlertCondition L t a ty st reason msg) = al_spec_of a"
  "al_meta (reportAlert L t a n failed) = al_meta a"
  "al_spec_of (reportAlert L t a n failed) = al_spec_of a"
  "al_meta (finish_alert L t a n state) = al_meta a"
  "al_spec_of (finish_alert L t a n state) = al_spec_of a"
  by (auto simp: setAlertCondition_def reportAlert_def finish_alert_def Let_def split: prod.split)

lemma set_condition_ledger [simp]:
  "ast_last_notified (al_status_of (setAlertCondition L t a ty st reason msg)) = ast_last_notified (al_status_of a)"
  "ast_deliveries (al_status_of (setAlertCondition L t a ty st reason msg)) = ast_deliveries (al_status_of a)"
  "ast_last_notified (al_status_of (reportAlert L t a n failed)) = ast_last_notified (al_status_of a)"
  "ast_deliveries (al_status_of (reportAlert L t a n failed)) = ast_deliveries (al_status_of a)"
  by (simp_all add: setAlertCondition_def reportAlert_def Let_def)

lemma finish_alert_status [simp]:
  "ast_last_notified (al_status_of (finish_alert L t a n (sent, dels, failed))) = sent"
  "ast_deliveries (al_status_of (finish_alert L t a n (sent, dels, failed))) = dels"
  by (simp_all add: finish_alert_def)

text \<open>Reads of the objects the reconciler looks at.\<close>

fun is_alert_read :: "event \<Rightarrow> bool" where
  "is_alert_read (EvAlert (VGet key r)) = True"
| "is_alert_read (EvService (VGet key r)) = True"
| "is_alert_read (EvService (VList ns opt r)) = True"
| "is_alert_read (EvCI (VList ns opt r)) = True"
| "is_alert_read (EvCD (VList ns opt r)) = True"
| "is_alert_read (EvSecret (VGet key r)) = True"
| "is_alert_read _ = False"

lemma emits_alert_targets: "emits (alert_targets E L a) is_alert_read"
  unfolding alert_targets_def by (intro emits_intros) simp_all

lemma emits_snapshot_of: "emits (snapshot_of E svc) is_alert_read"
  unfolding snapshot_of_def Let_def by (intro emits_intros) simp_all

lemma emits_collect_events: "emits (collect_events E svcs occs) is_alert_read"
  by (induction svcs arbitrary: occs) (auto intro!: emits_intros emits_snapshot_of)

text \<open>
  \<open>url_from_secret ns t u\<close>: the URL was read in \<open>t\<close> from a Secret of the namespace.
\<close>

definition url_from_secret :: "string \<Rightarrow> trace \<Rightarrow> string \<Rightarrow> bool" where
  "url_from_secret ns t u \<longleftrightarrow>
     (\<exists>name s k. EvSecret (VGet (ns, name) (Inr s)) \<in> set t \<and> sec_data s k = Some u)"

lemma url_from_secret_append: "url_from_secret ns t u \<Longrightarrow> url_from_secret ns (t @ es) u"
  unfolding url_from_secret_def by auto

text \<open>An event of a run in the namespace, given the history \<open>t\<close> of reads.\<close>

fun is_send_to_secret_url :: "string \<Rightarrow> trace \<Rightarrow> event \<Rightarrow> bool" where
  "is_send_to_secret_url ns t (EvHttp q r) = (hq_method q = ''POST'' \<and> url_from_secret ns t (hq_url q))"
| "is_send_to_secret_url ns t (EvSleep d) = True"
| "is_send_to_secret_url ns t _ = False"

lemma emits_secretValue: "emits (secretValue E ns ref) is_alert_read"
  unfolding secretValue_def by (intro emits_intros) simp_all

lemma emits_channel_notifier: "emits (channel_notifier E L ns ch) is_alert_read"
  unfolding channel_notifier_def by (intro emits_intros emits_secretValue)

lemma emits_notifiers: "emits (notifiers E L ns out chs) is_alert_read"
  by (induction chs arbitrary: out) (auto intro!: emits_intros emits_channel_notifier)

lemma run_secretValue:
  "run_state (secretValue E ns ref) t = (Inr u, t') \<Longrightarrow> url_from_secret ns t' u"
proof -
  assume run: "run_state (secretValue E ns ref) t = (Inr u, t')"
  define r where "r = ka_get (env_secret E) t (ns, sk_name ref)"
  from run obtain s where "r = Inr s" "sec_data s (sk_key ref) = Some u"
      "t' = t @ [EvSecret (VGet (ns, sk_name ref) (Inr s))]"
    by (auto simp: secretValue_def k_defs r_def split: sum.splits option.splits if_splits)
  then show ?thesis unfolding url_from_secret_def
    by (intro exI [of _ "sk_name ref"] exI [of _ s] exI [of _ "sk_key ref"]) simp
qed

lemma run_channel_notifier:
  assumes "run_state (channel_notifier E L ns ch) t = (Inr n, t')"
  shows "url_from_secret ns t' (notifier_url n)"
proof -
  obtain url t1 where run: "run_state (secretValue E ns (ach_url_secret_ref ch)) t = (url, t1)" by fastforce
  obtain u where url: "url = Inr u"
    using assms run by (cases url) (simp_all add: channel_notifier_def)
  define rest where "rest = (case ach_signing_secret_ref ch of
              None \<Rightarrow> ret (Inr '''')
            | Some ref \<Rightarrow> secretValue E ns ref)"
  have "emits rest is_alert_read"
    unfolding rest_def by (intro emits_intros emits_secretValue)
  obtain key t2 where run2: "run_state rest t1 = (key, t2)" by fastforce
  from emitsD [OF \<open>emits rest is_alert_read\<close> run2] obtain es where "t2 = t1 @ es" by blast
  moreover obtain k where "key = Inr k" "t' = t2" "new_notifier L \<lparr>nc_type = channel_type_string (ach_type ch),
      nc_url = u, nc_signing_key = k\<rparr> = Inr n"
    using assms run url run2 unfolding channel_notifier_def rest_def [symmetric]
    by (cases key) (auto split: sum.splits)
  moreover have "url_from_secret ns t1 u" using run url run_secretValue by blast
  ultimately show ?thesis using new_notifier_url url_from_secret_append by fastforce
qed

lemma run_notifiers:
  assumes "run_state (notifiers E L ns out chs) t = (Inr res, t')"
    and "\<forall>(c, n)\<in>set out. url_from_secret ns t (notifier_url n)"
    and "distinct (map fst out)"
  shows "(\<forall>(c, n)\<in>set res. url_from_secret ns t' (notifier_url n))
     \<and> fst ` set out \<union> ach_name ` set chs = fst ` set res"
  using assms
proof (induction chs arbitrary: out t)
  case Nil
  then show ?case by simp
next
  case (Cons ch chs)
  obtain r t1 where run: "run_state (channel_notifier E L ns ch) t = (r, t1)" by fastforce
  obtain n where n: "r = Inr n"
    using Cons.prems(1) run by (cases r) simp_all
  define out1 where "out1 = AList.update (ach_name ch) n out"
  from emitsD [OF emits_channel_notifier run] obtain es where es: "t1 = t @ es" by blast
  have d: "distinct (map fst out1)"
    using Cons.prems(3) by (simp add: out1_def distinct_update)
  have urls: "\<forall>(c, m)\<in>set out1. url_from_secret ns t1 (notifier_url m)"
  proof (rule ballI, rule prod.case [THEN iffD2] | clarify)+
    fix c m assume "(c, m) \<in> set out1"
    then have "map_of out1 c = Some m" using d by simp
    then have "m = n \<or> (c, m) \<in> set out"
      by (auto simp: out1_def update_conv split: if_splits dest: map_of_SomeD)
    then show "url_from_secret ns t1 (notifier_url m)"
      using run_channel_notifier [OF run [unfolded n]] Cons.prems(2) url_from_secret_append es by fastforce
  qed
  have "run_state (notifiers E L ns out1 chs) t1 = (Inr res, t')"
    using Cons.prems(1) run n by (simp add: out1_def)
  from Cons.IH [OF this urls d] have "(\<forall>(c, n)\<in>set res. url_from_secret ns t' (notifier_url n))
     \<and> fst ` set out1 \<union> ach_name ` set chs = fst ` set res" .
  moreover have "fst ` set out1 = insert (ach_name ch) (fst ` set out)"
    using dom_update [of "ach_name ch" n out] by (simp add: out1_def dom_map_of_conv_image_fst [symmetric] update_conv')
  ultimately show ?case by auto
qed

section \<open>What a delivery records\<close>

definition answered_ok :: "trace \<Rightarrow> bool" where
  "answered_ok seg \<longleftrightarrow> http_answers seg \<noteq> [] \<and> delivered (last (http_answers seg))"

lemma run_Send:
  assumes "run_state (Send E L n e) t = (r, t')"
  shows "\<exists>seg. t' = t @ seg \<and> list_all (is_post_to (notifier_url n)) seg \<and> length (http_answers seg) \<le> 3
     \<and> (r = None \<longleftrightarrow> answered_ok seg)"
proof -
  have post: "\<exists>seg. t' = t @ seg \<and> list_all (is_post_to (po_url p)) seg \<and> length (http_answers seg) \<le> 3
     \<and> (r = None \<longleftrightarrow> answered_ok seg)"
    if run: "run_state (post E L p body headers) t = (r, t')" for p body headers
  proof -
    from run_post [OF run] obtain seg where seg: "t' = t @ seg" "post_run p body headers 3 seg r" by blast
    from emitsD [OF emits_post run] seg(1) have "list_all (is_post_to (po_url p)) seg" by simp
    moreover have "r = None \<longleftrightarrow> answered_ok seg"
      using seg(2) last_in_set [of "http_answers seg"]
      by (auto simp: post_run_def answered_ok_def list_all_iff)
    ultimately show ?thesis using seg by (auto simp: post_run_def)
  qed
  show ?thesis
    using assms by (cases n) (auto dest: post)
qed

lemma run_deliver_loop:
  assumes "\<forall>d\<in>set ds. dl_channel d \<in> fst ` set ns"
    and "run_state (deliver_loop E L ns ds (sent, dels, failed)) t = (r, t')"
  shows "\<exists>segs recs. length segs = length ds \<and> t' = t @ concat segs
     \<and> (\<forall>seg\<in>set segs. length (http_answers seg) \<le> 3)
     \<and> r = Inr (mark_sent sent (map fst (filter (\<lambda>(d, seg). answered_ok seg) (zip ds segs))),
                recs @ dels, failed + length (filter (\<lambda>seg. \<not> answered_ok seg) segs))
     \<and> map ad_success (List.rev recs) = map answered_ok segs"
  using assms
proof (induction ds arbitrary: sent dels failed t)
  case Nil
  then show ?case by (auto simp: mark_sent_def)
next
  case (Cons d ds)
  from Cons.prems(1) obtain n where n: "map_of ns (dl_channel d) = Some n"
    by (cases "map_of ns (dl_channel d)") (auto simp: map_of_eq_None_iff)
  define e where "e = (oc_event (dl_occurrence d))\<lparr>ne_time := env_now E t\<rparr>"
  obtain err t1 where send: "run_state (Send E L n e) t = (err, t1)" by fastforce
  from run_Send [OF send] obtain seg where seg: "t1 = t @ seg" "length (http_answers seg) \<le> 3"
    "err = None \<longleftrightarrow> answered_ok seg" by blast
  define sent1 where "sent1 = (if err = None
     then AList.update (dl_state_key d) (oc_key (dl_occurrence d)) sent else sent)"
  define rec where "rec = delivery_record (env_now E t) d err"
  define failed1 where "failed1 = (if err = None then failed else Suc failed)"
  have "run_state (deliver_loop E L ns ds (sent1, rec # dels, failed1)) t1 = (r, t')"
    using Cons.prems(2) n send by (simp add: e_def sent1_def rec_def failed1_def)
  from Cons.IH [OF _ this] Cons.prems(1) obtain segs recs where ih:
    "length segs = length ds" "t' = t1 @ concat segs" "\<forall>seg\<in>set segs. length (http_answers seg) \<le> 3"
    "r = Inr (mark_sent sent1 (map fst (filter (\<lambda>(d, seg). answered_ok seg) (zip ds segs))),
                recs @ rec # dels, failed1 + length (filter (\<lambda>seg. \<not> answered_ok seg) segs))"
    "map ad_success (List.rev recs) = map answered_ok segs" by auto
  have "mark_sent sent1 (map fst (filter (\<lambda>(d, seg). answered_ok seg) (zip ds segs)))
      = mark_sent sent (map fst (filter (\<lambda>(d, seg). answered_ok seg) (zip (d # ds) (seg # segs))))"
    using seg(3) by (simp add: sent1_def mark_sent_def)
  moreover have "failed1 + length (filter (\<lambda>seg. \<not> answered_ok seg) segs)
      = failed + length (filter (\<lambda>seg. \<not> answered_ok seg) (seg # segs))"
    using seg(3) by (simp add: failed1_def)
  moreover have "ad_success rec = answered_ok seg"
    using seg(3) by (simp add: rec_def delivery_record_def)
  ultimately show ?case
    using ih seg by (intro exI [of _ "seg # segs"] exI [of _ "recs @ [rec]"]) simp
qed

lemma Plan_channels: "d \<in> set (dn_send (Plan inp)) \<Longrightarrow> dl_channel d \<in> set (in_channels inp)"
  by (auto simp: Plan_send pair_delivery_def plan_pairs_def)

lemma emits_deliver_loop:
  assumes "\<forall>(c, n)\<in>set ns. url_from_secret x h (notifier_url n)"
  shows "emits (deliver_loop E L ns ds acc) (is_send_to_secret_url x h)"
proof (induction ds arbitrary: acc)
  case Nil
  then show ?case by (simp add: emits_ret)
next
  case (Cons d ds)
  have send: "emits (Send E L n e) (is_send_to_secret_url x h)" if "map_of ns c = Some n" for n e c
  proof (rule emits_weaken [OF emits_Send])
    fix ev assume "is_post_to (notifier_url n) ev"
    moreover have "url_from_secret x h (notifier_url n)"
      using assms map_of_SomeD [OF that] by auto
    ultimately show "is_send_to_secret_url x h ev" by (cases ev) auto
  qed
  show ?case
    by (cases acc, cases "map_of ns (dl_channel d)") (auto intro!: emits_intros send Cons.IH)
qed

section \<open>The whole reconcile\<close>

text \<open>
  An event of a run of the reconcile: a read, a POST to a URL that a Secret in the namespace
  of the Alert held, a pause between attempts, or the status patch of the Alert itself, which
  leaves its metadata and spec as they were read.
\<close>

definition alert_step_ok :: "alert \<Rightarrow> trace \<Rightarrow> event \<Rightarrow> bool" where
  "alert_step_ok a t ev \<longleftrightarrow> is_alert_read ev
     \<or> is_send_to_secret_url (m_namespace (al_meta a)) t ev
     \<or> (\<exists>a' r. ev = EvAlert (VPatchStatus False a a' r) \<and> al_meta a' = al_meta a \<and> al_spec_of a' = al_spec_of a)"

lemma send_url_weaken: "is_send_to_secret_url x t e \<Longrightarrow> is_send_to_secret_url x (t @ u) e"
  by (cases e) (auto simp: url_from_secret_append)

lemma emits_notify_targets:
  assumes "\<forall>(c, n)\<in>set ns. url_from_secret (m_namespace (al_meta a)) h (notifier_url n)"
  shows "emits (notify_targets E L a svcs ns) (alert_step_ok a h)"
  unfolding notify_targets_def Let_def deliver_def
  by (intro emits_intros emits_weaken [OF emits_collect_events] emits_weaken [OF emits_deliver_loop [OF assms]])
    (auto simp: alert_step_ok_def)

text \<open>
  Every event is checked against the history before the sends began, so a URL was read
  before anything was posted to it.
\<close>

lemma run_alert_reconcile:
  assumes "run_state (alert_reconcile E L key) t = (out, t')"
  shows "\<exists>r reads es. t' = t @ EvAlert (VGet key r) # reads @ es \<and> list_all is_alert_read reads
     \<and> (case r of Inl err \<Rightarrow> reads @ es = [] | Inr a \<Rightarrow>
          list_all (alert_step_ok a (t @ EvAlert (VGet key r) # reads)) es)"
proof -
  define r where "r = ka_get (env_alert E) t key"
  define t0 where "t0 = t @ [EvAlert (VGet key r)]"
  show ?thesis
  proof (cases r)
    case (Inl err)
    then have "t' = t @ [EvAlert (VGet key (Inl err))]"
      using assms by (auto simp: alert_reconcile_def k_defs r_def [symmetric])
    then show ?thesis by (intro exI [of _ "Inl err"] exI [of _ "[]"]) simp
  next
    case (Inr a)
    let ?x = "m_namespace (al_meta a)"
    obtain targets t1 where run1: "run_state (alert_targets E L a) t0 = (targets, t1)" by fastforce
    from emitsD [OF emits_alert_targets run1] obtain es1 where es1: "t1 = t0 @ es1" "list_all is_alert_read es1"
      by blast
    have rest: "(out, t') = run_state (case targets of
             Inl err \<Rightarrow> ret (no_requeue, Some err)
           | Inr svcs \<Rightarrow> do {
               ns \<leftarrow> notifiers E L ?x [] (as_channels (al_spec_of a));
               (case ns of
                  Inl err \<Rightarrow> do {
                    t \<leftarrow> now E;
                    p \<leftarrow> k_patch_status E alerts False a
                      (setAlertCondition L t a ''Ready'' ConditionFalse ''ChannelUnavailable'' (err_msg err));
                    ret (requeue_after alertRetryInterval, err_of p)
                  }
                | Inr ns \<Rightarrow> notify_targets E L a svcs ns)
             }) t1"
      using assms Inr run1 by (simp add: alert_reconcile_def k_get_def r_def t0_def)
    have pack: ?thesis if "t' = t0 @ reads @ es" "list_all is_alert_read reads"
      "list_all (alert_step_ok a (t0 @ reads)) es" for reads es
      by (rule exI [of _ "Inr a"], rule exI [of _ reads], rule exI [of _ es])
        (use that Inr in \<open>simp add: t0_def\<close>)
    show ?thesis
    proof (cases targets)
      case (Inl err)
      with rest es1 show ?thesis by (intro pack [of es1 "[]"]) simp_all
    next
      case targets: (Inr svcs)
      obtain ns t2 where run2: "run_state (notifiers E L ?x [] (as_channels (al_spec_of a))) t1 = (ns, t2)"
        by fastforce
      from emitsD [OF emits_notifiers run2] obtain es2 where es2: "t2 = t1 @ es2" "list_all is_alert_read es2"
        by blast
      note rest' = rest [unfolded targets sum.case, simplified run_state_bind run2 prod.case]
      show ?thesis
      proof (cases ns)
        case (Inl err)
        define a' where "a' = setAlertCondition L (env_now E t2) a ''Ready'' ConditionFalse
          ''ChannelUnavailable'' (err_msg err)"
        have "t' = t2 @ [EvAlert (VPatchStatus False a a' (ka_patch_status (env_alert E) t2 False a a'))]"
          using rest run2 targets Inl by (simp add: k_patch_status_def a'_def)
        then show ?thesis
          using es1 es2 by (intro pack [of "es1 @ es2"]) (auto simp: alert_step_ok_def a'_def)
      next
        case (Inr n)
        have "\<forall>(c, m)\<in>set n. url_from_secret ?x t2 (notifier_url m)"
          using run_notifiers [OF run2 [unfolded Inr]] by simp
        note em = emits_notify_targets [OF this]
        have "run_state (notify_targets E L a svcs n) t2 = (out, t')"
          using rest run2 targets Inr by simp
        from emitsD [OF em this] obtain es3 where "t' = t2 @ es3" "list_all (alert_step_ok a t2) es3" by blast
        then show ?thesis
          using es1 es2 by (intro pack [of "es1 @ es2" es3]) auto
      qed
    qed
  qed
qed

end
