(* ===== verification/Renderers.thy ===== *)
theory Renderers
  imports ApiTypes
begin

text \<open>
  The plugin renderers of \<^verbatim>\<open>internal/plugins\<close>: \<^verbatim>\<open>sonarqube.go\<close>, \<^verbatim>\<open>codeql.go\<close> and
  \<^verbatim>\<open>custom.go\<close>, each an instance of the Go interface \<^verbatim>\<open>Renderer\<close> (the record
  \<open>renderer\<close>). What the callers of the interface rely on is the locale
  \<open>renderer_contract\<close>: a plugin that validates renders, in every build environment, with the
  same command and without mounts or working directory of its own. It is interpreted on the
  three renderers; theory \<open>Plugins\<close> proves its steps from it.
\<close>

section \<open>registry.go: the interface\<close>

definition WorkspaceVolume :: string where "WorkspaceVolume = ''workspace''"
definition WorkspacePath :: string where "WorkspacePath = ''/workspace''"
definition ReportsVolume :: string where "ReportsVolume = ''reports''"
definition ReportsPath :: string where "ReportsPath = ''/koptan/reports''"
definition containerPrefix :: string where "containerPrefix = ''plugin-''"

record build_env =
  be_service :: string
  be_namespace :: string
  be_repo :: string
  be_revision :: string
  be_language :: string
  be_context_dir :: string

definition empty_build_env :: build_env where
  "empty_build_env = \<lparr>be_service = '''', be_namespace = '''', be_repo = '''', be_revision = '''',
     be_language = '''', be_context_dir = ''''\<rparr>"

definition SourceDir :: "build_env \<Rightarrow> string" where
  "SourceDir e = (if be_context_dir e = '''' then WorkspacePath
     else WorkspacePath @ ''/'' @ be_context_dir e)"

record renderer =
  r_validate :: "ciplugin \<Rightarrow> gerror option"
  r_container :: "ciplugin \<Rightarrow> build_env \<Rightarrow> gerror + container"
  r_resources :: resource_reqs

definition requirements :: "string \<Rightarrow> string \<Rightarrow> string \<Rightarrow> string \<Rightarrow> resource_reqs" where
  "requirements cpu_req mem_req cpu_lim mem_lim =
     \<lparr>rr_requests = [(''cpu'', cpu_req), (''memory'', mem_req)],
      rr_limits = [(''cpu'', cpu_lim), (''memory'', mem_lim)]\<rparr>"

locale renderer_contract =
  fixes R :: renderer
  assumes renders: "r_validate R p = None \<Longrightarrow> \<exists>c. r_container R p env = Inr c"
    and no_panic: "r_validate R p = Some err \<Longrightarrow> err_class err \<noteq> ErrPanic"
    and same_command: "r_container R p env = Inr c \<Longrightarrow> r_container R p env' = Inr c' \<Longrightarrow>
          k_command c = k_command c'"
    and plain: "r_container R p env = Inr c \<Longrightarrow> k_mounts c = [] \<and> k_working_dir c = ''''"

section \<open>sonarqube.go\<close>

definition sonarScannerImage :: string where
  "sonarScannerImage = ''docker.io/sonarsource/sonar-scanner-cli:11''"

definition sonarqube_validate :: "ciplugin \<Rightarrow> gerror option" where
  "sonarqube_validate p =
     (case pls_sonarqube (pl_spec_of p) of
        None \<Rightarrow> Some (errorf ''spec.sonarqube is required for type sonarqube'')
      | Some cfg \<Rightarrow>
          if sq_host_url cfg = '''' then Some (errorf ''spec.sonarqube.hostURL is required'')
          else if sk_name (sq_token_secret_ref cfg) = '''' \<or> sk_key (sq_token_secret_ref cfg) = ''''
          then Some (errorf ''spec.sonarqube.tokenSecretRef needs a name and a key'')
          else None)"

definition sonarqube_container :: "ciplugin \<Rightarrow> build_env \<Rightarrow> gerror + container" where
  "sonarqube_container p env =
     (case pls_sonarqube (pl_spec_of p) of
        None \<Rightarrow> Inl nil_dereference
      | Some cfg \<Rightarrow>
          let image = (if sq_image cfg = '''' then sonarScannerImage else sq_image cfg);
              key = (if sq_project_key cfg = '''' then be_namespace env @ ''_'' @ be_service env
                     else sq_project_key cfg);
              args = [''-Dsonar.projectKey='' @ key,
                      ''-Dsonar.projectBaseDir='' @ SourceDir env,
                      ''-Dsonar.scm.revision='' @ be_revision env,
                      ''-Dsonar.working.directory=/tmp/scannerwork''];
              args = (if sq_wait_for_quality_gate cfg \<noteq> Some False
                      then args @ [''-Dsonar.qualitygate.wait=true''] else args);
              args = args @ sq_extra_args cfg
          in Inr (empty_container\<lparr>
               k_image := image,
               k_command := [''sonar-scanner''],
               k_args := args,
               k_env := [env_value ''SONAR_HOST_URL'' (sq_host_url cfg),
                         env_from_secret ''SONAR_TOKEN'' (sq_token_secret_ref cfg),
                         env_value ''SONAR_USER_HOME'' ''/tmp/sonar'']\<rparr>))"

definition SonarQube :: renderer where
  "SonarQube = \<lparr>r_validate = sonarqube_validate, r_container = sonarqube_container,
     r_resources = requirements ''200m'' ''512Mi'' ''2'' ''2Gi''\<rparr>"

interpretation sonarqube: renderer_contract SonarQube
  by unfold_locales
    (auto simp: SonarQube_def sonarqube_validate_def sonarqube_container_def empty_container_def Let_def
      split: option.splits if_splits)

section \<open>codeql.go\<close>

definition codeQLImage :: string where
  "codeQLImage = ''docker.io/library/python:3.12-slim-bookworm''"

definition codeQLBundleURL :: string where
  "codeQLBundleURL = ''https://github.com/github/codeql-action/releases/download/''
     @ ''codeql-bundle-v2.27.2/codeql-bundle-linux64.tar.gz''"

definition codeQLBundleSHA256 :: string where
  "codeQLBundleSHA256 = ''f002864be6dd8d5d7bdb123aaf7291ec8e291012bd9f70b6d2362f730db52aeb''"

definition codeQLPacks :: "(string \<times> string) list" where
  "codeQLPacks = [
     (''javascript-typescript'', ''javascript''), (''javascript'', ''javascript''), (''typescript'', ''javascript''),
     (''python'', ''python''), (''java-kotlin'', ''java''), (''java'', ''java''), (''kotlin'', ''java''),
     (''csharp'', ''csharp''), (''ruby'', ''ruby''), (''go'', ''go''), (''c-cpp'', ''cpp''), (''cpp'', ''cpp''),
     (''swift'', ''swift'')]"

definition koptanToCodeQL :: "(string \<times> string) list" where
  "koptanToCodeQL = [
     (''go'', ''go''), (''node'', ''javascript-typescript''), (''python'', ''python''),
     (''java'', ''java-kotlin''), (''dotnet'', ''csharp''), (''ruby'', ''ruby'')]"

definition codeQLLangRe :: "string \<Rightarrow> bool" where
  \<comment> \<open>\<^verbatim>\<open>^[a-z+-]+$\<close>\<close>
  "codeQLLangRe l \<longleftrightarrow> l \<noteq> [] \<and> list_all (\<lambda>c. is_lower c \<or> c = CHR ''+'' \<or> c = CHR ''-'') l"

definition codeQLCountFilter :: string where
  "codeQLCountFilter = unlines_go [
     '''',
     ''{'' @ [CHR 0x22] @ ''error'' @ [CHR 0x22] @ '': 3, '' @ [CHR 0x22] @ ''warning'' @ [CHR 0x22] @ '': 2, '' @ [CHR 0x22] @ ''note'' @ [CHR 0x22] @ '': 1, '' @ [CHR 0x22] @ ''none'' @ [CHR 0x22] @ '': 0} as $rank'',
     ''| [.runs[]'',
     ''   | . as $run'',
     ''   | ([$run.tool.driver.rules[]?, $run.tool.extensions[]?.rules[]?]) as $all'',
     ''   | .results[]?'',
     ''   | (.ruleId // .rule.id) as $id'',
     ''   | (if .rule.toolComponent.index != null'',
     ''      then ($run.tool.extensions[.rule.toolComponent.index].rules // [])'',
     ''      else ($run.tool.driver.rules // []) end) as $rules'',
     ''   | (.rule.index // .ruleIndex) as $i'',
     ''   | ((if $i != null then $rules[$i] else null end)'',
     ''      // ([$all[] | select(.id == $id)] | first)) as $rule'',
     ''   | (.level // $rule.defaultConfiguration.level // '' @ [CHR 0x22] @ ''warning'' @ [CHR 0x22] @ '')'',
     ''   | select($min != '' @ [CHR 0x22] @ ''none'' @ [CHR 0x22] @ '' and $rank[.] >= $rank[$min])]'',
     ''| length'']"

definition codeQLScript :: string where
  "codeQLScript = unlines_go [
     ''set -eu'',
     ''if [ -z '' @ [CHR 0x22] @ ''$CODEQL_LANGUAGES'' @ [CHR 0x22] @ '' ]; then'',
     ''  echo '' @ [CHR 0x22] @ ''koptan: no CodeQL language for stack '' @ [CHR 0x5C, CHR 0x22] @ ''$KOPTAN_LANGUAGE'' @ [CHR 0x5C, CHR 0x22] @ ''; set spec.codeql.languages or detach the plugin'' @ [CHR 0x22],
     ''  exit 1'',
     ''fi'',
     ''if ! command -v curl >/dev/null 2>&1 || ! command -v jq >/dev/null 2>&1; then'',
     ''  apt-get update -qq && apt-get install -y -qq --no-install-recommends curl jq ca-certificates >/dev/null'',
     ''fi'',
     ''work='' @ [CHR 0x22] @ ''${CODEQL_WORK_DIR:-/tmp}'' @ [CHR 0x22],
     ''echo '' @ [CHR 0x22] @ ''koptan: downloading the CodeQL bundle'' @ [CHR 0x22],
     ''curl -fsSL --retry 3 --retry-all-errors -o '' @ [CHR 0x22] @ ''$work/codeql-bundle.tar.gz'' @ [CHR 0x22] @ '' '' @ [CHR 0x22] @ ''$CODEQL_BUNDLE_URL'' @ [CHR 0x22],
     ''if [ -n '' @ [CHR 0x22] @ ''${CODEQL_BUNDLE_SHA256:-}'' @ [CHR 0x22] @ '' ]; then'',
     ''  echo '' @ [CHR 0x22] @ ''$CODEQL_BUNDLE_SHA256  $work/codeql-bundle.tar.gz'' @ [CHR 0x22] @ '' | sha256sum -c -'',
     ''fi'',
     ''tar -xzf '' @ [CHR 0x22] @ ''$work/codeql-bundle.tar.gz'' @ [CHR 0x22] @ '' -C '' @ [CHR 0x22] @ ''$work'' @ [CHR 0x22],
     ''rm -f '' @ [CHR 0x22] @ ''$work/codeql-bundle.tar.gz'' @ [CHR 0x22],
     ''codeql='' @ [CHR 0x22] @ ''$work/codeql/codeql'' @ [CHR 0x22],
     ''mkdir -p '' @ [CHR 0x22] @ ''$KOPTAN_REPORTS_DIR'' @ [CHR 0x22],
     ''found=0'',
     ''for pair in $CODEQL_LANGUAGES; do'',
     ''  lang='' @ [CHR 0x22] @ ''${pair%%:*}'' @ [CHR 0x22] @ ''; pack='' @ [CHR 0x22] @ ''${pair#*:}'' @ [CHR 0x22],
     ''  case '' @ [CHR 0x22] @ ''$pack'' @ [CHR 0x22] @ '' in'',
     ''    go|cpp|swift) mode=autobuild ;;'',
     ''    *) mode=none ;;'',
     ''  esac'',
     ''  sarif='' @ [CHR 0x22] @ ''$KOPTAN_REPORTS_DIR/$KOPTAN_PLUGIN-$pack.sarif'' @ [CHR 0x22],
     ''  '' @ [CHR 0x22] @ ''$codeql'' @ [CHR 0x22] @ '' database create '' @ [CHR 0x22] @ ''$work/db-$pack'' @ [CHR 0x22] @ '' --language='' @ [CHR 0x22] @ ''$lang'' @ [CHR 0x22] @ '' --source-root='' @ [CHR 0x22] @ ''$KOPTAN_SOURCE_DIR'' @ [CHR 0x22] @ '' '' @ [CHR 0x5C],
     ''    --build-mode='' @ [CHR 0x22] @ ''$mode'' @ [CHR 0x22] @ '' --overwrite'',
     ''  '' @ [CHR 0x22] @ ''$codeql'' @ [CHR 0x22] @ '' database analyze '' @ [CHR 0x22] @ ''$work/db-$pack'' @ [CHR 0x22] @ '' '' @ [CHR 0x5C],
     ''    '' @ [CHR 0x22] @ ''codeql/$pack-queries:codeql-suites/$pack-$CODEQL_SUITE.qls'' @ [CHR 0x22] @ '' '' @ [CHR 0x5C],
     ''    --format=sarif-latest --output='' @ [CHR 0x22] @ ''$sarif'' @ [CHR 0x22],
     ''  n=$(jq --arg min '' @ [CHR 0x22] @ ''$CODEQL_FAIL_ON'' @ [CHR 0x22] @ '' '' @ [CHR 0x27]]
     @ codeQLCountFilter @ unlines_go [
     [CHR 0x27] @ '' '' @ [CHR 0x22] @ ''$sarif'' @ [CHR 0x22] @ '')'',
     ''  echo '' @ [CHR 0x22] @ ''koptan: $lang: $n result(s) at or above $CODEQL_FAIL_ON'' @ [CHR 0x22],
     ''  found=$((found + n))'',
     ''  if [ -n '' @ [CHR 0x22] @ ''${GITHUB_TOKEN:-}'' @ [CHR 0x22] @ '' ]; then'',
     ''    '' @ [CHR 0x22] @ ''$codeql'' @ [CHR 0x22] @ '' github upload-results --repository='' @ [CHR 0x22] @ ''$GITHUB_REPOSITORY'' @ [CHR 0x22] @ '' --ref='' @ [CHR 0x22] @ ''$GITHUB_REF'' @ [CHR 0x22] @ '' '' @ [CHR 0x5C],
     ''      --commit='' @ [CHR 0x22] @ ''$KOPTAN_REVISION'' @ [CHR 0x22] @ '' --sarif='' @ [CHR 0x22] @ ''$sarif'' @ [CHR 0x22] @ '' ||'',
     ''      echo '' @ [CHR 0x22] @ ''koptan: warning: SARIF upload to $GITHUB_REPOSITORY failed; the verdict above stands'' @ [CHR 0x22],
     ''  fi'',
     ''done'',
     ''if [ '' @ [CHR 0x22] @ ''$found'' @ [CHR 0x22] @ '' -gt 0 ]; then'',
     ''  echo '' @ [CHR 0x22] @ ''koptan: CodeQL found $found result(s) at or above $CODEQL_FAIL_ON'' @ [CHR 0x22],
     ''  exit 1'',
     ''fi'',
     '''']"

fun unsupported_language :: "string list \<Rightarrow> gerror option" where
  "unsupported_language [] = None"
| "unsupported_language (l # ls) =
     (if map_of codeQLPacks l = None \<or> \<not> codeQLLangRe l
      then Some (errorf (''codeql language '' @ fmt_q l @ '' is not supported''))
      else unsupported_language ls)"

definition codeql_validate :: "ciplugin \<Rightarrow> gerror option" where
  "codeql_validate p =
     (case pls_codeql (pl_spec_of p) of
        None \<Rightarrow> Some (errorf ''spec.codeql is required for type codeql'')
      | Some cfg \<Rightarrow>
          (case unsupported_language (cq_languages cfg) of
             Some err \<Rightarrow> Some err
           | None \<Rightarrow>
               (case cq_github cfg of
                  None \<Rightarrow> None
                | Some gh \<Rightarrow>
                    if sk_name (gh_token_secret_ref gh) = '''' \<or> sk_key (gh_token_secret_ref gh) = ''''
                    then Some (errorf ''spec.codeql.github.tokenSecretRef needs a name and a key'')
                    else None)))"

definition codeQLLanguages :: "string list \<Rightarrow> string \<Rightarrow> string" where
  "codeQLLanguages configured detected =
     (let langs = (if configured = []
                   then (case map_of koptanToCodeQL detected of Some l \<Rightarrow> [l] | None \<Rightarrow> configured)
                   else configured);
          pairs = concat (map (\<lambda>l. case map_of codeQLPacks l of
                    Some pack \<Rightarrow> [l @ '':'' @ pack] | None \<Rightarrow> []) langs)
      in join pairs '' '')"

definition codeql_container :: "ciplugin \<Rightarrow> build_env \<Rightarrow> gerror + container" where
  "codeql_container p env =
     (case pls_codeql (pl_spec_of p) of
        None \<Rightarrow> Inl nil_dereference
      | Some cfg \<Rightarrow>
          let image = (if cq_image cfg = '''' then codeQLImage else cq_image cfg);
              (bundle, sum) = (if cq_bundle_url cfg = '''' then (codeQLBundleURL, codeQLBundleSHA256)
                               else (cq_bundle_url cfg, ''''));
              suite = (if cq_query_suite cfg = '''' then ''code-scanning'' else cq_query_suite cfg);
              fail_on = (if cq_fail_on_severity cfg = '''' then ''error'' else cq_fail_on_severity cfg);
              vars = [env_value ''CODEQL_LANGUAGES'' (codeQLLanguages (cq_languages cfg) (be_language env)),
                      env_value ''CODEQL_SUITE'' suite,
                      env_value ''CODEQL_FAIL_ON'' fail_on,
                      env_value ''CODEQL_BUNDLE_URL'' bundle,
                      env_value ''CODEQL_BUNDLE_SHA256'' sum];
              vars = (case cq_github cfg of None \<Rightarrow> vars
                | Some gh \<Rightarrow> vars @ [env_value ''GITHUB_REPOSITORY'' (gh_repository gh),
                                     env_value ''GITHUB_REF'' (gh_ref gh),
                                     env_from_secret ''GITHUB_TOKEN'' (gh_token_secret_ref gh)])
          in Inr (empty_container\<lparr>
               k_image := image,
               k_command := [''sh'', ''-c'', codeQLScript],
               k_env := vars\<rparr>))"

definition CodeQL :: renderer where
  "CodeQL = \<lparr>r_validate = codeql_validate, r_container = codeql_container,
     r_resources = requirements ''500m'' ''2Gi'' ''4'' ''6Gi''\<rparr>"

lemma unsupported_language_None:
  "unsupported_language ls = None \<longleftrightarrow> (\<forall>l\<in>set ls. map_of codeQLPacks l \<noteq> None \<and> codeQLLangRe l)"
  by (induction ls) auto

lemma unsupported_language_class:
  "unsupported_language ls = Some err \<Longrightarrow> err_class err = ErrOther"
  by (induction ls) (auto split: if_splits)

interpretation codeql: renderer_contract CodeQL
  by unfold_locales
    (auto simp: CodeQL_def codeql_validate_def codeql_container_def empty_container_def Let_def
      dest: unsupported_language_class split: option.splits if_splits prod.splits)

text \<open>
  What reaches the script as \<^verbatim>\<open>CODEQL_LANGUAGES\<close>: pairs of a supported language and its pack.
  A supported language has a pack made of lower-case letters.
\<close>

lemma codeQLPacks_range:
  "map_of codeQLPacks l = Some pack \<Longrightarrow> codeQLLangRe l \<and> pack \<noteq> [] \<and> list_all is_lower pack"
  by (auto simp: codeQLPacks_def codeQLLangRe_def is_lower_def split: if_splits)

lemma koptanToCodeQL_range:
  "map_of koptanToCodeQL d = Some l \<Longrightarrow> map_of codeQLPacks l \<noteq> None"
  by (auto simp: codeQLPacks_def koptanToCodeQL_def split: if_splits)

section \<open>custom.go\<close>

definition custom_validate :: "ciplugin \<Rightarrow> gerror option" where
  "custom_validate p =
     (case pls_custom (pl_spec_of p) of
        None \<Rightarrow> Some (errorf ''spec.custom.image is required for type custom'')
      | Some cfg \<Rightarrow> if cu_image cfg = '''' then Some (errorf ''spec.custom.image is required for type custom'')
                    else None)"

definition custom_container :: "ciplugin \<Rightarrow> build_env \<Rightarrow> gerror + container" where
  "custom_container p env =
     (case pls_custom (pl_spec_of p) of
        None \<Rightarrow> Inl nil_dereference
      | Some cfg \<Rightarrow> Inr (empty_container\<lparr>
          k_image := cu_image cfg,
          k_command := cu_command cfg,
          k_args := cu_args cfg,
          k_env := cu_env cfg,
          k_env_from := cu_env_from cfg\<rparr>))"

definition Custom :: renderer where
  "Custom = \<lparr>r_validate = custom_validate, r_container = custom_container,
     r_resources = requirements ''100m'' ''128Mi'' ''1'' ''1Gi''\<rparr>"

interpretation custom: renderer_contract Custom
  by unfold_locales
    (auto simp: Custom_def custom_validate_def custom_container_def empty_container_def
      split: option.splits if_splits)

end
