(* ===== verification/Plugins.thy ===== *)
theory Plugins
  imports Renderers "HOL-Library.AList" "HOL-Library.Multiset"
begin

text \<open>
  \<^verbatim>\<open>internal/plugins\<close>: which CIPlugins a Service's builds run (\<^verbatim>\<open>resolve.go\<close>), whether a
  plugin is usable (\<^verbatim>\<open>registry.go\<close>) and the build Pod container it becomes
  (\<^verbatim>\<open>steps.go\<close>). \<open>Resolve\<close> ranges over a Go map, whose order is arbitrary: it is the
  argument \<open>order\<close>, a permutation, and the lemmas show that the result does not depend on it.
  The lemmas on \<open>Step\<close> come from the locale \<open>renderer_contract\<close> through the three
  interpretations: a plugin that validates always renders, nothing panics, and under the
  failure policy Ignore the wrapper gets a program to run.
\<close>

section \<open>resolve.go\<close>

text \<open>The sort key: spec.order, then name, compared as Go compares strings.\<close>

datatype plugin_key = PluginKey (key_order: int) (key_name: string)

instantiation plugin_key :: linorder
begin

definition less_eq_plugin_key :: "plugin_key \<Rightarrow> plugin_key \<Rightarrow> bool" where
  "less_eq_plugin_key a b \<longleftrightarrow> key_order a < key_order b
     \<or> (key_order a = key_order b \<and> key_name a \<le> key_name b)"

definition less_plugin_key :: "plugin_key \<Rightarrow> plugin_key \<Rightarrow> bool" where
  "less_plugin_key a b \<longleftrightarrow> key_order a < key_order b
     \<or> (key_order a = key_order b \<and> key_name a < key_name b)"

instance
  by standard (auto simp: less_eq_plugin_key_def less_plugin_key_def plugin_key.expand)

end

definition plugin_key_of :: "ciplugin \<Rightarrow> plugin_key" where
  "plugin_key_of p = PluginKey (pls_order (pl_spec_of p)) (m_name (pl_meta p))"

fun targets_ref :: "string \<Rightarrow> plugin_target_ref list \<Rightarrow> bool" where
  "targets_ref name [] = False"
| "targets_ref name (r # rs) =
     (if (ptr_kind r = '''' \<or> ptr_kind r = ''Service'') \<and> ptr_name r = name then True
      else targets_ref name rs)"

definition Targets :: "klib \<Rightarrow> ciplugin \<Rightarrow> service \<Rightarrow> bool" where
  "Targets L p svc =
     (if m_namespace (pl_meta p) \<noteq> m_namespace (sv_meta svc) then False
      else if targets_ref (m_name (sv_meta svc)) (pls_target_refs (pl_spec_of p)) then True
      else (case pls_selector (pl_spec_of p) of
          None \<Rightarrow> False
        | Some s \<Rightarrow>
            (case lib_selector L s of
               Inl err \<Rightarrow> False
             | Inr sel \<Rightarrow> if sel_empty sel then False else sel_matches sel (m_labels (sv_meta svc)))))"

definition AttachedTo :: "klib \<Rightarrow> ciplugin \<Rightarrow> service \<Rightarrow> bool" where
  "AttachedTo L p svc =
     (if list_ex (\<lambda>r. plr_name r = m_name (pl_meta p) \<and> m_namespace (sv_meta svc) = m_namespace (pl_meta p))
           (svs_plugins (sv_spec_of svc))
      then True else Targets L p svc)"

text \<open>\<open>by_name\<close> is the map of the live plugins in the Service's namespace; a later one wins.\<close>

definition live_in :: "service \<Rightarrow> ciplugin \<Rightarrow> bool" where
  "live_in svc p \<longleftrightarrow> m_namespace (pl_meta p) = m_namespace (sv_meta svc) \<and> m_deletion (pl_meta p) = None"

definition by_name :: "service \<Rightarrow> ciplugin list \<Rightarrow> (string \<times> ciplugin) list" where
  "by_name svc all = foldl (\<lambda>m p. if live_in svc p then AList.update (m_name (pl_meta p)) p m else m) [] all"

definition add_plugin :: "ciplugin list \<Rightarrow> ciplugin \<Rightarrow> ciplugin list" where
  \<comment> \<open>\<^verbatim>\<open>seen\<close> holds the names of \<open>attached\<close>\<close>
  "add_plugin attached p =
     (if m_name (pl_meta p) \<in> (\<lambda>q. m_name (pl_meta q)) ` set attached then attached else attached @ [p])"

definition add_named :: "(string \<rightharpoonup> ciplugin) \<Rightarrow> ciplugin list \<times> string list \<Rightarrow> plugin_ref \<Rightarrow> ciplugin list \<times> string list"
where
  "add_named m acc ref = (case acc of (attached, missing) \<Rightarrow>
     (case m (plr_name ref) of
        Some p \<Rightarrow> (add_plugin attached p, missing)
      | None \<Rightarrow> (attached, missing @ [plr_name ref])))"

definition Resolve :: "klib \<Rightarrow> ((string \<times> ciplugin) list \<Rightarrow> (string \<times> ciplugin) list) \<Rightarrow> service
    \<Rightarrow> ciplugin list \<Rightarrow> ciplugin list \<times> string list" where
  "Resolve L order svc all =
     (let m = by_name svc all;
          (attached, missing) = foldl (add_named (map_of m)) ([], []) (svs_plugins (sv_spec_of svc));
          attached = foldl (\<lambda>att (n, p). if Targets L p svc then add_plugin att p else att) attached (order m)
      in (sort_key plugin_key_of attached, missing))"

definition Refs :: "ciplugin list \<Rightarrow> ciplugin_ref list" where
  "Refs ps = map (\<lambda>p. \<lparr>pr_name = m_name (pl_meta p), pr_generation = m_generation (pl_meta p)\<rparr>) ps"

subsection \<open>What Resolve returns\<close>

abbreviation pname :: "ciplugin \<Rightarrow> string" where
  "pname p \<equiv> m_name (pl_meta p)"

lemma targets_ref_iff:
  "targets_ref name rs \<longleftrightarrow> (\<exists>r\<in>set rs. (ptr_kind r = '''' \<or> ptr_kind r = ''Service'') \<and> ptr_name r = name)"
  by (induction rs) auto

lemma add_plugin_fold:
  \<comment> \<open>adding plugins that are determined by their names\<close>
  assumes "inj_on pname (set att \<union> set ps)" and "distinct att"
  shows "set (foldl add_plugin att ps) = set att \<union> set ps \<and> distinct (foldl add_plugin att ps)"
  using assms
proof (induction ps arbitrary: att)
  case (Cons p ps)
  have seen: "pname p \<in> pname ` set att \<longleftrightarrow> p \<in> set att"
    using Cons.prems(1) by (auto simp: inj_on_def)
  then have add: "set (add_plugin att p) = insert p (set att)" "distinct (add_plugin att p)"
    using Cons.prems(2) by (auto simp: add_plugin_def)
  have "inj_on pname (set (add_plugin att p) \<union> set ps)"
    using Cons.prems(1) add(1) by (auto intro: inj_on_subset)
  from Cons.IH [OF this add(2)] show ?case by (simp add: add(1))
qed simp

lemma by_name_fold:
  fixes all :: "ciplugin list"
  assumes "distinct (map fst m)" and "\<And>n p. (n, p) \<in> set m \<Longrightarrow> n = pname p \<and> live_in svc p"
  defines "m' == foldl (\<lambda>m p. if live_in svc p then AList.update (pname p) p m else m) m all"
  shows "distinct (map fst m') \<and> (\<forall>(n, p)\<in>set m'. n = pname p \<and> live_in svc p)
     \<and> (\<forall>n. map_of m' n = (case find (\<lambda>p. live_in svc p \<and> pname p = n) (List.rev all) of
            Some p \<Rightarrow> Some p | None \<Rightarrow> map_of m n))"
  using assms(1,2) unfolding m'_def
proof (induction all arbitrary: m)
  case Nil
  then show ?case by auto
next
  case (Cons p all)
  define m1 where "m1 = (if live_in svc p then AList.update (pname p) p m else m)"
  have d: "distinct (map fst m1)"
    using Cons.prems(1) by (simp add: m1_def distinct_update)
  have k: "n = pname q \<and> live_in svc q" if q: "(n, q) \<in> set m1" for n q
  proof -
    have "map_of m1 n = Some q" using d q by simp
    then show ?thesis
      using Cons.prems(2) map_of_SomeD [of m n q]
      by (auto simp: m1_def update_conv split: if_splits)
  qed
  have find_app: "find P (xs @ [p]) = (case find P xs of Some x \<Rightarrow> Some x | None \<Rightarrow> if P p then Some p else None)"
    for P and xs :: "ciplugin list" by (induction xs) auto
  from Cons.IH [OF d k] show ?case
    by (auto simp: find_app m1_def update_conv split: option.splits)
qed

lemma by_name:
  "distinct (map fst (by_name svc all))"
  "(n, p) \<in> set (by_name svc all) \<Longrightarrow> n = pname p \<and> live_in svc p"
  "map_of (by_name svc all) n = find (\<lambda>p. live_in svc p \<and> pname p = n) (List.rev all)"
proof -
  from by_name_fold [of "[]" svc all]
  have f: "distinct (map fst (by_name svc all))"
    "\<forall>(n, p)\<in>set (by_name svc all). n = pname p \<and> live_in svc p"
    "map_of (by_name svc all) n = (case find (\<lambda>p. live_in svc p \<and> pname p = n) (List.rev all) of
            Some p \<Rightarrow> Some p | None \<Rightarrow> map_of [] n)"
    unfolding by_name_def by simp_all
  show "distinct (map fst (by_name svc all))" by (rule f(1))
  show "(n, p) \<in> set (by_name svc all) \<Longrightarrow> n = pname p \<and> live_in svc p" using f(2) by blast
  show "map_of (by_name svc all) n = find (\<lambda>p. live_in svc p \<and> pname p = n) (List.rev all)"
    unfolding f(3) by (cases "find (\<lambda>p. live_in svc p \<and> pname p = n) (List.rev all)") simp_all
qed

lemma by_name_inj: "inj_on pname (snd ` set (by_name svc all))"
proof (rule inj_onI)
  fix p q assume "p \<in> snd ` set (by_name svc all)" "q \<in> snd ` set (by_name svc all)" "pname p = pname q"
  then have "(pname p, p) \<in> set (by_name svc all)" "(pname p, q) \<in> set (by_name svc all)"
    using by_name(2) by fastforce+
  then show "p = q"
    using by_name(1) [of svc all] by (meson eq_key_imp_eq_value)
qed

lemma add_named_fold:
  "foldl (add_named m) (att, mis) refs =
     (foldl add_plugin att (List.map_filter (\<lambda>r. m (plr_name r)) refs),
      mis @ map plr_name (filter (\<lambda>r. m (plr_name r) = None) refs))"
  by (induction refs arbitrary: att mis) (auto simp: add_named_def map_filter_simps split: option.splits)

lemma targets_fold:
  "foldl (\<lambda>att (n, p). if Targets L p svc then add_plugin att p else att) att ps
   = foldl add_plugin att (filter (\<lambda>p. Targets L p svc) (map snd ps))"
  by (induction ps arbitrary: att) auto

text \<open>
  The plugins of the map that are attached, either way: \<open>attached_set\<close>.
\<close>

definition attached_set :: "klib \<Rightarrow> service \<Rightarrow> ciplugin list \<Rightarrow> ciplugin set" where
  "attached_set L svc all = {p \<in> snd ` set (by_name svc all). AttachedTo L p svc}"

lemma Resolve_spec:
  assumes "mset (order (by_name svc all)) = mset (by_name svc all)"
    and "Resolve L order svc all = (attached, missing)"
  shows "set attached = attached_set L svc all" and "distinct attached"
    and "sorted (map plugin_key_of attached)"
    and "missing = map plr_name (filter (\<lambda>r. map_of (by_name svc all) (plr_name r) = None)
           (svs_plugins (sv_spec_of svc)))"
proof -
  define m where "m = by_name svc all"
  define named where "named = List.map_filter (\<lambda>r. map_of m (plr_name r)) (svs_plugins (sv_spec_of svc))"
  define att where "att = foldl add_plugin [] (named @ filter (\<lambda>p. Targets L p svc) (map snd (order m)))"
  have set_order: "set (order m) = set m"
    using assms(1) mset_eq_setD unfolding m_def by blast
  have named_sub: "set named \<subseteq> snd ` set m"
  proof
    fix p assume "p \<in> set named"
    then obtain n where "map_of m n = Some p"
      by (auto simp: named_def map_filter_def)
    then show "p \<in> snd ` set m" by (force dest: map_of_SomeD)
  qed
  then have sub: "set (named @ filter (\<lambda>p. Targets L p svc) (map snd (order m))) \<subseteq> snd ` set m"
    using set_order by auto
  have inj: "inj_on pname (set [] \<union> set (named @ filter (\<lambda>p. Targets L p svc) (map snd (order m))))"
    by (rule inj_on_subset [OF by_name_inj [of svc all]]) (use sub in \<open>simp add: m_def\<close>)
  from add_plugin_fold [OF inj] have att: "set att = set named \<union> {p \<in> snd ` set m. Targets L p svc}" "distinct att"
    using set_order by (auto simp: att_def)
  have res: "attached = sort_key plugin_key_of att"
      "missing = map plr_name (filter (\<lambda>r. map_of m (plr_name r) = None) (svs_plugins (sv_spec_of svc)))"
    using assms(2) by (auto simp: Resolve_def Let_def add_named_fold targets_fold m_def named_def att_def)
  have in_named: "p \<in> set named \<longleftrightarrow> p \<in> snd ` set m
      \<and> (\<exists>r\<in>set (svs_plugins (sv_spec_of svc)). plr_name r = pname p)" for p
  proof
    assume p: "p \<in> set named"
    then obtain r where r: "r \<in> set (svs_plugins (sv_spec_of svc))" "map_of m (plr_name r) = Some p"
      by (auto simp: named_def map_filter_def)
    then have "plr_name r = pname p" using by_name(2) map_of_SomeD unfolding m_def by fastforce
    with r p named_sub show "p \<in> snd ` set m
      \<and> (\<exists>r\<in>set (svs_plugins (sv_spec_of svc)). plr_name r = pname p)" by blast
  next
    assume p: "p \<in> snd ` set m \<and> (\<exists>r\<in>set (svs_plugins (sv_spec_of svc)). plr_name r = pname p)"
    then have "(pname p, p) \<in> set m" using by_name(2) unfolding m_def by fastforce
    then have "map_of m (pname p) = Some p" using by_name(1) unfolding m_def by simp
    then show "p \<in> set named" using p by (force simp: named_def map_filter_def)
  qed
  have ns: "p \<in> snd ` set m \<Longrightarrow> m_namespace (sv_meta svc) = m_namespace (pl_meta p)" for p
    using by_name(2) unfolding m_def live_in_def by fastforce
  show "set attached = attached_set L svc all"
    unfolding res(1) attached_set_def set_sort att(1) AttachedTo_def list_ex_iff
    using in_named ns by (auto simp: m_def)
  show "distinct attached" "sorted (map plugin_key_of attached)"
    using att(2) by (simp_all add: res(1))
  show "missing = map plr_name (filter (\<lambda>r. map_of (by_name svc all) (plr_name r) = None)
           (svs_plugins (sv_spec_of svc)))"
    using res(2) by (simp add: m_def)
qed

lemma attached_set_inj: "inj_on plugin_key_of (attached_set L svc all)"
proof -
  have "inj_on pname (attached_set L svc all)"
    by (rule inj_on_subset [OF by_name_inj [of svc all]]) (auto simp: attached_set_def)
  then show ?thesis by (auto simp: inj_on_def plugin_key_of_def)
qed

lemma Resolve_order:
  assumes "mset (order (by_name svc all)) = mset (by_name svc all)"
  shows "Resolve L order svc all = Resolve L id svc all"
proof -
  obtain a m where r: "Resolve L order svc all = (a, m)" by fastforce
  obtain a' m' where r': "Resolve L id svc all = (a', m')" by fastforce
  note s = Resolve_spec [OF assms r]
  have id: "mset (id (by_name svc all)) = mset (by_name svc all)" by simp
  note s' = Resolve_spec [OF id r']
  have "a = a'"
    by (rule sorted_key_list_unique [of plugin_key_of])
      (use s s' attached_set_inj [of L svc all] in auto)
  with s(4) s'(4) r r' show ?thesis by simp
qed

section \<open>registry.go\<close>

definition rendererFor :: "ciplugin \<Rightarrow> gerror + renderer" where
  "rendererFor p =
     (case pls_type (pl_spec_of p) of
        CIPluginSonarQube \<Rightarrow> Inr SonarQube
      | CIPluginCodeQL \<Rightarrow> Inr CodeQL
      | CIPluginCustom \<Rightarrow> Inr Custom
      | CIPluginOther s \<Rightarrow> Inl (errorf (''unknown plugin type '' @ fmt_q s)))"

definition validate_with :: "renderer \<Rightarrow> ciplugin \<Rightarrow> gerror option" where
  "validate_with R p =
     (case r_validate R p of
        Some err \<Rightarrow> Some err
      | None \<Rightarrow>
          if pls_failure_policy (pl_spec_of p) = FailurePolicyIgnore
          then (case r_container R p empty_build_env of
                  Inl err \<Rightarrow> Some err
                | Inr c \<Rightarrow> if k_command c = []
                    then Some (errorf ''failurePolicy Ignore needs an explicit command'') else None)
          else None)"

definition Validate :: "ciplugin \<Rightarrow> gerror option" where
  "Validate p = (case rendererFor p of Inl err \<Rightarrow> Some err | Inr R \<Rightarrow> validate_with R p)"

section \<open>steps.go\<close>

definition ignoreWrapper :: string where
  "ignoreWrapper = [CHR 0x22] @ ''$0'' @ [CHR 0x22] @ '' '' @ [CHR 0x22] @ ''$@'' @ [CHR 0x22] @ '' || echo '' @ [CHR 0x22] @ ''koptan: plugin $KOPTAN_PLUGIN failed with exit $?; ignored (failurePolicy: Ignore)'' @ [CHR 0x22]"

definition ContainerName :: "klib \<Rightarrow> string \<Rightarrow> string" where
  "ContainerName L plugin =
     (let name = containerPrefix @ plugin in
      if length name \<le> 63 then name
      else containerPrefix @ take 47 plugin @ ''-'' @ fmt_x (take 4 (lib_sha256 L plugin)))"

definition commonEnv :: "ciplugin \<Rightarrow> build_env \<Rightarrow> env_var list" where
  "commonEnv p env = [
     env_value ''KOPTAN_PLUGIN'' (m_name (pl_meta p)),
     env_value ''KOPTAN_SERVICE'' (be_service env),
     env_value ''KOPTAN_NAMESPACE'' (be_namespace env),
     env_value ''KOPTAN_REPO'' (be_repo env),
     env_value ''KOPTAN_REVISION'' (be_revision env),
     env_value ''KOPTAN_LANGUAGE'' (be_language env),
     env_value ''WORKSPACE'' WorkspacePath,
     env_value ''CONTEXT_DIR'' (be_context_dir env),
     env_value ''KOPTAN_SOURCE_DIR'' (SourceDir env),
     env_value ''KOPTAN_REPORTS_DIR'' ReportsPath]"

definition finish_step :: "klib \<Rightarrow> renderer \<Rightarrow> ciplugin \<Rightarrow> build_env \<Rightarrow> container \<Rightarrow> container" where
  \<comment> \<open>what \<open>Step\<close> makes of the rendered container\<close>
  "finish_step L R p env c0 =
     (let c = c0\<lparr>k_name := ContainerName L (m_name (pl_meta p)),
                 k_env := commonEnv p env @ k_env c0,
                 k_mounts := k_mounts c0 @ [mount WorkspaceVolume WorkspacePath,
                                            mount ReportsVolume ReportsPath]\<rparr>;
          c = (if k_working_dir c = '''' then c\<lparr>k_working_dir := SourceDir env\<rparr> else c);
          c = c\<lparr>k_resources := r_resources R\<rparr>;
          c = (case pls_resources (pl_spec_of p) of None \<Rightarrow> c | Some rr \<Rightarrow> c\<lparr>k_resources := rr\<rparr>);
          c = c\<lparr>k_term_policy := ''FallbackToLogsOnError''\<rparr>
      in if pls_failure_policy (pl_spec_of p) = FailurePolicyIgnore
         then c\<lparr>k_args := k_command c @ k_args c, k_command := [''sh'', ''-c'', ignoreWrapper]\<rparr>
         else c)"

definition step_with :: "klib \<Rightarrow> renderer \<Rightarrow> ciplugin \<Rightarrow> build_env \<Rightarrow> gerror + container" where
  "step_with L R p env =
     (case r_container R p env of
        Inl err \<Rightarrow> Inl (wrapf (''plugin '' @ m_name (pl_meta p) @ '': '') err)
      | Inr c \<Rightarrow> Inr (finish_step L R p env c))"

definition Step :: "klib \<Rightarrow> ciplugin \<Rightarrow> build_env \<Rightarrow> gerror + container" where
  "Step L p env =
     (case Validate p of
        Some err \<Rightarrow> Inl (wrapf (''plugin '' @ m_name (pl_meta p) @ '': '') err)
      | None \<Rightarrow>
          (case rendererFor p of
             Inl _ \<Rightarrow> Inl nil_dereference  \<comment> \<open>a nil interface: excluded by \<open>Validate\<close>\<close>
           | Inr R \<Rightarrow> step_with L R p env))"

fun Steps :: "klib \<Rightarrow> ciplugin list \<Rightarrow> build_env \<Rightarrow> gerror + container list" where
  "Steps L [] env = Inr []"
| "Steps L (p # ps) env =
     (case Step L p env of
        Inl err \<Rightarrow> Inl err
      | Inr c \<Rightarrow> (case Steps L ps env of Inl err \<Rightarrow> Inl err | Inr cs \<Rightarrow> Inr (c # cs)))"

subsection \<open>What a renderer that keeps its contract makes of a step\<close>

lemma finish_step_simps:
  "k_name (finish_step L R p env c) = ContainerName L (pname p)"
  "k_env (finish_step L R p env c) = commonEnv p env @ k_env c"
  "k_env_from (finish_step L R p env c) = k_env_from c"
  "k_image (finish_step L R p env c) = k_image c"
  "k_mounts (finish_step L R p env c)
     = k_mounts c @ [mount WorkspaceVolume WorkspacePath, mount ReportsVolume ReportsPath]"
  "k_working_dir (finish_step L R p env c)
     = (if k_working_dir c = '''' then SourceDir env else k_working_dir c)"
  "k_command (finish_step L R p env c) = (if pls_failure_policy (pl_spec_of p) = FailurePolicyIgnore
     then [''sh'', ''-c'', ignoreWrapper] else k_command c)"
  "k_args (finish_step L R p env c) = (if pls_failure_policy (pl_spec_of p) = FailurePolicyIgnore
     then k_command c @ k_args c else k_args c)"
  by (simp_all add: finish_step_def Let_def split: option.split)

definition step_mounts :: "volume_mount list" where
  "step_mounts = [mount WorkspaceVolume WorkspacePath, mount ReportsVolume ReportsPath]"

context renderer_contract
begin

lemma validate_no_panic: "validate_with R p = Some err \<Longrightarrow> err_class err \<noteq> ErrPanic"
  using renders [of p empty_build_env] no_panic [of p]
  by (auto simp: validate_with_def split: option.splits if_splits)

lemma step_renders:
  assumes "validate_with R p = None"
  obtains c where "r_container R p env = Inr c" and "step_with L R p env = Inr (finish_step L R p env c)"
    and "k_mounts (finish_step L R p env c) = step_mounts"
    and "pls_failure_policy (pl_spec_of p) = FailurePolicyIgnore \<Longrightarrow> k_command c \<noteq> []"
proof -
  from assms have v: "r_validate R p = None" by (simp add: validate_with_def split: option.splits)
  from renders [OF v] obtain c where c: "r_container R p env = Inr c" by blast
  from renders [OF v] obtain c0 where c0: "r_container R p empty_build_env = Inr c0" by blast
  have "k_command c \<noteq> []" if "pls_failure_policy (pl_spec_of p) = FailurePolicyIgnore"
    using assms v c0 that same_command [OF c c0] by (auto simp: validate_with_def split: if_splits)
  with that [OF c] c plain [OF c] show thesis
    by (simp add: step_with_def finish_step_simps step_mounts_def)
qed

end

lemma rendererFor_cases:
  assumes "rendererFor p = Inr R"
  obtains "R = SonarQube" | "R = CodeQL" | "R = Custom"
  using assms by (auto simp: rendererFor_def split: plugin_type.splits)

lemma rendererFor_contract: "rendererFor p = Inr R \<Longrightarrow> renderer_contract R"
  by (erule rendererFor_cases)
    (simp_all add: sonarqube.renderer_contract_axioms codeql.renderer_contract_axioms
      custom.renderer_contract_axioms)

lemma rendererFor_error: "rendererFor p = Inl err \<Longrightarrow> err_class err = ErrOther"
  by (auto simp: rendererFor_def split: plugin_type.splits)

lemma Validate_no_panic: "Validate p = Some err \<Longrightarrow> err_class err \<noteq> ErrPanic"
  using rendererFor_error renderer_contract.validate_no_panic [OF rendererFor_contract]
  by (fastforce simp: Validate_def split: sum.splits)

lemma Step_rendered:
  assumes "Validate p = None"
  obtains R c where "rendererFor p = Inr R" and "r_container R p env = Inr c"
    and "Step L p env = Inr (finish_step L R p env c)"
    and "k_mounts (finish_step L R p env c) = step_mounts"
    and "pls_failure_policy (pl_spec_of p) = FailurePolicyIgnore \<Longrightarrow> k_command c \<noteq> []"
proof -
  from assms obtain R where R: "rendererFor p = Inr R" "validate_with R p = None"
    by (auto simp: Validate_def split: sum.splits)
  from renderer_contract.step_renders [OF rendererFor_contract [OF R(1)] R(2), of env L]
  obtain c where "r_container R p env = Inr c" "step_with L R p env = Inr (finish_step L R p env c)"
    "k_mounts (finish_step L R p env c) = step_mounts"
    "pls_failure_policy (pl_spec_of p) = FailurePolicyIgnore \<Longrightarrow> k_command c \<noteq> []" by blast
  with that [OF R(1)] R assms show thesis by (simp add: Step_def)
qed

lemma Step_Inr_iff: "(\<exists>c. Step L p env = Inr c) \<longleftrightarrow> Validate p = None"
proof
  assume "\<exists>c. Step L p env = Inr c"
  then show "Validate p = None" by (auto simp: Step_def split: option.splits)
next
  assume "Validate p = None"
  then show "\<exists>c. Step L p env = Inr c" by (rule Step_rendered [where L = L and env = env]) blast
qed

lemma Steps_Inr:
  "Steps L ps env = Inr cs \<longleftrightarrow> list_all2 (\<lambda>p c. Step L p env = Inr c) ps cs"
proof (induction ps arbitrary: cs)
  case (Cons p ps)
  show ?case
  proof (cases "Step L p env")
    case (Inr c)
    then show ?thesis
      by (cases "Steps L ps env"; cases cs) (auto simp: Cons.IH [symmetric])
  qed (cases cs; simp)
qed auto

lemma Steps_ok_iff: "(\<exists>cs. Steps L ps env = Inr cs) \<longleftrightarrow> (\<forall>p\<in>set ps. Validate p = None)"
proof (induction ps)
  case (Cons p ps)
  then show ?case
    using Step_Inr_iff [of L p env] by (auto split: sum.splits)
qed simp

lemma ContainerName_length: "length (ContainerName L plugin) \<le> 63"
  by (auto simp: ContainerName_def Let_def containerPrefix_def)

end
