(* ===== verification/CIBuild.thy ===== *)
theory CIBuild
  imports Plugins Ctrl Notify
begin

text \<open>
  The build Pod of a CI: \<^verbatim>\<open>internal/controller/ci_build.go\<close> and \<^verbatim>\<open>ci_plugins.go\<close>. All of
  it is pure but \<open>pluginSteps\<close>, which reads the plugins. The two scripts are constants: the
  user's input reaches them through the environment of their containers, which the model
  makes visible. The lemmas give the references to Secrets a build Pod makes, where the
  credentials are mounted, the language of registry hosts, and what a Pod's outcome is.
\<close>

section \<open>ci\_build.go: the scripts\<close>

definition gitImage :: string where "gitImage = ''docker.io/alpine/git:2.47.2''"
definition buildahImage :: string where "buildahImage = ''quay.io/buildah/stable:v1.43.0''"
definition dockerfilePath :: string where "dockerfilePath = ''/koptan/dockerfile''"
definition dockerConfigPath :: string where "dockerConfigPath = ''/koptan/auth''"
definition dockerConfigJsonKey :: string where "dockerConfigJsonKey = ''.dockerconfigjson''"

definition cloneScript :: string where
  "cloneScript = unlines_go [
     ''set -eu'',
     ''header='' @ [CHR 0x22, CHR 0x22],
     ''if [ -n '' @ [CHR 0x22] @ ''${GIT_TOKEN:-}'' @ [CHR 0x22] @ '' ]; then'',
     ''  case '' @ [CHR 0x22] @ ''$REPO'' @ [CHR 0x22] @ '' in'',
     ''    https://*) header='' @ [CHR 0x22] @ ''Authorization: Basic $(printf '' @ [CHR 0x27] @ ''x-access-token:%s'' @ [CHR 0x27] @ '' '' @ [CHR 0x22] @ ''$GIT_TOKEN'' @ [CHR 0x22] @ '' | base64 | tr -d '' @ [CHR 0x27, CHR 0x5C] @ ''n'' @ [CHR 0x27] @ '')'' @ [CHR 0x22] @ '' ;;'',
     ''  esac'',
     ''fi'',
     ''fetch() {'',
     ''  if [ -n '' @ [CHR 0x22] @ ''$header'' @ [CHR 0x22] @ '' ]; then'',
     ''    git -c '' @ [CHR 0x22] @ ''http.extraHeader=$header'' @ [CHR 0x22] @ '' fetch -q '' @ [CHR 0x22] @ ''$@'' @ [CHR 0x22],
     ''  else'',
     ''    git fetch -q '' @ [CHR 0x22] @ ''$@'' @ [CHR 0x22],
     ''  fi'',
     ''}'',
     ''git init -q '' @ [CHR 0x22] @ ''$WORKSPACE'' @ [CHR 0x22],
     ''cd '' @ [CHR 0x22] @ ''$WORKSPACE'' @ [CHR 0x22],
     ''git remote add origin '' @ [CHR 0x22] @ ''$REPO'' @ [CHR 0x22],
     ''if ! fetch --depth 1 origin '' @ [CHR 0x22] @ ''$SHA'' @ [CHR 0x22] @ '' 2>/dev/null; then'',
     ''  # Servers that refuse to serve a bare SHA: fetch everything instead.'',
     ''  fetch origin'',
     ''fi'',
     ''git -c advice.detachedHead=false checkout -q --detach '' @ [CHR 0x22] @ ''$SHA'' @ [CHR 0x22],
     '''']"

definition buildScript :: string where
  "buildScript = unlines_go [
     ''set -eu'',
     ''if [ -n '' @ [CHR 0x22] @ ''${INSECURE_REGISTRIES:-}'' @ [CHR 0x22] @ '' ]; then'',
     ''  # Plain-HTTP or self-signed registries the operator admin listed, for'',
     ''  # both pulling FROM images and pushing.'',
     ''  conf_dir='' @ [CHR 0x22] @ ''${REGISTRIES_CONF_DIR:-/etc/containers/registries.conf.d}'' @ [CHR 0x22],
     ''  mkdir -p '' @ [CHR 0x22] @ ''$conf_dir'' @ [CHR 0x22],
     ''  for r in $INSECURE_REGISTRIES; do'',
     ''    printf '' @ [CHR 0x27] @ ''['' @ ''[registry]''  @ '']'' @ [CHR 0x5C] @ ''nlocation = '' @ [CHR 0x22] @ ''%s'' @ [CHR 0x22, CHR 0x5C] @ ''ninsecure = true'' @ [CHR 0x5C] @ ''n'' @ [CHR 0x5C] @ ''n'' @ [CHR 0x27] @ '' '' @ [CHR 0x22] @ ''$r'' @ [CHR 0x22],
     ''  done > '' @ [CHR 0x22] @ ''$conf_dir/50-koptan-insecure.conf'' @ [CHR 0x22],
     ''fi'',
     ''context='' @ [CHR 0x22] @ ''$WORKSPACE/${CONTEXT_DIR:-.}'' @ [CHR 0x22],
     ''if [ -f '' @ [CHR 0x22] @ ''$DOCKERFILE_DIR/.dockerignore'' @ [CHR 0x22] @ '' ] && [ ! -e '' @ [CHR 0x22] @ ''$context/.dockerignore'' @ [CHR 0x22] @ '' ]; then'',
     ''  cp '' @ [CHR 0x22] @ ''$DOCKERFILE_DIR/.dockerignore'' @ [CHR 0x22] @ '' '' @ [CHR 0x22] @ ''$context/.dockerignore'' @ [CHR 0x22],
     ''fi'',
     ''buildah --storage-driver vfs build --isolation chroot '' @ [CHR 0x5C],
     ''  -f '' @ [CHR 0x22] @ ''$DOCKERFILE_DIR/Dockerfile'' @ [CHR 0x22] @ '' -t '' @ [CHR 0x22] @ ''$IMAGE'' @ [CHR 0x22] @ '' '' @ [CHR 0x22] @ ''$context'' @ [CHR 0x22],
     ''if [ -f '' @ [CHR 0x22] @ ''$AUTH_DIR/config.json'' @ [CHR 0x22] @ '' ]; then'',
     ''  buildah --storage-driver vfs push --authfile '' @ [CHR 0x22] @ ''$AUTH_DIR/config.json'' @ [CHR 0x22] @ '' '' @ [CHR 0x22] @ ''$IMAGE'' @ [CHR 0x22],
     ''else'',
     ''  buildah --storage-driver vfs push '' @ [CHR 0x22] @ ''$IMAGE'' @ [CHR 0x22],
     ''fi'',
     '''']"

section \<open>ci\_build.go: insecure registries\<close>

definition registryHostRe :: rexp where
  \<comment> \<open>\<^verbatim>\<open>^[A-Za-z0-9]([A-Za-z0-9.-]*[A-Za-z0-9])?(:[0-9]{1,5})?$\<close>\<close>
  "registryHostRe =
     Sq (Cls is_alnum)
      (Sq (Opt (Sq (Many (Cls (\<lambda>c. is_alnum c \<or> c = CHR ''.'' \<or> c = CHR ''-''))) (Cls is_alnum)))
       (Opt (Sq (Chr CHR '':'') (Sq (Cls is_digit) (upto_times 4 (Cls is_digit))))))"

fun registry_hosts :: "string list \<Rightarrow> gerror + string list" where
  "registry_hosts [] = Inr []"
| "registry_hosts (h # hs) =
     (let h = trim_space h in
      if h = '''' then registry_hosts hs
      else if \<not> full_match registryHostRe h
      then Inl (errorf (''insecure registry '' @ fmt_q h @ '': want host or host:port''))
      else (case registry_hosts hs of Inl err \<Rightarrow> Inl err | Inr rest \<Rightarrow> Inr (h # rest)))"

definition ParseInsecureRegistries :: "string \<Rightarrow> gerror + string list" where
  "ParseInsecureRegistries lst = registry_hosts (split_on CHR '','' lst)"

definition allowInsecure :: "pod \<Rightarrow> string list \<Rightarrow> pod" where
  "allowInsecure x hosts =
     (if hosts = [] then x
      else x\<lparr>pod_spec_of := (pod_spec_of x)\<lparr>ps_containers :=
        map (\<lambda>c. if k_name c = ''build-push''
                 then c\<lparr>k_env := k_env c @ [env_value ''INSECURE_REGISTRIES'' (join hosts '' '')]\<rparr> else c)
          (ps_containers (pod_spec_of x))\<rparr>\<rparr>)"

section \<open>ci\_build.go: the Pod\<close>

definition imageRef :: "ci \<Rightarrow> string \<Rightarrow> string" where
  "imageRef x sha =
     (let registry = trim_suffix (rs_registry (cis_registry (ci_spec_of x))) ''/'';
          repo = trim_set (rs_repo (cis_registry (ci_spec_of x))) ''/''
      in registry @ ''/'' @ repo @ '':'' @ short_rev sha)"

definition config_map_volume :: "string \<Rightarrow> string \<Rightarrow> volume" where
  "config_map_volume n cm = \<lparr>v_name = n, v_empty_dir = False, v_config_map = Some cm, v_secret = None,
     v_projected = None\<rparr>"

definition auth_volume :: "string \<Rightarrow> volume" where
  "auth_volume s = \<lparr>v_name = ''auth'', v_empty_dir = False, v_config_map = None,
     v_secret = Some \<lparr>sv_name = s, sv_items = [(dockerConfigJsonKey, ''config.json'')], sv_optional = None\<rparr>,
     v_projected = None\<rparr>"

definition build_volumes :: "ci \<Rightarrow> string \<Rightarrow> volume list" where
  "build_volumes x docker_cfg =
     [empty_dir_volume WorkspaceVolume, empty_dir_volume ReportsVolume,
      config_map_volume ''dockerfile'' (cis_dockerfile_config_map (ci_spec_of x))]
     @ (if docker_cfg \<noteq> '''' then [auth_volume docker_cfg] else [])"

definition build_mounts :: "string \<Rightarrow> volume_mount list" where
  "build_mounts docker_cfg =
     [mount ''workspace'' WorkspacePath, mount_ro ''dockerfile'' dockerfilePath]
     @ (if docker_cfg \<noteq> '''' then [mount_ro ''auth'' dockerConfigPath] else [])"

definition token_ref :: "secret_key_ref \<Rightarrow> secret_key_ref" where
  \<comment> \<open>the selector built from \<^verbatim>\<open>spec.source.secretRef\<close>: its name, its key or \<^verbatim>\<open>token\<close>\<close>
  "token_ref r = \<lparr>sk_name = sk_name r, sk_key = (if sk_key r = '''' then ''token'' else sk_key r),
     sk_optional = None\<rparr>"

definition clone_env :: "service \<Rightarrow> string \<Rightarrow> env_var list" where
  "clone_env svc sha =
     [env_value ''REPO'' (src_repo (svs_source (sv_spec_of svc))), env_value ''SHA'' sha,
      env_value ''WORKSPACE'' WorkspacePath]
     @ (case src_secret_ref (svs_source (sv_spec_of svc)) of None \<Rightarrow> []
        | Some r \<Rightarrow> [env_from_secret ''GIT_TOKEN'' (token_ref r)])"

definition clone_container :: "service \<Rightarrow> string \<Rightarrow> container" where
  "clone_container svc sha = empty_container\<lparr>
     k_name := ''clone'', k_image := gitImage, k_command := [''sh'', ''-c'', cloneScript],
     k_env := clone_env svc sha, k_mounts := [mount ''workspace'' WorkspacePath],
     k_term_policy := ''FallbackToLogsOnError'',
     k_resources := resource_requirements ''50m'' ''64Mi'' ''500m'' ''256Mi''\<rparr>"

definition build_container :: "ci \<Rightarrow> string \<Rightarrow> string \<Rightarrow> container" where
  "build_container x img docker_cfg = empty_container\<lparr>
     k_name := ''build-push'', k_image := buildahImage, k_command := [''sh'', ''-c'', buildScript],
     k_env := [env_value ''IMAGE'' img, env_value ''WORKSPACE'' WorkspacePath,
               env_value ''DOCKERFILE_DIR'' dockerfilePath,
               env_value ''CONTEXT_DIR'' (cis_context_dir (ci_spec_of x)),
               env_value ''AUTH_DIR'' dockerConfigPath],
     k_mounts := build_mounts docker_cfg,
     k_term_policy := ''FallbackToLogsOnError'',
     k_resources := resource_requirements ''500m'' ''512Mi'' ''2'' ''4Gi''\<rparr>"

definition extra_step :: "container \<Rightarrow> container" where
  "extra_step c = c\<lparr>k_mounts := k_mounts c @ [mount ''workspace'' WorkspacePath]\<rparr>"

definition buildPod :: "ci \<Rightarrow> service \<Rightarrow> string \<Rightarrow> string \<Rightarrow> string \<Rightarrow> container list \<Rightarrow> pod" where
  "buildPod x svc sha img docker_cfg steps = \<lparr>
     pod_meta = (fresh_meta '''' (m_namespace (ci_meta x)))\<lparr>
       m_generate_name := m_name (ci_meta x) @ ''-build-'',
       m_labels := [labelCI \<mapsto> m_name (ci_meta x), labelService \<mapsto> m_name (sv_meta svc),
                    labelRevision \<mapsto> short_rev sha]\<rparr>,
     pod_spec_of = empty_pod_spec\<lparr>
       ps_restart := ''Never'',
       ps_init := [clone_container svc sha] @ map extra_step (cis_extra_steps (ci_spec_of x)) @ steps,
       ps_containers := [build_container x img docker_cfg],
       ps_volumes := build_volumes x docker_cfg\<rparr>,
     pod_status_of = empty_pod_status\<rparr>"

section \<open>ci\_build.go: registry credentials\<close>

definition b64_digit :: "nat \<Rightarrow> char" where
  "b64_digit n = (if n < 26 then char_of (65 + n) else if n < 52 then char_of (71 + n)
     else if n < 62 then char_of (n - 4) else if n = 62 then CHR ''+'' else CHR ''/'')"

fun base64 :: "nat list \<Rightarrow> string" where
  "base64 [] = []"
| "base64 [a] = [b64_digit (a div 4), b64_digit (a mod 4 * 16), CHR ''='', CHR ''='']"
| "base64 [a, b] = [b64_digit (a div 4), b64_digit (a mod 4 * 16 + b div 16), b64_digit (b mod 16 * 4), CHR ''='']"
| "base64 (a # b # c # bs) = [b64_digit (a div 4), b64_digit (a mod 4 * 16 + b div 16),
     b64_digit (b mod 16 * 4 + c div 64), b64_digit (c mod 64)] @ base64 bs"

definition buildDockerConfigJSON :: "string \<Rightarrow> string \<Rightarrow> string \<Rightarrow> string" where
  \<comment> \<open>\<^verbatim>\<open>json.Marshal\<close> sorts the keys of a map and does not fail on strings\<close>
  "buildDockerConfigJSON registry username password =
     (let auth = base64 (map of_char (username @ '':'' @ password)) in
      json_bytes (JObj [(''auths'', JObj [(registry, JObj [
        (''auth'', JStr auth), (''password'', JStr password), (''username'', JStr username)])])]))"

section \<open>ci\_build.go: the outcome of a Pod\<close>

definition ellipsis :: string where
  "ellipsis = [CHR 0xE2, CHR 0x80, CHR 0xA6]"

definition failure_detail :: "terminated \<Rightarrow> string" where
  "failure_detail t =
     (let detail = trim_space (t_message t);
          detail = (if detail = '''' then t_reason t else detail)
      in if length detail > 1500 then ellipsis @ drop (length detail - 1500) detail else detail)"

fun first_failure :: "string \<Rightarrow> container_status list \<Rightarrow> string" where
  \<comment> \<open>the loop of \<^verbatim>\<open>podResult\<close> over a failed Pod's containers\<close>
  "first_failure msg [] = msg"
| "first_failure msg (c # cs) =
     (case cs_terminated c of
        Some t \<Rightarrow> if t_exit t \<noteq> 0
          then cs_name c @ '' failed (exit '' @ fmt_d (t_exit t) @ ''): '' @ failure_detail t
          else first_failure msg cs
      | None \<Rightarrow> first_failure msg cs)"

fun last_waiting :: "string \<Rightarrow> container_status list \<Rightarrow> string" where
  \<comment> \<open>the loop of \<^verbatim>\<open>podResult\<close> over an unfinished Pod's containers\<close>
  "last_waiting msg [] = msg"
| "last_waiting msg (c # cs) =
     last_waiting
       (case cs_waiting c of
          Some w \<Rightarrow> if w_reason w \<noteq> '''' \<and> w_reason w \<noteq> ''PodInitializing''
            then cs_name c @ '': '' @ w_reason w @ (if w_message w \<noteq> '''' then '': '' @ w_message w else '''')
            else msg
        | None \<Rightarrow> msg) cs"

definition podResult :: "pod \<Rightarrow> ci_phase \<times> string \<times> bool" where
  "podResult x =
     (let st = pod_status_of x; statuses = pst_init st @ pst_containers st in
      case pst_phase st of
        PodSucceeded \<Rightarrow> (CIPhaseSucceeded, ''build succeeded'', True)
      | PodFailed \<Rightarrow>
          let msg = (if pst_message st \<noteq> '''' then pst_message st else ''build pod failed'')
          in (CIPhaseFailed, first_failure msg statuses, True)
      | _ \<Rightarrow>
          let msg = (if pst_phase st = PodRunning then ''building'' else ''build pod pending'')
          in (CIPhaseBuilding, last_waiting msg statuses, False))"

section \<open>ci\_plugins.go\<close>

definition maxPluginMessage :: nat where "maxPluginMessage = 500"

fun get_plugins :: "env \<Rightarrow> string \<Rightarrow> ciplugin list \<Rightarrow> ciplugin_ref list \<Rightarrow> (gerror + ciplugin list) io" where
  "get_plugins E ns ps [] = ret (Inr ps)"
| "get_plugins E ns ps (r # rs) = do {
     p \<leftarrow> k_get E ciplugins (ns, pr_name r);
     (case p of
        Inl err \<Rightarrow> ret (Inl (wrapf (''CIPlugin '' @ pr_name r @ '': '') err))
      | Inr p \<Rightarrow> get_plugins E ns (ps @ [p]) rs)
   }"

definition build_env_of :: "ci \<Rightarrow> service \<Rightarrow> string \<Rightarrow> build_env" where
  "build_env_of x svc sha =
     (let lang = label (ci_meta x) labelLanguage;
          lang = (if lang = '''' then svst_service_type (sv_status_of svc) else lang)
      in \<lparr>be_service = m_name (sv_meta svc), be_namespace = m_namespace (ci_meta x),
          be_repo = src_repo (svs_source (sv_spec_of svc)), be_revision = sha, be_language = lang,
          be_context_dir = cis_context_dir (ci_spec_of x)\<rparr>)"

definition pluginSteps :: "env \<Rightarrow> klib \<Rightarrow> ci \<Rightarrow> service \<Rightarrow> string \<Rightarrow> (gerror + container list) io" where
  "pluginSteps E L x svc sha =
     (if cis_plugins (ci_spec_of x) = [] then ret (Inr [])
      else do {
        r \<leftarrow> get_plugins E (m_namespace (ci_meta x)) [] (cis_plugins (ci_spec_of x));
        ret (case r of Inl err \<Rightarrow> Inl err | Inr ps \<Rightarrow> Steps L ps (build_env_of x svc sha))
      })"

definition pendingPluginResults :: "ci \<Rightarrow> plugin_result list" where
  "pendingPluginResults x =
     map (\<lambda>r. \<lparr>pres_name = pr_name r, pres_phase = PluginPhasePending, pres_message = ''''\<rparr>)
       (cis_plugins (ci_spec_of x))"

definition tail_of :: "string \<Rightarrow> nat \<Rightarrow> string" where
  "tail_of s n = (let s = trim_space s in if length s \<le> n then s else ellipsis @ drop (length s - n) s)"

fun firstNonEmpty :: "string list \<Rightarrow> string" where
  "firstNonEmpty [] = ''''"
| "firstNonEmpty (v # vs) = (if v \<noteq> '''' then v else firstNonEmpty vs)"

definition plugin_result_of :: "string \<Rightarrow> container_status option \<Rightarrow> plugin_result" where
  "plugin_result_of name st =
     (case st of
        None \<Rightarrow> \<lparr>pres_name = name, pres_phase = PluginPhasePending, pres_message = ''''\<rparr>
      | Some s \<Rightarrow>
          (case cs_terminated s of
             Some t \<Rightarrow>
               if t_exit t = 0
               then \<lparr>pres_name = name, pres_phase = PluginPhaseSucceeded,
                     pres_message = tail_of (t_message t) maxPluginMessage\<rparr>
               else \<lparr>pres_name = name, pres_phase = PluginPhaseFailed,
                     pres_message = ''exit '' @ fmt_d (t_exit t) @ '': ''
                       @ tail_of (firstNonEmpty [t_message t, t_reason t]) maxPluginMessage\<rparr>
           | None \<Rightarrow>
               if cs_running s then \<lparr>pres_name = name, pres_phase = PluginPhaseRunning, pres_message = ''''\<rparr>
               else (case cs_waiting s of
                   Some w \<Rightarrow> \<lparr>pres_name = name, pres_phase = PluginPhasePending,
                     pres_message = (if w_reason w \<noteq> ''PodInitializing'' then w_reason w else '''')\<rparr>
                 | None \<Rightarrow> \<lparr>pres_name = name, pres_phase = PluginPhasePending, pres_message = ''''\<rparr>)))"

definition pluginResults :: "klib \<Rightarrow> ci \<Rightarrow> pod \<Rightarrow> plugin_result list" where
  \<comment> \<open>\<^verbatim>\<open>statuses\<close> is a map by container name: a later status of a name replaces an earlier one\<close>
  "pluginResults L x p =
     (let statuses = map_of (List.rev (map (\<lambda>s. (cs_name s, s)) (pst_init (pod_status_of p))))
      in map (\<lambda>r. plugin_result_of (pr_name r) (statuses (ContainerName L (pr_name r))))
           (cis_plugins (ci_spec_of x)))"

section \<open>Registry hosts\<close>

definition host_char :: "char \<Rightarrow> bool" where
  "host_char c \<longleftrightarrow> is_alnum c \<or> c = CHR ''.'' \<or> c = CHR ''-'' \<or> c = CHR '':''"

lemma registryHostRe_chars:
  assumes "full_match registryHostRe h"
  shows "h \<noteq> [] \<and> is_alnum (hd h) \<and> list_all host_char h"
proof -
  have lang: "h \<in> language registryHostRe" using assms by (simp add: full_match_iff)
  then obtain c t where h: "h = c # t" "is_alnum c"
    by (cases h) (auto simp: registryHostRe_def sq_cls_Nil sq_cls_Cons simp del: language.simps)
  have "over host_char registryHostRe"
    by (auto simp: registryHostRe_def host_char_def is_alnum_def numeral_eq_Suc)
  from over_language [OF this lang] h show ?thesis by simp
qed

lemma registry_hosts_ok:
  "registry_hosts hs = Inr out \<Longrightarrow> h \<in> set out \<Longrightarrow> full_match registryHostRe h \<and> h \<in> trim_space ` set hs"
  by (induction hs arbitrary: out) (auto simp: Let_def split: if_splits sum.splits)

section \<open>The references of a build Pod to Secrets\<close>

lemma refs_of_values [simp]:
  "env_refs [] = []" "env_refs (env_value n v # es) = env_refs es"
  "env_refs (env_from_secret n r # es) = (sk_name r, sk_optional r) # env_refs es"
  "env_refs (es1 @ es2) = env_refs es1 @ env_refs es2"
  by (simp_all add: env_refs_def env_value_def env_from_secret_def)

lemma container_refs_empty [simp]:
  "env_from_refs [] = []" "k_env_from empty_container = []"
  by (simp_all add: env_from_refs_def empty_container_def)

lemma refs_clone:
  "container_refs (clone_container svc sha) =
     (case src_secret_ref (svs_source (sv_spec_of svc)) of None \<Rightarrow> [] | Some r \<Rightarrow> [(sk_name r, None)])"
  by (simp add: container_refs_def clone_container_def clone_env_def token_ref_def split: option.split)

lemma refs_build: "container_refs (build_container x img docker_cfg) = []"
  by (simp add: container_refs_def build_container_def)

lemma refs_extra: "container_refs (extra_step c) = container_refs c"
  by (simp add: container_refs_def extra_step_def)

lemma refs_volumes:
  "concat (map volume_refs (build_volumes x docker_cfg)) = (if docker_cfg \<noteq> '''' then [(docker_cfg, None)] else [])"
  by (simp add: build_volumes_def volume_refs_def empty_dir_volume_def config_map_volume_def auth_volume_def)

lemma refs_buildPod:
  "pod_secret_refs (pod_spec_of (buildPod x svc sha img docker_cfg steps)) =
     (case src_secret_ref (svs_source (sv_spec_of svc)) of None \<Rightarrow> [] | Some r \<Rightarrow> [(sk_name r, None)])
     @ concat (map container_refs (cis_extra_steps (ci_spec_of x))) @ concat (map container_refs steps)
     @ (if docker_cfg \<noteq> '''' then [(docker_cfg, None)] else [])"
  by (simp add: pod_secret_refs_def buildPod_def refs_clone refs_build refs_volumes empty_pod_spec_def
      refs_extra comp_def)

lemma allowInsecure_simps [simp]:
  "pod_meta (allowInsecure x hosts) = pod_meta x"
  "ps_init (pod_spec_of (allowInsecure x hosts)) = ps_init (pod_spec_of x)"
  "ps_volumes (pod_spec_of (allowInsecure x hosts)) = ps_volumes (pod_spec_of x)"
  "ps_pull_secrets (pod_spec_of (allowInsecure x hosts)) = ps_pull_secrets (pod_spec_of x)"
  by (simp_all add: allowInsecure_def)

lemma refs_allowInsecure:
  "pod_secret_refs (pod_spec_of (allowInsecure x hosts)) = pod_secret_refs (pod_spec_of x)"
proof -
  have "concat (map container_refs (ps_containers (pod_spec_of (allowInsecure x hosts))))
      = concat (map container_refs (ps_containers (pod_spec_of x)))"
    by (simp add: allowInsecure_def comp_def container_refs_def)
      (intro impI arg_cong [of _ _ concat] map_cong refl, simp add: container_refs_def)
  then show ?thesis by (simp add: pod_secret_refs_def)
qed

section \<open>Outcomes\<close>

lemma podResult_phase:
  "podResult x = (phase, msg, fin) \<Longrightarrow>
     (fin \<longleftrightarrow> pst_phase (pod_status_of x) \<in> {PodSucceeded, PodFailed})
   \<and> (phase = CIPhaseSucceeded \<longleftrightarrow> pst_phase (pod_status_of x) = PodSucceeded)
   \<and> (phase = CIPhaseFailed \<longleftrightarrow> pst_phase (pod_status_of x) = PodFailed)"
  by (auto simp: podResult_def Let_def split: pod_phase.splits)

lemma first_failure_spec:
  "first_failure msg cs =
     (case find (\<lambda>c. case cs_terminated c of Some t \<Rightarrow> t_exit t \<noteq> 0 | None \<Rightarrow> False) cs of
        None \<Rightarrow> msg
      | Some c \<Rightarrow> (case cs_terminated c of None \<Rightarrow> msg
          | Some t \<Rightarrow> cs_name c @ '' failed (exit '' @ fmt_d (t_exit t) @ ''): '' @ failure_detail t))"
  by (induction cs) (auto split: option.splits)

end
