(* ===== verification/CICtrl.thy ===== *)
theory CICtrl
  imports CIBuild
begin

text \<open>
  \<^verbatim>\<open>internal/controller/ci_controller.go\<close>: the CI reconciler. It builds spec.revision in a
  Pod, follows the Pod, records the outcome and then creates or updates the CD. The theory
  holds the reconciler (\<open>ci_reconcile\<close> and the functions it calls, in the source's order
  of calls) and the facts about single steps of its status; theory \<open>CIProofs\<close> proves what a
  whole run may do.
\<close>

text \<open>
  The reconciler's fields. \<open>cr_api_reader\<close> says whether an \<^verbatim>\<open>APIReader\<close> is set; without one
  the reads around the cache go to the client.
\<close>

record ci_reconciler =
  cr_policy :: secret_policy
  cr_api_reader :: bool
  cr_insecure :: "string list"

section \<open>service\_status.go and service\_sync.go: the fields a Service owns in its CD\<close>

definition servicePort :: "service \<Rightarrow> int" where
  "servicePort svc = (if svs_port (sv_spec_of svc) \<noteq> 0 then svs_port (sv_spec_of svc) else defaultPort)"

definition applyServiceToCD :: "service \<Rightarrow> cd \<Rightarrow> cd" where
  "applyServiceToCD svc d = d\<lparr>cd_spec_of := (cd_spec_of d)\<lparr>
     cds_replicas := (case svs_replicas (sv_spec_of svc) of None \<Rightarrow> 1 | Some n \<Rightarrow> n),
     cds_env := svs_env (sv_spec_of svc),
     cds_port := servicePort svc\<rparr>\<rparr>"

section \<open>Status setters\<close>

definition setCIPhase :: "klib \<Rightarrow> time \<Rightarrow> ci \<Rightarrow> ci_phase \<Rightarrow> string \<Rightarrow> ci" where
  "setCIPhase L t x phase msg = x\<lparr>ci_status_of := (ci_status_of x)\<lparr>
     cst_phase := phase, cst_message := msg,
     cst_conditions := lib_set_condition L t
       (new_condition ''Ready'' ConditionUnknown (ci_phase_string phase) msg) (cst_conditions (ci_status_of x))\<rparr>\<rparr>"

definition markCIFailed :: "klib \<Rightarrow> time \<Rightarrow> ci \<Rightarrow> string \<Rightarrow> string \<Rightarrow> ci" where
  "markCIFailed L t x reason msg = x\<lparr>ci_status_of := (ci_status_of x)\<lparr>
     cst_phase := CIPhaseFailed, cst_message := msg,
     cst_observed_generation := m_generation (ci_meta x),
     cst_conditions := lib_set_condition L t (new_condition ''Ready'' ConditionFalse reason msg)
       (lib_set_condition L t (new_condition ''BuildSucceeded'' ConditionFalse reason msg)
         (cst_conditions (ci_status_of x)))\<rparr>\<rparr>"

definition reject_build :: "klib \<Rightarrow> time \<Rightarrow> ci \<Rightarrow> string \<Rightarrow> string \<Rightarrow> ci" where
  \<comment> \<open>\<^verbatim>\<open>markCIFailed\<close> with the revision, and the generation, recorded as handled\<close>
  "reject_build L t x reason msg = (let x = markCIFailed L t x reason msg in
     x\<lparr>ci_status_of := (ci_status_of x)\<lparr>cst_building_revision := cis_revision (ci_spec_of x),
        cst_observed_generation := m_generation (ci_meta x)\<rparr>\<rparr>)"

definition block_build :: "klib \<Rightarrow> time \<Rightarrow> ci \<Rightarrow> string \<Rightarrow> ci" where
  \<comment> \<open>the Pod could not be created: the generation observed before is kept\<close>
  "block_build L t x msg = (let gen = cst_observed_generation (ci_status_of x);
       x = markCIFailed L t x ''PodCreateFailed'' msg in
     x\<lparr>ci_status_of := (ci_status_of x)\<lparr>cst_observed_generation := gen\<rparr>\<rparr>)"

definition start_build :: "klib \<Rightarrow> time \<Rightarrow> ci \<Rightarrow> string \<Rightarrow> string \<Rightarrow> ci" where
  "start_build L t x img pod_name =
     setCIPhase L t (x\<lparr>ci_status_of := (ci_status_of x)\<lparr>cst_build_pod := pod_name,
        cst_plugin_results := pendingPluginResults x,
        cst_building_revision := cis_revision (ci_spec_of x),
        cst_observed_generation := m_generation (ci_meta x)\<rparr>\<rparr>)
      CIPhaseBuilding (''Building '' @ img @ '' in pod '' @ pod_name)"

definition succeed_build :: "klib \<Rightarrow> time \<Rightarrow> ci \<Rightarrow> string \<Rightarrow> string \<Rightarrow> ci" where
  "succeed_build L t x img sha = x\<lparr>ci_status_of := (ci_status_of x)\<lparr>
     cst_phase := CIPhaseSucceeded, cst_image := img, cst_revision := sha, cst_build_time := Some t,
     cst_build_count := wrap64 (cst_build_count (ci_status_of x) + 1), cst_message := ''build succeeded'',
     cst_conditions := lib_set_condition L t (new_condition ''Ready'' ConditionTrue ''Succeeded'' ''build succeeded'')
       (lib_set_condition L t (new_condition ''BuildSucceeded'' ConditionTrue ''BuildCompleted'' (''Image '' @ img))
         (cst_conditions (ci_status_of x)))\<rparr>\<rparr>"

definition with_plugin_results :: "klib \<Rightarrow> ci \<Rightarrow> pod \<Rightarrow> ci" where
  "with_plugin_results L x p = x\<lparr>ci_status_of := (ci_status_of x)\<lparr>cst_plugin_results := pluginResults L x p\<rparr>\<rparr>"

section \<open>The steps of a reconcile\<close>

definition validateBuild :: "klib \<Rightarrow> ci \<Rightarrow> service \<Rightarrow> gerror option" where
  "validateBuild L x svc =
     (case validate_git_url L (src_repo (svs_source (sv_spec_of svc))) of
        Some err \<Rightarrow> Some err
      | None \<Rightarrow>
          if \<not> is_sha (cis_revision (ci_spec_of x))
          then Some (errorf (''spec.revision must be a full commit SHA, got '' @ fmt_q (cis_revision (ci_spec_of x))))
          else if rs_registry (cis_registry (ci_spec_of x)) = '''' \<or> rs_repo (cis_registry (ci_spec_of x)) = ''''
          then Some (errorf ''spec.image.registry and spec.image.repo are required'')
          else validate_rel_path ''spec.contextDir'' (cis_context_dir (ci_spec_of x)))"

definition ci_owner :: "ci \<Rightarrow> owner_ref" where
  "ci_owner x = \<lparr>or_kind = ''CI'', or_name = m_name (ci_meta x), or_uid = m_uid (ci_meta x)\<rparr>"

definition registry_secret_object :: "klib \<Rightarrow> ci \<Rightarrow> string \<Rightarrow> secret \<Rightarrow> gerror + secret" where
  \<comment> \<open>the mutate function of \<^verbatim>\<open>registrySecret\<close>\<close>
  "registry_secret_object L x cfg s =
     (case lib_set_controller L (ci_owner x) ((sec_meta s)\<lparr>m_labels := [label_credentials \<mapsto> ''true'']\<rparr>) of
        Inl err \<Rightarrow> Inl err
      | Inr m \<Rightarrow> Inr \<lparr>sec_meta = m, sec_type = ''kubernetes.io/dockerconfigjson'',
          sec_data = [dockerConfigJsonKey \<mapsto> cfg]\<rparr>)"

definition registrySecret :: "env \<Rightarrow> klib \<Rightarrow> ci_reconciler \<Rightarrow> ci \<Rightarrow> (gerror + string) io" where
  "registrySecret E L R x =
     (let rs = cis_registry (ci_spec_of x); name = rs_credentials_secret rs; ns = m_namespace (ci_meta x) in
      if name \<noteq> '''' then do {
        s \<leftarrow> get_secret (cr_policy R) (k_get E secrets) ns name;
        ret (case s of
            Inl err \<Rightarrow> Inl (wrapf ''registry credentials: '' err)
          | Inr s \<Rightarrow> if sec_data s dockerConfigJsonKey = None
              then Inl (errorf (''secret '' @ fmt_q name @ '' has no '' @ dockerConfigJsonKey
                @ '' key (type kubernetes.io/dockerconfigjson expected)''))
              else Inr name)
      }
      else (case rs_creds rs of
          None \<Rightarrow> ret (Inr '''')
        | Some creds \<Rightarrow> do {
            s \<leftarrow> create_or_update E secrets
              \<lparr>sec_meta = fresh_meta (m_name (ci_meta x) @ ''-registry'') ns, sec_type = '''', sec_data = Map.empty\<rparr>
              (registry_secret_object L x
                (buildDockerConfigJSON (rs_registry rs) (ls_username creds) (ls_password creds)));
            ret (case s of Inl err \<Rightarrow> Inl err | Inr s \<Rightarrow> Inr (m_name (sec_meta s)))
          }))"

definition deleteBuildPods :: "env \<Rightarrow> ci \<Rightarrow> gerror option io" where
  "deleteBuildPods E x = do {
     r \<leftarrow> k_delete_all E pods (m_namespace (ci_meta x)) labelCI (m_name (ci_meta x));
     ret (case r of Inl err \<Rightarrow> ignore_not_found err | Inr _ \<Rightarrow> None)
   }"

definition resolveService :: "env \<Rightarrow> ci \<Rightarrow> (gerror + service) io" where
  "resolveService E x = k_get E services (m_namespace (ci_meta x), ref_name (cis_service (ci_spec_of x)))"

definition default_resources :: cd_resources where
  "default_resources = \<lparr>cdr_cpu_request = Some ''100m'', cdr_cpu_limit = Some ''500m'',
     cdr_memory_request = Some ''128Mi'', cdr_memory_limit = Some ''256Mi''\<rparr>"

definition cd_object :: "klib \<Rightarrow> ci \<Rightarrow> service \<Rightarrow> cd \<Rightarrow> gerror + cd" where
  \<comment> \<open>the mutate function of \<^verbatim>\<open>ensureCD\<close>\<close>
  "cd_object L x svc d =
     (let rs = cis_registry (ci_spec_of x);
          d = d\<lparr>cd_meta := (cd_meta d)\<lparr>m_labels := (m_labels (cd_meta d))(labelService \<mapsto> m_name (sv_meta svc),
                  labelCI \<mapsto> m_name (ci_meta x))\<rparr>,
                cd_spec_of := (cd_spec_of d)\<lparr>cds_ci := \<lparr>ref_name = m_name (ci_meta x)\<rparr>,
                  cds_image_pull_secret :=
                    (if rs_credentials_secret rs = '''' \<and> rs_creds rs \<noteq> None
                     then m_name (ci_meta x) @ ''-registry'' else rs_credentials_secret rs)\<rparr>\<rparr>;
          d = applyServiceToCD svc d;
          d = (case cds_resources (cd_spec_of d) of
                 None \<Rightarrow> d\<lparr>cd_spec_of := (cd_spec_of d)\<lparr>cds_resources := Some default_resources\<rparr>\<rparr>
               | Some _ \<Rightarrow> d)
      in (case lib_get_controller L (cd_meta d) of
            Some _ \<Rightarrow> Inr d
          | None \<Rightarrow> (case lib_set_controller L (ci_owner x) (cd_meta d) of
              Inl err \<Rightarrow> Inl err | Inr m \<Rightarrow> Inr (d\<lparr>cd_meta := m\<rparr>))))"

definition empty_cd :: "string \<Rightarrow> string \<Rightarrow> cd" where
  "empty_cd name ns = \<lparr>cd_meta = fresh_meta name ns,
     cd_spec_of = \<lparr>cds_ci = \<lparr>ref_name = ''''\<rparr>, cds_replicas = 0, cds_env = [], cds_resources = None,
       cds_port = 0, cds_image_pull_secret = ''''\<rparr>,
     cd_status_of = \<lparr>cdst_phase = CDPhaseUnset, cdst_revision = '''', cdst_image = '''', cdst_message = '''',
       cdst_available_replicas = 0, cdst_conditions = []\<rparr>\<rparr>"

definition ensureCD :: "env \<Rightarrow> klib \<Rightarrow> ci \<Rightarrow> service \<Rightarrow> gerror option io" where
  "ensureCD E L x svc = do {
     r \<leftarrow> create_or_update E cds (empty_cd (m_name (sv_meta svc) @ ''-cd'') (m_namespace (ci_meta x))) (cd_object L x svc);
     ret (err_of r)
   }"

definition api_get :: "env \<Rightarrow> ci_reconciler \<Rightarrow> 'o kind \<Rightarrow> nsname \<Rightarrow> (gerror + 'o) io" where
  "api_get E R K key = (if cr_api_reader R then k_read E K key else k_get E K key)"

definition buildPodOf :: "env \<Rightarrow> ci_reconciler \<Rightarrow> ci \<Rightarrow> (gerror + pod option \<times> bool) io" where
  "buildPodOf E R x = (let key = (m_namespace (ci_meta x), cst_build_pod (ci_status_of x)) in do {
     r \<leftarrow> k_get E pods key;
     (case r of
        Inr p \<Rightarrow> ret (Inr (Some p, False))
      | Inl err \<Rightarrow>
          if \<not> is_not_found err then ret (Inl err)
          else do {
            r \<leftarrow> api_get E R pods key;
            (case r of
               Inr p \<Rightarrow> ret (Inr (Some p, False))
             | Inl err \<Rightarrow>
                 if \<not> is_not_found err then ret (Inl err)
                 else do {
                   fresh \<leftarrow> api_get E R cis (meta_key (ci_meta x));
                   ret (case fresh of
                       Inl err \<Rightarrow> (case ignore_not_found err of Some e \<Rightarrow> Inl e | None \<Rightarrow> Inr (None, False))
                     | Inr y \<Rightarrow> Inr (None, cst_build_pod (ci_status_of y) = cst_build_pod (ci_status_of x)))
                 })
          })
   })"

definition ci_patch :: "env \<Rightarrow> ci \<Rightarrow> ci \<Rightarrow> (gerror + ci) io" where
  "ci_patch E orig x = k_patch_status E cis True orig x"

definition finish_patch :: "env \<Rightarrow> ci \<Rightarrow> ci \<Rightarrow> ctrl_result \<Rightarrow> outcome io" where
  \<comment> \<open>\<^verbatim>\<open>return res, r.patchStatus(ctx, orig, ci)\<close>\<close>
  "finish_patch E orig x res = do { p \<leftarrow> ci_patch E orig x; ret (res, err_of p) }"

definition followBuild :: "env \<Rightarrow> klib \<Rightarrow> ci_reconciler \<Rightarrow> ci \<Rightarrow> service \<Rightarrow> string \<Rightarrow> string \<Rightarrow> outcome io" where
  "followBuild E L R x svc sha img = do {
     found \<leftarrow> buildPodOf E R x;
     t \<leftarrow> now E;
     (case found of
        Inl err \<Rightarrow> ret (no_requeue, Some err)
      | Inr (p, lost) \<Rightarrow>
          if lost then
            finish_patch E x (markCIFailed L t x ''BuildPodLost''
              (''build pod '' @ cst_build_pod (ci_status_of x) @ '' disappeared'')) no_requeue
          else (case p of
              None \<Rightarrow> ret (requeue, None)
            | Some p \<Rightarrow>
                (case podResult p of (phase, msg, fin) \<Rightarrow>
                   let y = with_plugin_results L x p in
                   if \<not> fin then finish_patch E x (setCIPhase L t y CIPhaseBuilding msg) (requeue_after buildPollInterval)
                   else if phase = CIPhaseFailed then finish_patch E x (markCIFailed L t y ''BuildFailed'' msg) no_requeue
                   else do {
                     r \<leftarrow> ci_patch E x (succeed_build L t y img sha);
                     (case r of
                        Inl err \<Rightarrow> ret (no_requeue, Some err)
                      | Inr z \<Rightarrow> do { err \<leftarrow> ensureCD E L z svc; ret (no_requeue, err) })
                   })))
   }"

definition launchBuild :: "env \<Rightarrow> klib \<Rightarrow> ci_reconciler \<Rightarrow> ci \<Rightarrow> ci \<Rightarrow> service \<Rightarrow> string \<Rightarrow> string
    \<Rightarrow> string \<Rightarrow> container list \<Rightarrow> outcome io" where
  \<comment> \<open>\<^verbatim>\<open>reconcile\<close> from the deletion of earlier Pods on; \<open>x\<close> is the CI in memory,
      \<open>orig\<close> the one that was read\<close>
  "launchBuild E L R orig x svc sha img docker_cfg steps = do {
     err \<leftarrow> deleteBuildPods E x;
     (case err of
        Some err \<Rightarrow> ret (no_requeue, Some err)
      | None \<Rightarrow>
          let p = allowInsecure (buildPod x svc sha img docker_cfg steps) (cr_insecure R) in do {
            err \<leftarrow> check_pod (cr_policy R) (k_get E secrets) p;
            t \<leftarrow> now E;
            (case err of
               Some err \<Rightarrow> finish_patch E orig (reject_build L t x ''SecretNotAllowed'' (err_msg err)) no_requeue
             | None \<Rightarrow>
                 (case lib_set_controller L (ci_owner x) (pod_meta p) of
                    Inl err \<Rightarrow> ret (no_requeue, Some err)
                  | Inr m \<Rightarrow> do {
                      created \<leftarrow> k_create E pods (p\<lparr>pod_meta := m\<rparr>);
                      t \<leftarrow> now E;
                      (case created of
                         Inl err \<Rightarrow> do {
                           r \<leftarrow> ci_patch E orig (block_build L t x (''create build pod: '' @ err_msg err));
                           ret (case r of Inl err \<Rightarrow> (no_requeue, Some err)
                              | Inr _ \<Rightarrow> (requeue_after failedRetryInterval, None))
                         }
                       | Inr q \<Rightarrow> finish_patch E orig (start_build L t x img (m_name (pod_meta q)))
                           (requeue_after buildPollInterval))
                    }))
          })
   }"

definition startBuild :: "env \<Rightarrow> klib \<Rightarrow> ci_reconciler \<Rightarrow> ci \<Rightarrow> service \<Rightarrow> string \<Rightarrow> string \<Rightarrow> outcome io" where
  \<comment> \<open>\<^verbatim>\<open>reconcile\<close> from "Start a new build" on\<close>
  "startBuild E L R orig svc sha img = do {
     t \<leftarrow> now E;
     let x = setCIPhase L t orig CIPhaseResolving (''Preparing build of '' @ short_rev sha) in do {
       cfg \<leftarrow> registrySecret E L R x;
       t \<leftarrow> now E;
       (case cfg of
          Inl err \<Rightarrow> finish_patch E orig (reject_build L t x ''RegistryCredentials'' (err_msg err)) no_requeue
        | Inr docker_cfg \<Rightarrow> do {
            steps \<leftarrow> pluginSteps E L x svc sha;
            t \<leftarrow> now E;
            (case steps of
               Inl err \<Rightarrow> finish_patch E orig (reject_build L t x ''PluginUnavailable'' (err_msg err)) no_requeue
             | Inr steps \<Rightarrow> launchBuild E L R orig x svc sha img docker_cfg steps)
          })
     }
   }"

definition current_build :: "ci \<Rightarrow> bool" where
  "current_build x \<longleftrightarrow> cst_building_revision (ci_status_of x) = cis_revision (ci_spec_of x)
     \<and> cst_observed_generation (ci_status_of x) = m_generation (ci_meta x)"

definition ci_body :: "env \<Rightarrow> klib \<Rightarrow> ci_reconciler \<Rightarrow> ci \<Rightarrow> outcome io" where
  "ci_body E L R x = do {
     found \<leftarrow> resolveService E x;
     t \<leftarrow> now E;
     (case found of
        Inl err \<Rightarrow> finish_patch E x (setCIPhase L t x CIPhaseIdle
            (''Waiting for Service '' @ fmt_q (ref_name (cis_service (ci_spec_of x))) @ '': '' @ err_msg err))
            (requeue_after (seconds 60))
      | Inr svc \<Rightarrow>
          let sha = cis_revision (ci_spec_of x) in
          if sha = '''' \<or> cis_dockerfile_config_map (ci_spec_of x) = ''''
          then finish_patch E x (setCIPhase L t x CIPhaseIdle
            (''Waiting for Service '' @ fmt_q (m_name (sv_meta svc)) @ '' to finish discovery'')) no_requeue
          else (case validateBuild L x svc of
             Some err \<Rightarrow> finish_patch E x (reject_build L t x ''InvalidSpec'' (err_msg err)) no_requeue
           | None \<Rightarrow>
               let img = imageRef x sha in
               if current_build x \<and> cst_build_pod (ci_status_of x) \<noteq> '''' \<and> cst_phase (ci_status_of x) = CIPhaseBuilding
               then followBuild E L R x svc sha img
               else if current_build x \<and> cst_phase (ci_status_of x) = CIPhaseSucceeded
               then do { err \<leftarrow> ensureCD E L x svc; ret (no_requeue, err) }
               else if current_build x \<and> cst_phase (ci_status_of x) = CIPhaseFailed
               then ret (no_requeue, None)
               else startBuild E L R x svc sha img))
   }"

definition ci_reconcile :: "env \<Rightarrow> klib \<Rightarrow> ci_reconciler \<Rightarrow> nsname \<Rightarrow> outcome io" where
  "ci_reconcile E L R key = restart_on_conflict
     (finalizer_step E L cis ci_meta (\<lambda>f x. x\<lparr>ci_meta := f (ci_meta x)\<rparr>) ciFinalizer key (ci_body E L R))"

end
