(* ===== verification/Demo.thy ===== *)
theory Demo
  imports CICtrl
begin

text \<open>
  Concrete objects and an environment for the closed instances of the properties: a Service
  \<open>api\<close> with its CI at a commit, in an environment that stores both.
\<close>

definition demo_sha :: string where
  "demo_sha = ''0123456789abcdef0123456789abcdef01234567''"

definition demo_service :: service where
  "demo_service = \<lparr>
     sv_meta = (fresh_meta ''api'' ''shop'')\<lparr>m_uid := ''u1'', m_generation := 1, m_finalizers := [serviceFinalizer]\<rparr>,
     sv_spec_of = \<lparr>svs_source = \<lparr>src_repo = ''https://git.example/shop/api'', src_revision = ''main'',
         src_secret_ref = None\<rparr>,
       svs_env = [], svs_image = None, svs_replicas = None, svs_build = None, svs_plugins = [], svs_port = 0\<rparr>,
     sv_status_of = \<lparr>svst_phase = ServicePhaseUnset, svst_service_type = '''', svst_latest_revision = '''',
       svst_last_push_detected = None, svst_ci_ref = '''', svst_cd_ref = '''', svst_dockerfile_config_map = '''',
       svst_dockerfile_source = '''', svst_detected = None, svst_observed_generation = 0, svst_error = '''',
       svst_message = '''', svst_conditions = []\<rparr>\<rparr>"

definition demo_ci :: ci where
  "demo_ci = \<lparr>
     ci_meta = (fresh_meta ''api-ci'' ''shop'')\<lparr>m_uid := ''u2'', m_generation := 1, m_finalizers := [ciFinalizer]\<rparr>,
     ci_spec_of = \<lparr>cis_service = \<lparr>ref_name = ''api''\<rparr>,
       cis_registry = \<lparr>rs_registry = ''registry.example'', rs_repo = ''shop/api'', rs_credentials_secret = '''',
         rs_creds = None\<rparr>,
       cis_revision = demo_sha, cis_dockerfile_config_map = ''api-dockerfile'', cis_context_dir = '''',
       cis_plugins = [], cis_extra_steps = []\<rparr>,
     ci_status_of = \<lparr>cst_phase = CIPhaseUnset, cst_revision = '''', cst_image = '''', cst_build_count = 0,
       cst_build_time = None, cst_message = '''', cst_build_pod = '''', cst_building_revision = '''',
       cst_plugin_results = [], cst_observed_generation = 0, cst_conditions = []\<rparr>\<rparr>"

definition demo_env :: env where
  "demo_env = env_ref\<lparr>env_service := kapi_ref\<lparr>ka_get := (\<lambda>t key. Inr demo_service)\<rparr>,
     env_ci := kapi_ref\<lparr>ka_get := (\<lambda>t key. Inr demo_ci)\<rparr>\<rparr>"

lemma demo_env_simps [simp]:
  "ka_get (env_service demo_env) t key = Inr demo_service"
  "ka_get (env_ci demo_env) t key = Inr demo_ci"
  "ka_patch_status (env_ci demo_env) t l x y = Inr y"
  "env_pod demo_env = kapi_ref" "env_secret demo_env = kapi_ref" "env_cd demo_env = kapi_ref"
  "env_plugin demo_env = kapi_ref" "env_now demo_env t = 0"
  by (simp_all add: demo_env_def kapi_ref_def)

lemma demo_valid: "validateBuild klib_ref demo_ci demo_service = None"
  by code_simp

definition demo_owner_lib :: klib where
  "demo_owner_lib = klib_ref\<lparr>lib_set_controller := (\<lambda>o' m. Inr (m\<lparr>m_controller := Some o'\<rparr>))\<rparr>"

end
