(* ===== verification/Components.thy ===== *)
theory Components
  imports Git AlertCtrl Demo
begin

text \<open>
  The properties of the parts the reconcilers are made of: validation and revisions (\<open>Utils\<close>,
  \<open>Git\<close>), the Secret policy (\<open>Secrets\<close>), plugins (\<open>Plugins\<close>), the build Pod (\<open>CIBuild\<close>), alert
  planning and delivery (\<open>Alerting\<close>, \<open>Notify\<close>, \<open>AlertCtrl\<close>). They are here, and not in the
  parts' theories, because their closed instances use the objects of theory \<open>Demo\<close>.
\<close>

section \<open>Paths, revisions and credentials\<close>

text \<open>C28: A context directory or Dockerfile path that validation accepts, and that is not empty, names its
  segments one below the other: walking it from any directory never climbs out and ends below it.\<close>

theorem rel_path_stays_below:
  assumes "validate_rel_path field p = None" "p \<noteq> ''''"
  shows "descend dir (split_on CHR ''/'' p) = Some (dir @ split_on CHR ''/'' p)"
  by (rule descend_plain) (use assms in \<open>auto simp: validate_rel_path_iff\<close>)

theorem rel_path_stays_below_witness:
  "descend [''repo''] (split_on CHR ''/'' ''services/api'') = Some [''repo'', ''services'', ''api'']"
proof -
  have "validate_rel_path ''contextDir'' ''services/api'' = None" by code_simp
  from rel_path_stays_below [OF this, of "[''repo'']"] show ?thesis by simp
qed

text \<open>C27: Resolving a revision name against the listing of a remote gives exactly what the specification of
  the lookup gives: the first branch of that name, else the commit a tag points to (its last peeled entry, else
  its first entry); and it fails with an error exactly when neither exists.\<close>

theorem resolve_named_revision:
  assumes "rv \<noteq> ''''"
  shows "(case resolve_refs L repo rv refs of Inr r \<Rightarrow> Some (rev_sha r) | Inl err \<Rightarrow> None) = lookup_spec rv refs"
  using assms scan_refs_spec [of rv refs] by (auto simp: resolve_refs_def Let_def split: option.splits)

theorem resolve_named_revision_witness:
  "case resolve_refs klib_ref ''r'' ''v1''
      [HashRef ''refs/tags/v1'' ''aa'', HashRef ''refs/tags/v1^{}'' ''bb'', HashRef ''refs/heads/main'' ''cc''] of
     Inr r \<Rightarrow> rev_sha r = ''bb'' | Inl err \<Rightarrow> False"
proof -
  let ?refs = "[HashRef ''refs/tags/v1'' ''aa'', HashRef ''refs/tags/v1^{}'' ''bb'', HashRef ''refs/heads/main'' ''cc'']"
  have spec: "lookup_spec ''v1'' ?refs = Some ''bb''" by code_simp
  have "''v1'' \<noteq> ''''" by simp
  from resolve_named_revision [OF this, of klib_ref "''r''" ?refs] spec show ?thesis
    by (auto split: sum.splits)
qed

lemma emits_HasRevisionChanged_token:
  "emits (HasRevisionChanged E L repo rv known token) (\<lambda>e. \<exists>auth a. e = EvListRefs repo auth a
     \<and> (auth \<noteq> None \<longrightarrow> has_prefix repo ''https://'' \<and> map_option ba_password auth = Some token))"
proof (cases "token_auth repo token")
  case (Inl err)
  then show ?thesis
    by (auto simp: HasRevisionChanged_def ResolveRevision_def list_remote_refs_def intro!: emits_intros)
next
  case (Inr auth)
  then have "auth \<noteq> None \<longrightarrow> has_prefix repo ''https://'' \<and> map_option ba_password auth = Some token"
    by (auto simp: token_auth_def split: if_splits)
  with Inr show ?thesis
    by (auto simp: HasRevisionChanged_def ResolveRevision_def list_remote_refs_def intro!: emits_intros emits_perform)
qed

text \<open>C26: Looking up a revision asks the remote at most for its listing, and a token is sent only to a remote
  named by an https URL.\<close>

theorem token_over_https_only:
  assumes "run_state (HasRevisionChanged E L repo rv known token) t = (r, t')"
  shows "\<exists>es. t' = t @ es \<and> (\<forall>e \<in> set es. \<exists>auth a. e = EvListRefs repo auth a
     \<and> (auth \<noteq> None \<longrightarrow> has_prefix repo ''https://'' \<and> map_option ba_password auth = Some token))"
  using emitsD [OF emits_HasRevisionChanged_token assms] by (simp add: list_all_iff)

theorem token_over_https_only_witness:
  "\<exists>es. snd (run_state (HasRevisionChanged env_ref klib_ref ''ssh://git.example/api'' ''main'' '''' ''tok'') []) = es
     \<and> (\<forall>repo a r. EvListRefs repo (Some a) r \<notin> set es)"
proof -
  let ?run = "run_state (HasRevisionChanged env_ref klib_ref ''ssh://git.example/api'' ''main'' '''' ''tok'') []"
  have "?run = (fst ?run, snd ?run)" by simp
  from token_over_https_only [OF this] obtain es where es: "snd ?run = es"
    "\<forall>e \<in> set es. \<exists>auth a. e = EvListRefs ''ssh://git.example/api'' auth a
     \<and> (auth \<noteq> None \<longrightarrow> has_prefix ''ssh://git.example/api'' ''https://'' \<and> map_option ba_password auth = Some ''tok'')"
    by auto
  have "\<not> has_prefix ''ssh://git.example/api'' ''https://''" by code_simp
  with es(2) have "EvListRefs repo (Some a) r \<notin> set es" for repo a r by fastforce
  with es(1) show ?thesis by blast
qed

section \<open>Secrets\<close>

text \<open>C24: The check of a pod spec succeeds exactly when every Secret it references, by env, envFrom, volumes
  or pull secrets, was read and answered usably: it exists and carries the credentials label (or the policy lets
  it without), or it does not exist and every reference to it is optional. It reads nothing else.\<close>

theorem pod_spec_check_exact:
  assumes "run_state (check_pod_spec p (k_get E secrets) ns spec) t = (r, t')"
  shows "\<exists>answers. t' = t @ reads ns answers \<and> fst ` set answers \<subseteq> fst ` set (pod_secret_refs spec)
     \<and> (r = None \<longleftrightarrow> fst ` set answers = fst ` set (pod_secret_refs spec)
          \<and> list_all (\<lambda>(n, a). answer_usable p (pod_secret_refs spec) n a) answers)"
  using wpD [OF wp_check_pod_spec assms] unfolding list_all_iff by blast

theorem pod_spec_check_exact_witness:
  "\<exists>err. fst (run_state (check_pod_spec \<lparr>sp_allow_unlabeled = False\<rparr> (k_get demo_env secrets) ''shop''
     (empty_pod_spec\<lparr>ps_pull_secrets := [''pull'']\<rparr>)) []) = Some err"
proof -
  let ?spec = "empty_pod_spec\<lparr>ps_pull_secrets := [''pull'']\<rparr>"
  let ?run = "run_state (check_pod_spec \<lparr>sp_allow_unlabeled = False\<rparr> (k_get demo_env secrets) ''shop'' ?spec) []"
  have refs: "pod_secret_refs ?spec = [(''pull'', None)]"
    by (simp add: pod_secret_refs_def empty_pod_spec_def)
  have snd: "snd ?run = [EvSecret (VGet (''shop'', ''pull'') (Inl \<lparr>err_class = ErrNotFound, err_msg = ''not found''\<rparr>))]"
    by (simp add: check_pod_spec_def collect_refs_def refs k_defs get_secret_def)
  have "?run = (fst ?run, snd ?run)" by simp
  from pod_spec_check_exact [OF this] show ?thesis
  proof (elim exE conjE)
    fix answers
    assume a: "snd ?run = [] @ reads ''shop'' answers"
      and b: "(fst ?run = None) = (fst ` set answers = fst ` set (pod_secret_refs ?spec)
        \<and> list_all (\<lambda>(n, a). answer_usable \<lparr>sp_allow_unlabeled = False\<rparr> (pod_secret_refs ?spec) n a) answers)"
    have "answers = [(''pull'', Inl \<lparr>err_class = ErrNotFound, err_msg = ''not found''\<rparr>)]"
      using a unfolding snd reads_def by (cases answers) auto
    moreover have "\<not> answer_usable \<lparr>sp_allow_unlabeled = False\<rparr> (pod_secret_refs ?spec) ''pull''
        (Inl \<lparr>err_class = ErrNotFound, err_msg = ''not found''\<rparr>)"
      by (simp add: answer_usable_def all_optional_def refs)
    ultimately have "fst ?run \<noteq> None" using b by simp
    then show ?thesis by blast
  qed
qed

section \<open>Plugins\<close>



lemma Step_frame: "Step L p env = Inr c \<Longrightarrow> k_name c = ContainerName L (pname p) \<and> k_mounts c = step_mounts"
  using Step_rendered [of p env L] Step_Inr_iff [of L p env] by (metis finish_step_simps(1) sum.inject(2))

lemma Step_no_panic: "Step L p env = Inl err \<Longrightarrow> err_class err \<noteq> ErrPanic"
  using Validate_no_panic [of p] Step_Inr_iff [of L p env]
  by (cases "Validate p") (auto simp: Step_def wrapf_def)

lemma Steps_no_panic: "Steps L ps env = Inl err \<Longrightarrow> err_class err \<noteq> ErrPanic"
  by (induction ps) (auto split: sum.splits dest: Step_no_panic)

text \<open>The steps of a list of plugins can be rendered exactly when each plugin validates, never by a
  nil dereference; there is one step per plugin, in order, under the plugin's container name, and every step
  mounts the workspace and the reports.\<close>

lemma steps_rendered:
  "case Steps L ps env of
     Inr cs \<Rightarrow> list_all (\<lambda>p. Validate p = None) ps
       \<and> list_all2 (\<lambda>p c. k_name c = ContainerName L (pname p) \<and> k_mounts c = step_mounts) ps cs
   | Inl err \<Rightarrow> \<not> list_all (\<lambda>p. Validate p = None) ps \<and> err_class err \<noteq> ErrPanic"
proof (cases "Steps L ps env")
  case (Inr cs)
  then have "list_all2 (\<lambda>p c. Step L p env = Inr c) ps cs" by (simp add: Steps_Inr)
  then have "list_all2 (\<lambda>p c. k_name c = ContainerName L (pname p) \<and> k_mounts c = step_mounts) ps cs"
    by (rule list_all2_mono) (rule Step_frame)
  moreover have "\<forall>p\<in>set ps. Validate p = None" using Steps_ok_iff [of L ps env] Inr by blast
  ultimately show ?thesis using Inr by (simp add: list_all_iff)
next
  case (Inl err)
  then have "\<not> (\<forall>p\<in>set ps. Validate p = None)" using Steps_ok_iff [of L ps env] by simp
  with Inl Steps_no_panic [OF Inl] show ?thesis by (simp add: list_all_iff)
qed

text \<open>Under the failure policy Ignore a plugin's step runs the wrapper that swallows the exit status, with
  the plugin's own command and arguments behind it, and that command is never empty.\<close>

lemma ignored_step_wrapped:
  assumes "Step L p env = Inr c" "pls_failure_policy (pl_spec_of p) = FailurePolicyIgnore"
  shows "k_command c = [''sh'', ''-c'', ignoreWrapper]
     \<and> (\<exists>R c0. rendererFor p = Inr R \<and> r_container R p env = Inr c0 \<and> k_command c0 \<noteq> [] \<and> k_args c = k_command c0 @ k_args c0)"
proof -
  have "Validate p = None" using Step_Inr_iff assms(1) by blast
  from Step_rendered [OF this, of env L] obtain R c0 where R: "rendererFor p = Inr R" "r_container R p env = Inr c0"
    "Step L p env = Inr (finish_step L R p env c0)" "k_command c0 \<noteq> []" using assms(2) by metis
  with assms show ?thesis by (auto simp: finish_step_simps)
qed

definition demo_plugin :: ciplugin where
  "demo_plugin = \<lparr>pl_meta = fresh_meta ''lint'' ''shop'',
     pl_spec_of = \<lparr>pls_type = CIPluginCustom, pls_order = 0, pls_failure_policy = FailurePolicyIgnore,
       pls_target_refs = [], pls_selector = None, pls_resources = None, pls_sonarqube = None, pls_codeql = None,
       pls_custom = Some \<lparr>cu_image = ''lint:1'', cu_command = [''lint''], cu_args = [''.''], cu_env = [], cu_env_from = []\<rparr>\<rparr>,
     pl_status_of = \<lparr>plst_attached_services = [], plst_observed_generation = 0, plst_conditions = []\<rparr>\<rparr>"

lemma ignored_step_wrapped_instance:
  "\<exists>c. Step klib_ref demo_plugin empty_build_env = Inr c \<and> k_command c = [''sh'', ''-c'', ignoreWrapper]"
proof -
  have "Validate demo_plugin = None" by code_simp
  then obtain c where c: "Step klib_ref demo_plugin empty_build_env = Inr c" using Step_Inr_iff by blast
  have "pls_failure_policy (pl_spec_of demo_plugin) = FailurePolicyIgnore" by (simp add: demo_plugin_def)
  from ignored_step_wrapped [OF c this] c show ?thesis by blast
qed

text \<open>The name of a plugin's container is never longer than the 63 characters Kubernetes allows.\<close>

lemma container_name_fits: "length (ContainerName L plugin) \<le> 63"
  by (rule ContainerName_length)

section \<open>The build Pod\<close>

text \<open>The Secrets a build Pod references are exactly the Service's Git credentials (by the clone step, if
  it has any), those of the CI's extra steps and of the plugin steps, and the registry credentials; marking
  registries as insecure adds none.\<close>

lemma build_pod_secrets:
  "pod_secret_refs (pod_spec_of (allowInsecure (buildPod x svc sha img docker_cfg steps) hosts)) =
     (case src_secret_ref (svs_source (sv_spec_of svc)) of None \<Rightarrow> [] | Some r \<Rightarrow> [(sk_name r, None)])
     @ concat (map container_refs (cis_extra_steps (ci_spec_of x))) @ concat (map container_refs steps)
     @ (if docker_cfg \<noteq> '''' then [(docker_cfg, None)] else [])"
  by (simp add: refs_allowInsecure refs_buildPod)

text \<open>Every host the flag for insecure registries lets through starts with a letter or digit and holds
  letters, digits, dots, colons and hyphens only, so it can stand in the shell script's host list.\<close>

lemma insecure_registries_safe:
  assumes "ParseInsecureRegistries list = Inr hosts" "h \<in> set hosts"
  shows "h \<noteq> [] \<and> is_alnum (hd h) \<and> list_all host_char h"
  using registryHostRe_chars registry_hosts_ok assms unfolding ParseInsecureRegistries_def by blast

lemma insecure_registries_safe_example:
  "ParseInsecureRegistries ''localhost:5000, registry.example'' = Inr [''localhost:5000'', ''registry.example'']
     \<and> list_all host_char ''localhost:5000''"
proof -
  have parse: "ParseInsecureRegistries ''localhost:5000, registry.example'' = Inr [''localhost:5000'', ''registry.example'']"
    by code_simp
  from insecure_registries_safe [OF this, of "''localhost:5000''"] parse show ?thesis by simp
qed

section \<open>Alert planning\<close>

text \<open>The key under which a sent notification is remembered determines the Service, the kind of event and
  the channel, for names without a slash, and the Service and the channel can be read back from it, as the
  pruning of the ledger does.\<close>

lemma state_key_roundtrip:
  assumes "CHR ''/'' \<notin> set s" "CHR ''/'' \<notin> set c"
  shows "fst (cut (StateKey s k c) CHR ''/'') = s \<and> last_segment (StateKey s k c) CHR ''/'' = Some c
     \<and> (StateKey s k c = StateKey s k' c \<longrightarrow> k = k')"
  using assms cut_StateKey last_segment_StateKey StateKey_inj by blast

lemma state_key_roundtrip_example:
  "fst (cut (StateKey ''api'' AlertPush ''ops'') CHR ''/'') = ''api''
     \<and> last_segment (StateKey ''api'' AlertPush ''ops'') CHR ''/'' = Some ''ops''"
  using state_key_roundtrip [of "''api''" "''ops''" AlertPush] by simp

text \<open>A snapshot of a Service yields at most one occurrence of each kind of event, at most one each of push,
  CI and CD, each about that Service and with a key.\<close>

lemma events_once_per_kind:
  "distinct (map oc_kind (Events s)) \<and> length (Events s) \<le> 3
     \<and> list_all (\<lambda>oc. oc_key oc \<noteq> '''' \<and> ne_service (oc_event oc) = m_name (sv_meta (sn_service s))) (Events s)"
proof -
  have "length (Events s) \<le> 3" by (rule Events_parts [of s]) auto
  then show ?thesis using Events_distinct Events_service by (simp add: list_all_iff)
qed

text \<open>C20: After a run of an Alert records what it must not send and marks the deliveries that succeeded, planning
  the same snapshots again records nothing and sends exactly the deliveries that failed: nothing is sent twice
  and nothing is forgotten.\<close>

theorem plan_retries_failures:
  assumes "distinct (map (\<lambda>s. m_name (sv_meta (sn_service s))) snaps)"
    and "list_all (\<lambda>s. CHR ''/'' \<notin> set (m_name (sv_meta (sn_service s)))) snaps"
    and "in_occurrences inp = concat (map Events snaps)"
    and "set qs \<subseteq> {p \<in> set (plan_pairs inp). \<not> handled (in_sent inp) p \<and> \<not> silent inp p}"
  shows "dn_record (Plan (inp\<lparr>in_sent := settle (in_sent inp) (dn_record (Plan inp)) (map pair_delivery qs)\<rparr>)) = []
     \<and> dn_send (Plan (inp\<lparr>in_sent := settle (in_sent inp) (dn_record (Plan inp)) (map pair_delivery qs)\<rparr>))
       = filter (\<lambda>d. dl_state_key d \<notin> pair_key ` set qs) (dn_send (Plan inp))"
proof -
  have det: "keys_determine (plan_pairs inp)"
    by (rule keys_determine_run [OF assms(1) _ assms(3)]) (use assms(2) in \<open>simp add: list_all_iff\<close>)
  have sil: "silent_determined inp"
    by (rule silent_determined_run)
      (use assms(2,3) Events_service in \<open>auto simp: list_all_iff\<close>)
  from Plan_after [OF det sil assms(4)] show ?thesis by simp
qed

theorem plan_retries_failures_witness:
  "let snap = \<lparr>sn_service = demo_service\<lparr>sv_status_of := (sv_status_of demo_service)\<lparr>svst_latest_revision := demo_sha\<rparr>\<rparr>,
                sn_ci = None, sn_cd = None\<rparr>;
       inp = \<lparr>in_occurrences = Events snap, in_channels = [''ops''], in_wanted = [], in_sent = [], in_baseline = []\<rparr>
   in length (Events snap) = 1 \<and> dn_send (Plan (inp\<lparr>in_sent := settle [] (dn_record (Plan inp)) []\<rparr>)) = dn_send (Plan inp)"
proof -
  define snap where "snap = \<lparr>sn_service = demo_service\<lparr>sv_status_of := (sv_status_of demo_service)\<lparr>svst_latest_revision := demo_sha\<rparr>\<rparr>,
                sn_ci = None, sn_cd = None\<rparr>"
  define inp where "inp = \<lparr>in_occurrences = Events snap, in_channels = [''ops''], in_wanted = [], in_sent = [], in_baseline = []\<rparr>"
  have len: "length (Events snap) = 1" unfolding snap_def by code_simp
  have "distinct (map (\<lambda>s. m_name (sv_meta (sn_service s))) [snap])" by simp
  moreover have "list_all (\<lambda>s. CHR ''/'' \<notin> set (m_name (sv_meta (sn_service s)))) [snap]"
    by (simp add: snap_def demo_service_def fresh_meta_def)
  moreover have "in_occurrences inp = concat (map Events [snap])" by (simp add: inp_def)
  moreover have "set [] \<subseteq> {p \<in> set (plan_pairs inp). \<not> handled (in_sent inp) p \<and> \<not> silent inp p}" by simp
  ultimately have "dn_send (Plan (inp\<lparr>in_sent := settle (in_sent inp) (dn_record (Plan inp)) (map pair_delivery [])\<rparr>))
       = filter (\<lambda>d. dl_state_key d \<notin> pair_key ` set []) (dn_send (Plan inp))"
    by (rule plan_retries_failures [THEN conjunct2])
  then have "dn_send (Plan (inp\<lparr>in_sent := settle [] (dn_record (Plan inp)) []\<rparr>)) = dn_send (Plan inp)"
    by (simp add: inp_def)
  with len show ?thesis by (simp add: Let_def snap_def inp_def)
qed

section \<open>Delivery\<close>

text \<open>C23: A notification is posted at most three times, always to the notifier's own URL and as a POST; only
  after an answer that asks for it (a failed exchange, 429 or a 5xx) is it posted again; and it counts as
  delivered exactly when the last answer was a success.\<close>

theorem post_delivery:
  assumes "run_state (post E L p body headers) t = (r, t')"
  shows "\<exists>es. t' = t @ es \<and> length (http_answers es) \<le> 3
     \<and> list_all (\<lambda>e. case e of EvHttp q a \<Rightarrow> hq_method q = ''POST'' \<and> hq_url q = po_url p | EvSleep d \<Rightarrow> True | _ \<Rightarrow> False) es
     \<and> list_all (\<lambda>a. transient a \<and> \<not> delivered a) (butlast (http_answers es))
     \<and> (r = None \<longleftrightarrow> (\<exists>as a. http_answers es = as @ [a] \<and> delivered a))"
proof -
  from run_post [OF assms] obtain es where es: "t' = t @ es" "post_run p body headers 3 es r" by blast
  have ev: "is_post_event (post_request p body headers) e \<Longrightarrow>
      (case e of EvHttp q a \<Rightarrow> hq_method q = ''POST'' \<and> hq_url q = po_url p | EvSleep d \<Rightarrow> True | _ \<Rightarrow> False)" for e
    by (cases e) (auto simp: post_request_def)
  have all: "list_all (\<lambda>e. case e of EvHttp q a \<Rightarrow> hq_method q = ''POST'' \<and> hq_url q = po_url p | EvSleep d \<Rightarrow> True | _ \<Rightarrow> False) es"
    using es(2) unfolding post_run_def by (blast intro: list.pred_mono_strong ev)
  have res: "r = None \<longleftrightarrow> (\<exists>as a. http_answers es = as @ [a] \<and> delivered a)"
  proof
    assume "r = None"
    with es(2) have "http_answers es = butlast (http_answers es) @ [last (http_answers es)]" "delivered (last (http_answers es))"
      by (auto simp: post_run_def)
    then show "\<exists>as a. http_answers es = as @ [a] \<and> delivered a" by blast
  next
    assume "\<exists>as a. http_answers es = as @ [a] \<and> delivered a"
    with es(2) show "r = None" by (auto simp: post_run_def)
  qed
  have tr: "list_all (\<lambda>a. transient a \<and> \<not> delivered a) (butlast (http_answers es))" "length (http_answers es) \<le> 3"
    using es(2) by (simp_all add: post_run_def list_all_iff)
  show ?thesis by (rule exI [of _ es]) (simp only: es(1) all tr res simp_thms)
qed

theorem post_delivery_witness:
  "length (http_answers (snd (run_state (post env_ref klib_ref \<lparr>po_url = ''https://chat.example/h''\<rparr> (JStr ''x'') []) []))) \<le> 3"
proof -
  let ?run = "run_state (post env_ref klib_ref \<lparr>po_url = ''https://chat.example/h''\<rparr> (JStr ''x'') []) []"
  have "?run = (fst ?run, snd ?run)" by simp
  from post_delivery [OF this] show ?thesis by auto
qed



text \<open>The delivery loop sends the planned deliveries one after the other; it marks as sent exactly those that
  were answered with a success, counts the others as failed and reports every delivery with its outcome.\<close>

lemma deliver_marks_answered:
  assumes "list_all (\<lambda>d. dl_channel d \<in> fst ` set ns) ds"
    and "run_state (deliver_loop E L ns ds (sent, dels, failed)) t = (r, t')"
  shows "\<exists>segs recs. length segs = length ds \<and> t' = t @ concat segs
     \<and> list_all (\<lambda>seg. length (http_answers seg) \<le> 3) segs
     \<and> r = Inr (mark_sent sent (map fst (filter (\<lambda>(d, seg). answered_ok seg) (zip ds segs))),
                recs @ dels, failed + length (filter (\<lambda>seg. \<not> answered_ok seg) segs))
     \<and> map ad_success (List.rev recs) = map answered_ok segs"
  using run_deliver_loop [OF _ assms(2)] assms(1) by (simp add: list_all_iff)

lemma deliver_marks_answered_example:
  "let d = \<lparr>dl_occurrence = mk_occurrence AlertPush demo_sha (base_event demo_service), dl_channel = ''ops'',
            dl_state_key = ''k''\<rparr>;
       r = run_state (deliver_loop env_ref klib_ref [(''ops'', SlackNotifier \<lparr>po_url = ''https://chat.example/h''\<rparr>)] [d] ([], [], 0)) []
   in \<exists>segs recs. length segs = 1 \<and> snd r = concat segs
     \<and> fst r = Inr (mark_sent [] (map fst (filter (\<lambda>(d, seg). answered_ok seg) (zip [d] segs))), recs,
          length (filter (\<lambda>seg. \<not> answered_ok seg) segs))"
proof -
  define d where "d = \<lparr>dl_occurrence = mk_occurrence AlertPush demo_sha (base_event demo_service), dl_channel = ''ops'',
            dl_state_key = ''k''\<rparr>"
  define ns where "ns = [(''ops'', SlackNotifier \<lparr>po_url = ''https://chat.example/h''\<rparr>)]"
  define r where "r = run_state (deliver_loop env_ref klib_ref ns [d] ([], [], 0)) []"
  have "list_all (\<lambda>d. dl_channel d \<in> fst ` set ns) [d]" by (simp add: d_def ns_def)
  moreover have "run_state (deliver_loop env_ref klib_ref ns [d] ([], [], 0)) [] = (fst r, snd r)" by (simp add: r_def)
  ultimately have "\<exists>segs recs. length segs = length [d] \<and> snd r = [] @ concat segs
     \<and> list_all (\<lambda>seg. length (http_answers seg) \<le> 3) segs
     \<and> fst r = Inr (mark_sent [] (map fst (filter (\<lambda>(d, seg). answered_ok seg) (zip [d] segs))),
                recs @ [], 0 + length (filter (\<lambda>seg. \<not> answered_ok seg) segs))
     \<and> map ad_success (List.rev recs) = map answered_ok segs"
    by (rule deliver_marks_answered)
  then show ?thesis unfolding Let_def d_def [symmetric] ns_def [symmetric] r_def [symmetric] by auto
qed

end
