(* ===== verification/CIProofs.thy ===== *)
theory CIProofs
  imports Demo
begin

text \<open>
  What a run of the CI reconciler may do (theory \<open>CICtrl\<close>). First its status as a state
  machine: \<open>ci_step\<close> lists the ways a run may change a CI's status, \<open>ci_reachable\<close> closes it
  under edits of the spec, and the invariants of reachable CIs follow by rule induction.
  Then the requests of a run: a build Pod is created at most once, after the CI's earlier
  Pods were deleted and every Secret it references was checked, and only when the spec at
  hand was not built or rejected yet; every status written is a step of the machine from the
  CI that was read.
\<close>

section \<open>The status machine\<close>

definition following :: "ci \<Rightarrow> bool" where
  "following x \<longleftrightarrow> current_build x \<and> cst_build_pod (ci_status_of x) \<noteq> ''''
     \<and> cst_phase (ci_status_of x) = CIPhaseBuilding"

definition settled :: "ci \<Rightarrow> bool" where
  "settled x \<longleftrightarrow> current_build x
     \<and> (cst_phase (ci_status_of x) = CIPhaseSucceeded \<or> cst_phase (ci_status_of x) = CIPhaseFailed)"

inductive ci_step :: "klib \<Rightarrow> ci \<Rightarrow> ci \<Rightarrow> bool" for L x where
  wait: "ci_step L x (setCIPhase L t x CIPhaseIdle msg)"
| reject: "ci_step L x (reject_build L t x reason msg)"
| reject_late: "\<not> following x \<Longrightarrow> \<not> settled x \<Longrightarrow>
    ci_step L x (reject_build L t (setCIPhase L t' x CIPhaseResolving msg') reason msg)"
| block: "\<not> following x \<Longrightarrow> \<not> settled x \<Longrightarrow>
    ci_step L x (block_build L t (setCIPhase L t' x CIPhaseResolving msg') msg)"
| start: "\<not> following x \<Longrightarrow> \<not> settled x \<Longrightarrow>
    ci_step L x (start_build L t (setCIPhase L t' x CIPhaseResolving msg') img name)"
| lost: "following x \<Longrightarrow> ci_step L x (markCIFailed L t x ''BuildPodLost'' msg)"
| progress: "following x \<Longrightarrow> ci_step L x (setCIPhase L t (with_plugin_results L x p) CIPhaseBuilding msg)"
| fail: "following x \<Longrightarrow> pst_phase (pod_status_of p) = PodFailed \<Longrightarrow>
    ci_step L x (markCIFailed L t (with_plugin_results L x p) ''BuildFailed'' msg)"
| succeed: "following x \<Longrightarrow> pst_phase (pod_status_of p) = PodSucceeded \<Longrightarrow>
    ci_step L x (succeed_build L t (with_plugin_results L x p) (imageRef x (cis_revision (ci_spec_of x)))
      (cis_revision (ci_spec_of x)))"

lemmas ci_setters = setCIPhase_def markCIFailed_def reject_build_def block_build_def start_build_def
  succeed_build_def with_plugin_results_def Let_def

lemma ci_step_frame: "ci_step L x y \<Longrightarrow> ci_meta y = ci_meta x \<and> ci_spec_of y = ci_spec_of x"
  by (induction rule: ci_step.induct) (simp_all add: ci_setters)

text \<open>
  How the status fields move: only a Pod that was followed to its success writes the image
  and the revision, and counts.
\<close>

lemma ci_step_cases:
  assumes "ci_step L x y"
  shows "cst_phase (ci_status_of y) = CIPhaseSucceeded \<and> following x
      \<and> cst_revision (ci_status_of y) = cis_revision (ci_spec_of x)
      \<and> cst_image (ci_status_of y) = imageRef x (cis_revision (ci_spec_of x))
      \<and> cst_build_count (ci_status_of y) = wrap64 (cst_build_count (ci_status_of x) + 1)
      \<and> cst_building_revision (ci_status_of y) = cis_revision (ci_spec_of x)
      \<and> cst_observed_generation (ci_status_of y) = m_generation (ci_meta x)
    \<or> cst_phase (ci_status_of y) \<noteq> CIPhaseSucceeded
      \<and> cst_revision (ci_status_of y) = cst_revision (ci_status_of x)
      \<and> cst_image (ci_status_of y) = cst_image (ci_status_of x)
      \<and> cst_build_count (ci_status_of y) = cst_build_count (ci_status_of x)"
  using assms by cases (simp_all add: ci_setters following_def current_build_def)

lemma ci_step_building:
  "ci_step L x y \<Longrightarrow> cst_phase (ci_status_of y) = CIPhaseBuilding \<Longrightarrow> current_build y"
  by (induction rule: ci_step.induct) (simp_all add: ci_setters current_build_def following_def)

text \<open>
  The CIs the operator can meet: a new one without status, after status writes of the
  reconciler and edits of metadata and spec. The API server raises the generation when the
  spec changes. The number counts the writes of the phase Succeeded so far; the status itself
  keeps that count in an \<^verbatim>\<open>int64\<close>.
\<close>

definition empty_ci_status :: ci_status where
  "empty_ci_status = \<lparr>cst_phase = CIPhaseUnset, cst_revision = '''', cst_image = '''', cst_build_count = 0,
     cst_build_time = None, cst_message = '''', cst_build_pod = '''', cst_building_revision = '''',
     cst_plugin_results = [], cst_observed_generation = 0, cst_conditions = []\<rparr>"

inductive ci_reachable :: "klib \<Rightarrow> nat \<Rightarrow> ci \<Rightarrow> bool" for L where
  new: "ci_status_of x = empty_ci_status \<Longrightarrow> ci_reachable L 0 x"
| step: "ci_reachable L n x \<Longrightarrow> ci_step L x y \<Longrightarrow>
    ci_reachable L (if cst_phase (ci_status_of y) = CIPhaseSucceeded then Suc n else n) y"
| edit: "ci_reachable L n x \<Longrightarrow> ci_status_of y = ci_status_of x \<Longrightarrow>
    (ci_spec_of y = ci_spec_of x \<and> m_generation (ci_meta y) = m_generation (ci_meta x)
     \<or> m_generation (ci_meta y) > m_generation (ci_meta x)) \<Longrightarrow> ci_reachable L n y"

text \<open>The image of a CI is tagged with the revision recorded beside it.\<close>

definition image_matches :: "ci_status \<Rightarrow> bool" where
  "image_matches st \<longleftrightarrow> (cst_image st = '''' \<and> cst_revision st = '''')
     \<or> has_suffix (cst_image st) ('':'' @ short_rev (cst_revision st))"

definition ci_invariant :: "nat \<Rightarrow> ci_status \<Rightarrow> bool" where
  "ci_invariant n st \<longleftrightarrow> image_matches st \<and> cst_build_count st = wrap64 (int n)
     \<and> (cst_image st = '''' \<longleftrightarrow> n = 0)
     \<and> (cst_phase st = CIPhaseSucceeded \<longrightarrow> cst_revision st = cst_building_revision st \<and> n > 0)"

lemma imageRef_tag: "has_suffix (imageRef x sha) ('':'' @ short_rev sha)"
  by (simp add: imageRef_def Let_def has_suffix_iff)

lemma imageRef_nonempty: "imageRef x sha \<noteq> ''''"
  using imageRef_tag [of x sha] by (auto simp: has_suffix_iff)

lemma ci_step_invariant:
  assumes "ci_step L x y" "ci_invariant n (ci_status_of x)"
  shows "ci_invariant (if cst_phase (ci_status_of y) = CIPhaseSucceeded then Suc n else n) (ci_status_of y)"
proof -
  have "wrap64 (wrap64 (int n) + 1) = wrap64 (int (Suc n))" unfolding wrap64_add by (simp add: add.commute)
  then show ?thesis
    using ci_step_cases [OF assms(1)] assms(2) imageRef_tag [of x "cis_revision (ci_spec_of x)"]
      imageRef_nonempty [of x "cis_revision (ci_spec_of x)"]
    by (auto simp: ci_invariant_def image_matches_def)
qed

lemma ci_reachable_invariant: "ci_reachable L n x \<Longrightarrow> ci_invariant n (ci_status_of x)"
proof (induction rule: ci_reachable.induct)
  case (new x)
  then show ?case by (simp add: ci_invariant_def image_matches_def empty_ci_status_def wrap64_def)
next
  case (step n x y)
  then show ?case using ci_step_invariant by blast
next
  case (edit n x y)
  then show ?case by simp
qed

section \<open>The status writes of a run\<close>

text \<open>
  What the reconciler may write besides creating and deleting Pods: the CI's status, as a step of the
  machine from the CI that was read; the registry Secret; the CD.
\<close>

fun ci_write_ok :: "klib \<Rightarrow> ci \<Rightarrow> event \<Rightarrow> bool" where
  "ci_write_ok L x (EvCI (VPatchStatus lock orig y r)) = (lock \<and> orig = x \<and> ci_step L x y)"
| "ci_write_ok L x (EvCI v) = (case v of VGet key r \<Rightarrow> True | VRead key r \<Rightarrow> True | _ \<Rightarrow> False)"
| "ci_write_ok L x (EvPod v) = (case v of VGet key r \<Rightarrow> True | VRead key r \<Rightarrow> True | VCreate p r \<Rightarrow> True
     | VDeleteAll ns k n r \<Rightarrow> ns = m_namespace (ci_meta x) \<and> k = labelCI \<and> n = m_name (ci_meta x) | _ \<Rightarrow> False)"
| "ci_write_ok L x (EvSecret v) = (case v of VGet key r \<Rightarrow> True | VFetch s r \<Rightarrow> True | VStore s r \<Rightarrow> True | _ \<Rightarrow> False)"
| "ci_write_ok L x (EvCD v) = (case v of VFetch d r \<Rightarrow> True | VStore d r \<Rightarrow> True | _ \<Rightarrow> False)"
| "ci_write_ok L x (EvService v) = (case v of VGet key r \<Rightarrow> True | _ \<Rightarrow> False)"
| "ci_write_ok L x (EvPlugin v) = (case v of VGet key r \<Rightarrow> True | _ \<Rightarrow> False)"
| "ci_write_ok L x e = False"

lemma emits_finish_patch: "ci_step L x y \<Longrightarrow> emits (finish_patch E x y res) (ci_write_ok L x)"
  unfolding finish_patch_def ci_patch_def by (intro emits_intros) simp

definition harmless :: "event \<Rightarrow> bool" where
  \<comment> \<open>neither a CI status write nor a Pod created or deleted\<close>
  "harmless e \<longleftrightarrow> (case e of EvCI (VRead key r) \<Rightarrow> True | EvCI (VGet key r) \<Rightarrow> True
     | EvPod (VGet key r) \<Rightarrow> True | EvPod (VRead key r) \<Rightarrow> True
     | EvSecret (VGet key r) \<Rightarrow> True | EvSecret (VFetch s r) \<Rightarrow> True | EvSecret (VStore s r) \<Rightarrow> True
     | EvCD (VFetch d r) \<Rightarrow> True | EvCD (VStore d r) \<Rightarrow> True
     | EvService (VGet key r) \<Rightarrow> True | EvPlugin (VGet key r) \<Rightarrow> True | _ \<Rightarrow> False)"

lemma harmless_write_ok: "harmless e \<Longrightarrow> ci_write_ok L x e"
  by (cases e) (auto simp: harmless_def split: verb.splits)

lemma harmless_simps [simp]:
  "harmless (EvSecret (VGet key rs))" "harmless (EvSecret (VFetch s rs))" "harmless (EvSecret (VStore s rs))"
  "harmless (EvPlugin (VGet key rp))" "harmless (EvService (VGet key rv))"
  "harmless (EvCD (VFetch d rd))" "harmless (EvCD (VStore d rd))"
  "harmless (EvPod (VGet key rq))" "harmless (EvPod (VRead key rq))"
  "harmless (EvCI (VRead key rc))" "harmless (EvCI (VGet key rc))"
  "\<not> harmless (EvPod (VCreate p rq))" "\<not> harmless (EvCI (VPatchStatus l x y rc))"
  "\<not> harmless (EvPod (VDeleteAll ns k v ru))"
  by (simp_all add: harmless_def)

lemma emits_registrySecret: "emits (registrySecret E L R x) harmless"
  unfolding registrySecret_def Let_def
  by (intro emits_intros emits_weaken [OF emits_get_secret]) (auto elim: is_secret_read.elims)

lemma emits_get_plugins: "emits (get_plugins E ns ps rs) harmless"
  by (induction rs arbitrary: ps) (auto intro!: emits_intros)

lemma emits_pluginSteps: "emits (pluginSteps E L x svc sha) harmless"
  unfolding pluginSteps_def by (intro emits_intros emits_get_plugins)

lemma emits_ensureCD: "emits (ensureCD E L x svc) harmless"
  unfolding ensureCD_def by (intro emits_intros) simp_all

section \<open>Launching the build Pod\<close>

lemma setCIPhase_frame [simp]:
  "ci_meta (setCIPhase L t x ph msg) = ci_meta x" "ci_spec_of (setCIPhase L t x ph msg) = ci_spec_of x"
  by (simp_all add: setCIPhase_def)

lemma buildPod_setCIPhase [simp]:
  "buildPod (setCIPhase L t x ph msg) svc sha img cfg steps = buildPod x svc sha img cfg steps"
  by (simp add: buildPod_def build_container_def build_volumes_def)

fun is_pod_create :: "event \<Rightarrow> bool" where
  "is_pod_create (EvPod (VCreate p r)) = True"
| "is_pod_create _ = False"

text \<open>
  The requests of a launch up to the Pod: everything that has to have happened. The deletion of the CI's earlier
  Pods was answered with success, or with "not found".
\<close>

definition deleted_ok :: "gerror + unit \<Rightarrow> bool" where
  "deleted_ok d \<longleftrightarrow> (case d of Inl err \<Rightarrow> is_not_found err | Inr _ \<Rightarrow> True)"

lemma deleted_ok_iff: "(case d of Inl err \<Rightarrow> ignore_not_found err | Inr _ \<Rightarrow> None) = None \<longleftrightarrow> deleted_ok d"
  by (simp add: deleted_ok_def ignore_not_found_def split: sum.split)

definition pod_launched :: "klib \<Rightarrow> ci_reconciler \<Rightarrow> ci \<Rightarrow> service \<Rightarrow> trace \<Rightarrow> pod \<Rightarrow> bool" where
  "pod_launched L R x svc pre p \<longleftrightarrow>
     secrets_checked (cr_policy R) (m_namespace (ci_meta x)) (pod_spec_of p) pre
   \<and> (\<exists>d. EvPod (VDeleteAll (m_namespace (ci_meta x)) labelCI (m_name (ci_meta x)) d) \<in> set pre \<and> deleted_ok d)
   \<and> (\<exists>cfg steps. pod_spec_of p = pod_spec_of (allowInsecure
        (buildPod x svc (cis_revision (ci_spec_of x)) (imageRef x (cis_revision (ci_spec_of x))) cfg steps)
        (cr_insecure R)))"

lemma secrets_checked_prepend: "secrets_checked p ns spec es \<Longrightarrow> secrets_checked p ns spec (d @ es)"
  unfolding secrets_checked_def by auto

lemma pod_launchedI:
  assumes "secrets_checked (cr_policy R) (m_namespace (ci_meta x)) (pod_spec_of p) es"
    and "p = allowInsecure (buildPod x svc (cis_revision (ci_spec_of x)) (imageRef x (cis_revision (ci_spec_of x))) cfg steps)
          (cr_insecure R)" "deleted_ok d"
  shows "pod_launched L R x svc (EvPod (VDeleteAll (m_namespace (ci_meta x)) labelCI (m_name (ci_meta x)) d) # es)
           (p\<lparr>pod_meta := m\<rparr>)"
  using assms secrets_checked_prepend [of _ _ _ es "[EvPod (VDeleteAll (m_namespace (ci_meta x)) labelCI (m_name (ci_meta x)) d)]"]
  by (auto simp: pod_launched_def)

lemma wp_launchBuild:
  assumes busy: "\<not> following orig" "\<not> settled orig" and x: "x = setCIPhase L t0 orig CIPhaseResolving msg"
    and sha: "sha = cis_revision (ci_spec_of orig)" and img: "img = imageRef orig sha"
    and Q: "\<And>out es. list_all (ci_write_ok L orig) es \<Longrightarrow> list_all (\<lambda>e. \<not> is_pod_create e) es \<Longrightarrow> Q out (t @ es)"
    and Q2: "\<And>out pre p r post. list_all (ci_write_ok L orig) (pre @ post) \<Longrightarrow>
      list_all (\<lambda>e. \<not> is_pod_create e) (pre @ post) \<Longrightarrow> pod_launched L R orig svc pre p \<Longrightarrow>
      Q out (t @ pre @ [EvPod (VCreate p r)] @ post)"
  shows "wp (launchBuild E L R orig x svc sha img cfg steps) Q t"
proof -
  let ?ns = "m_namespace (ci_meta orig)"
  let ?del = "\<lambda>d. EvPod (VDeleteAll ?ns labelCI (m_name (ci_meta orig)) d)"
  let ?p = "allowInsecure (buildPod orig svc sha img cfg steps) (cr_insecure R)"
  have steps: "ci_step L orig (start_build L t x i n)" "ci_step L orig (block_build L t x m)"
    "ci_step L orig (reject_build L t x rs m)" for t i n m rs
    unfolding x using busy by (rule ci_step.intros)+
  have ns: "m_namespace (pod_meta ?p) = ?ns" by (simp add: buildPod_def fresh_meta_def)
  have chk: "list_all (ci_write_ok L orig) es \<and> list_all (\<lambda>e. \<not> is_pod_create e) es"
    if "list_all (\<lambda>e. \<exists>n a. e = EvSecret (VGet (?ns, n) a)) es" for es
    using that by (auto simp: list_all_iff)
  have two: "Q out (t @ [?del d] @ es @ [EvPod (VCreate (?p\<lparr>pod_meta := m\<rparr>) r)] @ [EvCI (VPatchStatus True orig y z)])"
    if "list_all (\<lambda>e. \<exists>n a. e = EvSecret (VGet (?ns, n) a)) es" "secrets_checked (cr_policy R) ?ns (pod_spec_of ?p) es"
      "ci_step L orig y" "deleted_ok d" for out d es m r y z
    using Q2 [of "?del d # es" "[EvCI (VPatchStatus True orig y z)]" "?p\<lparr>pod_meta := m\<rparr>" out r] chk [OF that(1)]
      pod_launchedI [OF that(2) [unfolded sha img] refl that(4)] that(3) unfolding sha img by simp
  show ?thesis
    unfolding launchBuild_def finish_patch_def ci_patch_def deleteBuildPods_def check_pod_def
      x buildPod_setCIPhase setCIPhase_frame ns Let_def
    unfolding x [symmetric]
  proof (intro wp_intros wp_check_pod_spec_local, simp_all only: append_assoc kind_simps, goal_cases)
    case 1
    then show ?case using chk by (intro Q) (auto simp: list_all_iff)
  next
    case 2
    then show ?case by (intro two steps) (simp_all add: deleted_ok_iff)
  next
    case 3
    then show ?case by (intro two steps) (simp_all add: deleted_ok_iff)
  next
    case 4
    then show ?case using chk steps by (intro Q) (auto simp: list_all_iff)
  next
    case 5
    then show ?case by (intro Q) simp_all
  qed
qed

lemma wp_startBuild:
  assumes busy: "\<not> following x" "\<not> settled x"
    and sha: "sha = cis_revision (ci_spec_of x)" and img: "img = imageRef x sha"
    and Q: "\<And>out es. list_all (ci_write_ok L x) es \<Longrightarrow> list_all (\<lambda>e. \<not> is_pod_create e) es \<Longrightarrow> Q out (t @ es)"
    and Q2: "\<And>out pre p r post. list_all (ci_write_ok L x) (pre @ post) \<Longrightarrow>
      list_all (\<lambda>e. \<not> is_pod_create e) (pre @ post) \<Longrightarrow> pod_launched L R x svc pre p \<Longrightarrow>
      Q out (t @ pre @ [EvPod (VCreate p r)] @ post)"
  shows "wp (startBuild E L R x svc sha img) Q t"
proof -
  have h: "list_all (ci_write_ok L x) es \<and> list_all (\<lambda>e. \<not> is_pod_create e) es" if "list_all harmless es" for es
    using that harmless_write_ok by (auto simp: list_all_iff elim!: is_pod_create.elims)
  have rej: "ci_step L x (reject_build L t (setCIPhase L t' x CIPhaseResolving m) rs m')" for t t' m rs m'
    using busy by (rule ci_step.reject_late)
  have launch: "wp (launchBuild E L R x (setCIPhase L t0 x CIPhaseResolving m) svc sha img cfg steps) Q (t @ es1 @ es2)"
    if "list_all harmless es1" "list_all harmless es2" for t0 m cfg steps es1 es2
  proof (rule wp_launchBuild [OF busy refl sha img])
    fix out es assume "list_all (ci_write_ok L x) es" "list_all (\<lambda>e. \<not> is_pod_create e) es"
    then show "Q out ((t @ es1 @ es2) @ es)"
      using Q [of "es1 @ es2 @ es"] h that by simp
  next
    fix out pre p r post
    assume a: "list_all (ci_write_ok L x) (pre @ post)" "list_all (\<lambda>e. \<not> is_pod_create e) (pre @ post)"
      "pod_launched L R x svc pre p"
    have "pod_launched L R x svc (es1 @ es2 @ pre) p"
      using a(3) secrets_checked_prepend [of _ _ _ pre "es1 @ es2"] by (auto simp: pod_launched_def)
    then show "Q out ((t @ es1 @ es2) @ pre @ [EvPod (VCreate p r)] @ post)"
      using Q2 [of "es1 @ es2 @ pre" post p out r] a h that by simp
  qed
  show ?thesis
    unfolding startBuild_def finish_patch_def ci_patch_def Let_def
  proof (intro wp_intros wp_frame [OF emits_registrySecret] wp_frame [OF emits_pluginSteps],
      simp_all only: append_assoc kind_simps, goal_cases)
    case 1
    then show ?case using h rej by (intro Q) auto
  next
    case 2
    then show ?case using h rej by (intro Q) auto
  next
    case 3
    then show ?case by (intro launch)
  qed
qed

section \<open>Following the build Pod\<close>

text \<open>The Pod the status names was read in \<open>es\<close>, as \<open>p\<close>.\<close>

definition pod_seen :: "ci \<Rightarrow> trace \<Rightarrow> pod \<Rightarrow> bool" where
  "pod_seen x es p \<longleftrightarrow> (let key = (m_namespace (ci_meta x), cst_build_pod (ci_status_of x)) in
     EvPod (VGet key (Inr p)) \<in> set es \<or> EvPod (VRead key (Inr p)) \<in> set es)"

lemma wp_buildPodOf:
  assumes "\<And>res es. list_all harmless es \<Longrightarrow>
     (\<And>p lst. res = Inr (Some p, lst) \<Longrightarrow> pod_seen x es p) \<Longrightarrow> Q res (t @ es)"
  shows "wp (buildPodOf E R x) Q t"
proof -
  show ?thesis
    unfolding buildPodOf_def api_get_def Let_def
    by (intro wp_intros, simp_all only: append_assoc kind_simps)
      (auto intro!: assms(1) simp: pod_seen_def ignore_not_found_def split: sum.splits if_splits)
qed

fun is_ci_success :: "event \<Rightarrow> bool" where
  "is_ci_success (EvCI (VPatchStatus lock x y r)) = (cst_phase (ci_status_of y) = CIPhaseSucceeded)"
| "is_ci_success _ = False"

lemma harmless_quiet: "harmless e \<Longrightarrow> \<not> is_pod_create e \<and> \<not> is_ci_success e"
  by (cases e) (auto elim!: is_pod_create.elims is_ci_success.elims)

lemma wp_followBuild:
  assumes f: "following x" and sha: "sha = cis_revision (ci_spec_of x)" and img: "img = imageRef x sha"
    and Q: "\<And>out es. list_all (ci_write_ok L x) es \<Longrightarrow> list_all (\<lambda>e. \<not> is_pod_create e) es \<Longrightarrow>
      list_all (\<lambda>e. \<not> is_ci_success e) es \<Longrightarrow> Q out (t @ es)"
    and Q2: "\<And>out pre p y r post. list_all (ci_write_ok L x) (pre @ post) \<Longrightarrow>
      list_all (\<lambda>e. \<not> is_pod_create e \<and> \<not> is_ci_success e) (pre @ post) \<Longrightarrow>
      pod_seen x pre p \<Longrightarrow> pst_phase (pod_status_of p) = PodSucceeded \<Longrightarrow> ci_step L x y \<Longrightarrow>
      Q out (t @ pre @ [EvCI (VPatchStatus True x y r)] @ post)"
  shows "wp (followBuild E L R x svc sha img) Q t"
proof -
  have h: "list_all (ci_write_ok L x) es \<and> list_all (\<lambda>e. \<not> is_pod_create e) es \<and> list_all (\<lambda>e. \<not> is_ci_success e) es"
    if "list_all harmless es" for es
    using that harmless_write_ok harmless_quiet by (auto simp: list_all_iff)
  have one: "Q out (t @ es @ [EvCI (VPatchStatus True x y r)])"
    if "list_all harmless es" "ci_step L x y" "cst_phase (ci_status_of y) \<noteq> CIPhaseSucceeded" for out es y r
    using Q [of "es @ [EvCI (VPatchStatus True x y r)]" out] h [OF that(1)] that(2,3) by simp
  have succ: "Q out (t @ es @ [EvCI (VPatchStatus True x (succeed_build L n (with_plugin_results L x p) img sha) r)] @ es')"
    if "list_all harmless es" "list_all harmless es'" "pod_seen x es p" "podResult p = (ph, msg, True)"
      "ph \<noteq> CIPhaseFailed" for out es es' n p r ph msg
    by (rule Q2 [where p = p])
      (use that h [OF that(1)] h [OF that(2)] podResult_phase [OF that(4)] f
        in \<open>auto simp: list_all_iff sha img intro: ci_step.succeed\<close>)
  show ?thesis
    unfolding followBuild_def finish_patch_def ci_patch_def Let_def
  proof (intro wp_intros wp_buildPodOf wp_frame [OF emits_ensureCD],
      simp_all only: append_assoc kind_simps, goal_cases)
    case 1
    then show ?case using h by (intro Q) auto
  next
    case 2
    then show ?case by (intro one ci_step.lost f) (auto simp: markCIFailed_def)
  next
    case 3
    then show ?case using h by (intro Q) auto
  next
    case 4
    then show ?case by (intro one ci_step.progress f) (auto simp: setCIPhase_def)
  next
    case 5
    then show ?case by (intro one ci_step.fail f) (auto simp: markCIFailed_def dest: podResult_phase)
  next
    case 6
    then show ?case using succ [of _ "[]"] by auto
  next
    case 7
    then show ?case by (intro succ) auto
  qed
qed

section \<open>A whole run\<close>

text \<open>
  The requests of a run from the point where the live CI \<open>x\<close> was read. A Pod is created only
  when nothing is followed or settled, from a Service whose build input validates, once, after
  \<open>pod_launched\<close>; a success is written only after the Pod was read as succeeded.
\<close>

definition ci_run_ok :: "klib \<Rightarrow> ci_reconciler \<Rightarrow> ci \<Rightarrow> trace \<Rightarrow> bool" where
  "ci_run_ok L R x es \<longleftrightarrow> list_all (ci_write_ok L x) es
   \<and> (\<forall>pre p r suf. es = pre @ [EvPod (VCreate p r)] @ suf \<longrightarrow>
        \<not> following x \<and> \<not> settled x \<and> list_all (\<lambda>e. \<not> is_pod_create e) (pre @ suf)
        \<and> (\<exists>svc. EvService (VGet (m_namespace (ci_meta x), ref_name (cis_service (ci_spec_of x))) (Inr svc)) \<in> set pre
             \<and> validateBuild L x svc = None \<and> pod_launched L R x svc pre p))
   \<and> (\<forall>pre y r suf. es = pre @ [EvCI (VPatchStatus True x y r)] @ suf \<longrightarrow>
        cst_phase (ci_status_of y) = CIPhaseSucceeded \<longrightarrow>
        following x \<and> (\<exists>p. pod_seen x pre p \<and> pst_phase (pod_status_of p) = PodSucceeded))"

lemma no_success_at:
  "list_all (\<lambda>e. \<not> is_ci_success e) es \<Longrightarrow> es = pre @ [EvCI (VPatchStatus l x y r)] @ suf \<Longrightarrow>
   cst_phase (ci_status_of y) \<noteq> CIPhaseSucceeded"
  by auto

lemma no_create_at:
  "list_all (\<lambda>e. \<not> is_pod_create e) es \<Longrightarrow> es = pre @ [EvPod (VCreate p r)] @ suf \<Longrightarrow> False"
  by auto

lemma run_ok_quiet:
  "list_all (ci_write_ok L x) es \<Longrightarrow> list_all (\<lambda>e. \<not> is_pod_create e) es \<Longrightarrow>
   list_all (\<lambda>e. \<not> is_ci_success e) es \<Longrightarrow> ci_run_ok L R x es"
  by (auto simp: ci_run_ok_def)

lemma not_following_no_success:
  assumes "list_all (ci_write_ok L x) es" "\<not> following x"
  shows "list_all (\<lambda>e. \<not> is_ci_success e) es"
  unfolding list_all_iff
proof
  fix e assume "e \<in> set es"
  with assms(1) have "ci_write_ok L x e" by (simp add: list_all_iff)
  then show "\<not> is_ci_success e"
    using assms(2) ci_step_cases [of L x] by (cases e rule: is_ci_success.cases) auto
qed

lemma run_ok_launch:
  assumes "list_all (ci_write_ok L x) (pre @ suf)" "list_all (\<lambda>e. \<not> is_pod_create e) (pre @ suf)"
    and "pod_launched L R x svc pre p" "\<not> following x" "\<not> settled x" "validateBuild L x svc = None"
    and "EvService (VGet (m_namespace (ci_meta x), ref_name (cis_service (ci_spec_of x))) (Inr svc)) \<in> set pre"
  shows "ci_run_ok L R x (pre @ [EvPod (VCreate p r)] @ suf)"
proof -
  have w: "list_all (ci_write_ok L x) (pre @ [EvPod (VCreate p r)] @ suf)" using assms(1) by simp
  have "list_all (\<lambda>e. \<not> is_ci_success e) (pre @ [EvPod (VCreate p r)] @ suf)"
    by (rule not_following_no_success [OF w assms(4)])
  moreover have "pre' = pre \<and> EvPod (VCreate p' r') = EvPod (VCreate p r) \<and> suf' = suf"
    if "pre @ [EvPod (VCreate p r)] @ suf = pre' @ [EvPod (VCreate p' r')] @ suf'" for pre' p' r' suf'
    by (rule split_at_unique [of is_pod_create, OF assms(2) _ _ that]) simp_all
  ultimately show ?thesis
    unfolding ci_run_ok_def
  proof (intro conjI allI impI, goal_cases)
    case 1
    show ?case by (rule w)
  next
    case (2 pre' p' r' suf')
    then show ?case using assms(4) by blast
  next
    case (3 pre' p' r' suf')
    then show ?case using assms(5) by blast
  next
    case (4 pre' p' r' suf')
    then have "pre' = pre" "suf' = suf" by blast+
    then show ?case using assms(2) by simp
  next
    case (5 pre' p' r' suf')
    then have "pre' = pre" "p' = p" by blast+
    then show ?case using assms(3,6,7) by blast
  next
    case (6 pre' y r' suf')
    then show ?case using no_success_at by blast
  next
    case (7 pre' y r' suf')
    then show ?case using no_success_at by blast
  qed
qed

lemma run_ok_success:
  assumes "list_all (ci_write_ok L x) (pre @ suf)"
    and "list_all (\<lambda>e. \<not> is_pod_create e \<and> \<not> is_ci_success e) (pre @ suf)"
    and "pod_seen x pre p" "pst_phase (pod_status_of p) = PodSucceeded" "ci_step L x y" "following x"
  shows "ci_run_ok L R x (pre @ [EvCI (VPatchStatus True x y r)] @ suf)"
proof -
  let ?e = "EvCI (VPatchStatus True x y r)"
  have w: "list_all (ci_write_ok L x) (pre @ [?e] @ suf)" using assms(1,5) by simp
  have c: "list_all (\<lambda>e. \<not> is_pod_create e) (pre @ [?e] @ suf)" using assms(2) by (auto simp: list_all_iff)
  have "following x \<and> (\<exists>p. pod_seen x pre' p \<and> pst_phase (pod_status_of p) = PodSucceeded)"
    if eq: "pre @ [?e] @ suf = pre' @ [EvCI (VPatchStatus True x y' r')] @ suf'"
      and s: "cst_phase (ci_status_of y') = CIPhaseSucceeded" for pre' y' r' suf'
  proof (cases "is_ci_success ?e")
    case True
    have "list_all (\<lambda>e. \<not> is_ci_success e) (pre @ suf)" using assms(2) by (auto simp: list_all_iff)
    from split_at_unique [of is_ci_success, OF this True _ eq] s have "pre' = pre" by simp
    with assms(3,4,6) show ?thesis by blast
  next
    case False
    with assms(2) have "list_all (\<lambda>e. \<not> is_ci_success e) (pre @ [?e] @ suf)" by (auto simp: list_all_iff)
    from no_success_at [OF this eq] s show ?thesis by simp
  qed
  note success = this
  show ?thesis
    unfolding ci_run_ok_def
  proof (intro conjI allI impI, goal_cases)
    case 1
    show ?case by (rule w)
  next
    case 6
    then show ?case using success by blast
  next
    case 7
    then show ?case using success by blast
  qed (use no_create_at [OF c] in blast)+
qed

lemma body_follow:
  assumes f: "following x" and "sha = cis_revision (ci_spec_of x)" "img = imageRef x sha"
  shows "wp (followBuild E L R x svc sha img) (\<lambda>out t'. \<exists>es. t' = t @ es \<and> ci_run_ok L R x es)
    (t @ [EvService (VGet key v)])"
proof (rule wp_followBuild [OF assms])
  fix out es
  assume "list_all (ci_write_ok L x) es" "list_all (\<lambda>e. \<not> is_pod_create e) es" "list_all (\<lambda>e. \<not> is_ci_success e) es"
  then have "ci_run_ok L R x ([EvService (VGet key v)] @ es)" by (intro run_ok_quiet) simp_all
  then show "\<exists>es'. (t @ [EvService (VGet key v)]) @ es = t @ es' \<and> ci_run_ok L R x es'" by auto
next
  fix out pre p y r suf
  assume a: "list_all (ci_write_ok L x) (pre @ suf)"
    "list_all (\<lambda>e. \<not> is_pod_create e \<and> \<not> is_ci_success e) (pre @ suf)"
    "pod_seen x pre p" "pst_phase (pod_status_of p) = PodSucceeded" "ci_step L x y"
  have "ci_run_ok L R x ((EvService (VGet key v) # pre) @ [EvCI (VPatchStatus True x y r)] @ suf)"
    by (rule run_ok_success [OF _ _ _ a(4,5) f]) (use a in \<open>auto simp: pod_seen_def Let_def\<close>)
  then show "\<exists>es'. (t @ [EvService (VGet key v)]) @ pre @ [EvCI (VPatchStatus True x y r)] @ suf = t @ es'
     \<and> ci_run_ok L R x es'" by auto
qed

lemma body_start:
  assumes busy: "\<not> following x" "\<not> settled x" and v: "validateBuild L x svc = None"
    and "sha = cis_revision (ci_spec_of x)" "img = imageRef x sha"
    and key: "key = (m_namespace (ci_meta x), ref_name (cis_service (ci_spec_of x)))"
  shows "wp (startBuild E L R x svc sha img) (\<lambda>out t'. \<exists>es. t' = t @ es \<and> ci_run_ok L R x es)
    (t @ [EvService (VGet key (Inr svc))])"
proof (rule wp_startBuild [OF busy assms(4,5)])
  fix out es
  assume a: "list_all (ci_write_ok L x) es" "list_all (\<lambda>e. \<not> is_pod_create e) es"
  have "ci_run_ok L R x ([EvService (VGet key (Inr svc))] @ es)"
    using a not_following_no_success [OF a(1) busy(1)] by (intro run_ok_quiet) simp_all
  then show "\<exists>es'. (t @ [EvService (VGet key (Inr svc))]) @ es = t @ es' \<and> ci_run_ok L R x es'" by auto
next
  fix out pre p r suf
  assume a: "list_all (ci_write_ok L x) (pre @ suf)" "list_all (\<lambda>e. \<not> is_pod_create e) (pre @ suf)"
    "pod_launched L R x svc pre p"
  have "pod_launched L R x svc (EvService (VGet key (Inr svc)) # pre) p"
    using a(3) secrets_checked_prepend [of _ _ _ pre "[EvService (VGet key (Inr svc))]"] by (auto simp: pod_launched_def)
  then have "ci_run_ok L R x ((EvService (VGet key (Inr svc)) # pre) @ [EvPod (VCreate p r)] @ suf)"
    by (intro run_ok_launch [OF _ _ _ busy v]) (use a key in simp_all)
  then show "\<exists>es'. (t @ [EvService (VGet key (Inr svc))]) @ pre @ [EvPod (VCreate p r)] @ suf = t @ es'
     \<and> ci_run_ok L R x es'" by auto
qed

lemma wp_ci_body: "wp (ci_body E L R x) (\<lambda>out t'. \<exists>es. t' = t @ es \<and> ci_run_ok L R x es) t"
proof -
  have quiet: "\<exists>es'. t @ es = t @ es' \<and> ci_run_ok L R x es'"
    if "list_all (ci_write_ok L x) es" "list_all (\<lambda>e. \<not> is_pod_create e) es"
      "list_all (\<lambda>e. \<not> is_ci_success e) es" for es
    using run_ok_quiet [OF that] by blast
  have one: "\<exists>es'. t @ [EvService (VGet key v)] @ [EvCI (VPatchStatus True x y r)] = t @ es' \<and> ci_run_ok L R x es'"
    if "ci_step L x y" "cst_phase (ci_status_of y) \<noteq> CIPhaseSucceeded" for key v y r
    using quiet [of "[EvService (VGet key v), EvCI (VPatchStatus True x y r)]"] that by simp
  have calm: "\<exists>es'. t @ [EvService (VGet key v)] @ es = t @ es' \<and> ci_run_ok L R x es'"
    if "list_all harmless es" for key v es
    using quiet [of "EvService (VGet key v) # es"] that harmless_write_ok harmless_quiet
    by (auto simp: list_all_iff)
  have phases: "cst_phase (ci_status_of (setCIPhase L n x ph m)) = ph"
    "cst_phase (ci_status_of (reject_build L n x rs m)) = CIPhaseFailed" for n ph m rs
    by (simp_all add: ci_setters)
  show ?thesis
    unfolding ci_body_def finish_patch_def ci_patch_def resolveService_def Let_def
  proof (intro wp_intros wp_frame [OF emits_ensureCD], simp_all only: append_assoc kind_simps, goal_cases)
    case 1
    then show ?case by (intro one ci_step.wait) (simp add: phases)
  next
    case 2
    then show ?case by (intro one ci_step.wait) (simp add: phases)
  next
    case 3
    then show ?case by (intro body_follow) (simp_all add: following_def)
  next
    case 4
    then show ?case by (intro calm)
  next
    case (5 svc)
    then show ?case using calm [of "[]"] by simp
  next
    case 6
    then show ?case by (intro body_start) (auto simp: following_def settled_def)
  next
    case 7
    then show ?case by (intro one ci_step.reject) (simp add: phases)
  qed
qed

text \<open>
  The three ways a reconcile can go: nothing but the read; the read and a write of the
  finalizer; or the body on the live CI that was read.
\<close>

definition live_ci :: "klib \<Rightarrow> ci \<Rightarrow> bool" where
  "live_ci L x \<longleftrightarrow> m_deletion (ci_meta x) = None \<and> lib_contains_finalizer L ciFinalizer (ci_meta x)"

lemma run_ci_reconcile:
  assumes "run_state (ci_reconcile E L R key) t = (out, t')"
  obtains (read) r where "t' = t @ [EvCI (VGet key r)]"
  | (finalizer) x y u where "t' = t @ [EvCI (VGet key (Inr x)), EvCI (VUpdate y u)]" "\<not> live_ci L x"
  | (body) x es where "live_ci L x" "t' = t @ EvCI (VGet key (Inr x)) # es" "ci_run_ok L R x es"
proof -
  let ?step = "finalizer_step E L cis ci_meta (\<lambda>f x. x\<lparr>ci_meta := f (ci_meta x)\<rparr>) ciFinalizer key (ci_body E L R)"
  obtain out' where run: "run_state ?step t = (out', t')"
    using assms unfolding ci_reconcile_def run_restart by (cases "run_state ?step t") auto
  from run show thesis
  proof (cases rule: ci_kind.step_run)
    case (failed err)
    then show thesis using read by simp
  next
    case (finalizer x y u)
    then show thesis using that(2) by (auto simp: live_ci_def)
  next
    case (gone x)
    then show thesis using read by simp
  next
    case (body x)
    have "wp (ci_body E L R x) (\<lambda>out t''. \<exists>es. t'' = (t @ [EvCI (VGet key (Inr x))]) @ es \<and> ci_run_ok L R x es)
        (t @ [EvCI (VGet key (Inr x))])"
      by (rule wp_ci_body)
    from wpD [OF this] body(3) obtain es where "t' = (t @ [EvCI (VGet key (Inr x))]) @ es" "ci_run_ok L R x es"
      by auto
    with body(1,2) that(3) show thesis by (simp add: live_ci_def)
  qed
qed

section \<open>Progress\<close>

text \<open>
  An environment that answers a start of a build: the CI \<open>x\<close> and its Service are there, deletion
  and creation of Pods and the status patch succeed.
\<close>

definition start_answers :: "env \<Rightarrow> nsname \<Rightarrow> ci \<Rightarrow> service \<Rightarrow> bool" where
  "start_answers E key x svc \<longleftrightarrow>
     (\<forall>t. ka_get (env_ci E) t key = Inr x)
   \<and> (\<forall>t. ka_get (env_service E) t (m_namespace (ci_meta x), ref_name (cis_service (ci_spec_of x))) = Inr svc)
   \<and> (\<forall>t k v. ka_delete_all (env_pod E) t (m_namespace (ci_meta x)) k v = Inr ())
   \<and> (\<forall>t p. \<exists>q. ka_create (env_pod E) t p = Inr q)
   \<and> (\<forall>t l a b. \<exists>c. ka_patch_status (env_ci E) t l a b = Inr c)"

text \<open>Nothing in the build refers to a Secret or a plugin.\<close>

definition plain_build :: "ci \<Rightarrow> service \<Rightarrow> bool" where
  "plain_build x svc \<longleftrightarrow> cis_plugins (ci_spec_of x) = [] \<and> cis_extra_steps (ci_spec_of x) = []
     \<and> rs_credentials_secret (cis_registry (ci_spec_of x)) = '''' \<and> rs_creds (cis_registry (ci_spec_of x)) = None
     \<and> src_secret_ref (svs_source (sv_spec_of svc)) = None"

lemma check_plain_build:
  assumes "plain_build x svc"
  shows "check_pod pol rd (allowInsecure (buildPod x svc sha img '''' []) hosts) = ret None"
proof -
  have "pod_secret_refs (pod_spec_of (allowInsecure (buildPod x svc sha img '''' []) hosts)) = []"
    using assms by (simp add: refs_allowInsecure refs_buildPod plain_build_def)
  then show ?thesis by (simp add: check_pod_def check_pod_spec_def collect_refs_def)
qed

lemma run_start_plain:
  assumes E: "start_answers E key x svc" and plain: "plain_build x svc" and v: "validateBuild L x svc = None"
    and cm: "cis_dockerfile_config_map (ci_spec_of x) \<noteq> ''''" and busy: "\<not> following x" "\<not> settled x"
    and owner: "owner_lib L (ci_owner x) (m_namespace (ci_meta x))"
  shows "\<exists>es y p q r. run_state (ci_body E L R x) t = ((requeue_after buildPollInterval, None),
       t @ es @ [EvPod (VCreate p (Inr q)), EvCI (VPatchStatus True x y r)])
     \<and> pod_spec_of p = pod_spec_of (allowInsecure (buildPod x svc (cis_revision (ci_spec_of x))
          (imageRef x (cis_revision (ci_spec_of x))) '''' []) (cr_insecure R))
     \<and> cst_phase (ci_status_of y) = CIPhaseBuilding \<and> current_build y \<and> ci_spec_of y = ci_spec_of x
     \<and> cst_build_pod (ci_status_of y) = m_name (pod_meta q)"
proof -
  have sha: "cis_revision (ci_spec_of x) \<noteq> ''''"
    using v by (auto simp: validateBuild_def is_sha_iff split: option.splits if_splits)
  have nf: "\<not> (current_build x \<and> cst_build_pod (ci_status_of x) \<noteq> '''' \<and> cst_phase (ci_status_of x) = CIPhaseBuilding)"
    "\<not> (current_build x \<and> cst_phase (ci_status_of x) = CIPhaseSucceeded)"
    "\<not> (current_build x \<and> cst_phase (ci_status_of x) = CIPhaseFailed)"
    using busy by (auto simp: following_def settled_def)
  obtain q where q: "\<And>t p. ka_create (env_pod E) t p = Inr (q t p)"
    using E unfolding start_answers_def by metis
  obtain c where c: "\<And>t l a b. ka_patch_status (env_ci E) t l a b = Inr (c t l a b)"
    using E unfolding start_answers_def by metis
  have m': "lib_set_controller L (ci_owner x) (pod_meta (buildPod x svc sha img cfg steps))
      = Inr ((pod_meta (buildPod x svc sha img cfg steps))\<lparr>m_controller := Some (ci_owner x)\<rparr>)" for sha img cfg steps
    by (rule owner_libD [OF owner]) (simp_all add: buildPod_def fresh_meta_def)
  have ow: "ci_owner (setCIPhase L n x ph msg) = ci_owner x" for n ph msg by (simp add: ci_owner_def)
  have reg: "registrySecret E L R (setCIPhase L n x ph msg) = ret (Inr '''')" for n ph msg
    using plain by (simp add: registrySecret_def plain_build_def)
  have plug: "pluginSteps E L (setCIPhase L n x ph msg) svc s = ret (Inr [])" for n ph msg s
    using plain by (simp add: pluginSteps_def plain_build_def)
  have y: "cst_phase (ci_status_of (start_build L n (setCIPhase L n' x ph msg) i nm)) = CIPhaseBuilding"
    "current_build (start_build L n (setCIPhase L n' x ph msg) i nm)"
    "cst_build_pod (ci_status_of (start_build L n (setCIPhase L n' x ph msg) i nm)) = nm"
    "ci_spec_of (start_build L n (setCIPhase L n' x ph msg) i nm) = ci_spec_of x" for n n' ph msg i nm
    by (simp_all add: ci_setters current_build_def)
  show ?thesis
    unfolding ci_body_def resolveService_def Let_def if_not_P [OF nf(1)] if_not_P [OF nf(2)] if_not_P [OF nf(3)]
    using E sha v cm y
    by (simp add: start_answers_def k_defs startBuild_def launchBuild_def Let_def reg plug deleteBuildPods_def
        check_plain_build [OF plain] m' ow q c finish_patch_def ci_patch_def)
qed

lemma run_reconcile_body:
  assumes "ka_get (env_ci E) t key = Inr x" "live_ci L x"
    and "run_state (ci_body E L R x) (t @ [EvCI (VGet key (Inr x))]) = ((res, None), t')"
  shows "run_state (ci_reconcile E L R key) t = ((res, None), t')"
  using assms
  by (simp add: ci_reconcile_def run_restart finalizer_step_def k_get_def live_ci_def)

lemma run_reconcile_start_plain:
  assumes "start_answers E key x svc" "live_ci L x" "plain_build x svc" "validateBuild L x svc = None"
    and "cis_dockerfile_config_map (ci_spec_of x) \<noteq> ''''" "\<not> following x" "\<not> settled x"
    and "owner_lib L (ci_owner x) (m_namespace (ci_meta x))"
  shows "\<exists>es y p q r. run_state (ci_reconcile E L R key) t = ((requeue_after buildPollInterval, None),
       t @ es @ [EvPod (VCreate p (Inr q)), EvCI (VPatchStatus True x y r)])
     \<and> pod_spec_of p = pod_spec_of (allowInsecure (buildPod x svc (cis_revision (ci_spec_of x))
          (imageRef x (cis_revision (ci_spec_of x))) '''' []) (cr_insecure R))
     \<and> cst_phase (ci_status_of y) = CIPhaseBuilding \<and> current_build y \<and> ci_spec_of y = ci_spec_of x
     \<and> cst_build_pod (ci_status_of y) = m_name (pod_meta q)"
proof -
  have get: "ka_get (env_ci E) t key = Inr x" using assms(1) by (simp add: start_answers_def)
  from run_start_plain [OF assms(1,3-), of R "t @ [EvCI (VGet key (Inr x))]"]
  obtain es y p q r where run: "run_state (ci_body E L R x) (t @ [EvCI (VGet key (Inr x))])
      = ((requeue_after buildPollInterval, None),
         (t @ [EvCI (VGet key (Inr x))]) @ es @ [EvPod (VCreate p (Inr q)), EvCI (VPatchStatus True x y r)])"
    and y: "pod_spec_of p = pod_spec_of (allowInsecure (buildPod x svc (cis_revision (ci_spec_of x))
          (imageRef x (cis_revision (ci_spec_of x))) '''' []) (cr_insecure R))"
      "cst_phase (ci_status_of y) = CIPhaseBuilding \<and> current_build y \<and> ci_spec_of y = ci_spec_of x
     \<and> cst_build_pod (ci_status_of y) = m_name (pod_meta q)" by blast
  from run_reconcile_body [OF get assms(2) run] y show ?thesis
    by (intro exI [of _ "EvCI (VGet key (Inr x)) # es"] exI [of _ y] exI [of _ p] exI [of _ q] exI [of _ r]) simp
qed

lemma validateBuild_parse:
  "lib_url_parse L = lib_url_parse L' \<Longrightarrow> validateBuild L x svc = validateBuild L' x svc"
  by (simp add: validateBuild_def validate_git_url_def cong: option.case_cong)

lemma validateBuild_spec: "validateBuild L (x\<lparr>ci_status_of := st\<rparr>) svc = validateBuild L x svc"
  by (simp add: validateBuild_def cong: option.case_cong if_cong)

lemma ci_run_ok_create:
  "ci_run_ok L R x es \<Longrightarrow> es = pre @ [EvPod (VCreate p r)] @ suf \<Longrightarrow>
     \<not> following x \<and> \<not> settled x \<and> list_all (\<lambda>e. \<not> is_pod_create e) (pre @ suf)
     \<and> (\<exists>svc. EvService (VGet (m_namespace (ci_meta x), ref_name (cis_service (ci_spec_of x))) (Inr svc)) \<in> set pre
          \<and> validateBuild L x svc = None \<and> pod_launched L R x svc pre p)"
  unfolding ci_run_ok_def by blast

lemma ci_run_ok_success:
  "ci_run_ok L R x es \<Longrightarrow> es = pre @ [EvCI (VPatchStatus True x y r)] @ suf \<Longrightarrow>
     cst_phase (ci_status_of y) = CIPhaseSucceeded \<Longrightarrow>
     following x \<and> (\<exists>p. pod_seen x pre p \<and> pst_phase (pod_status_of p) = PodSucceeded)"
  unfolding ci_run_ok_def by blast

lemma ci_run_ok_write:
  "ci_run_ok L R x es \<Longrightarrow> e \<in> set es \<Longrightarrow> ci_write_ok L x e"
  unfolding ci_run_ok_def list_all_iff by blast

text \<open>A run of a followed build whose Pod has succeeded.\<close>

definition success_answers :: "env \<Rightarrow> nsname \<Rightarrow> ci \<Rightarrow> service \<Rightarrow> pod \<Rightarrow> bool" where
  "success_answers E key x svc p \<longleftrightarrow>
     (\<forall>t. ka_get (env_ci E) t key = Inr x)
   \<and> (\<forall>t. ka_get (env_service E) t (m_namespace (ci_meta x), ref_name (cis_service (ci_spec_of x))) = Inr svc)
   \<and> (\<forall>t. ka_get (env_pod E) t (m_namespace (ci_meta x), cst_build_pod (ci_status_of x)) = Inr p)
   \<and> pst_phase (pod_status_of p) = PodSucceeded"

lemma run_ensureCD: "\<exists>es. run_state (ensureCD E L x svc) t = (fst (run_state (ensureCD E L x svc) t), t @ es)"
  using emits_ensureCD [of E L x svc] unfolding emits_def by (metis prod.collapse)

lemma run_body_success:
  assumes E: "success_answers E key x svc p" and v: "validateBuild L x svc = None"
    and cm: "cis_dockerfile_config_map (ci_spec_of x) \<noteq> ''''" and f: "following x"
  shows "\<exists>n r suf. snd (run_state (ci_body E L R x) t) = t @
      [EvService (VGet (m_namespace (ci_meta x), ref_name (cis_service (ci_spec_of x))) (Inr svc)),
       EvPod (VGet (m_namespace (ci_meta x), cst_build_pod (ci_status_of x)) (Inr p)),
       EvCI (VPatchStatus True x (succeed_build L n (with_plugin_results L x p)
         (imageRef x (cis_revision (ci_spec_of x))) (cis_revision (ci_spec_of x))) r)] @ suf"
proof -
  have sha: "cis_revision (ci_spec_of x) \<noteq> ''''"
    using v by (auto simp: validateBuild_def is_sha_iff split: option.splits if_splits)
  have f': "current_build x \<and> cst_build_pod (ci_status_of x) \<noteq> '''' \<and> cst_phase (ci_status_of x) = CIPhaseBuilding"
    using f by (simp add: following_def)
  let ?t = "t @ [EvService (VGet (m_namespace (ci_meta x), ref_name (cis_service (ci_spec_of x))) (Inr svc)),
       EvPod (VGet (m_namespace (ci_meta x), cst_build_pod (ci_status_of x)) (Inr p))]"
  define y where "y = succeed_build L (env_now E ?t) (with_plugin_results L x p)
      (imageRef x (cis_revision (ci_spec_of x))) (cis_revision (ci_spec_of x))"
  define r where "r = ka_patch_status (env_ci E) ?t True x y"
  have "\<exists>suf. snd (run_state (ci_body E L R x) t) = t @
      [EvService (VGet (m_namespace (ci_meta x), ref_name (cis_service (ci_spec_of x))) (Inr svc)),
       EvPod (VGet (m_namespace (ci_meta x), cst_build_pod (ci_status_of x)) (Inr p)),
       EvCI (VPatchStatus True x y r)] @ suf"
  proof (cases r)
    case (Inl err)
    then show ?thesis
      unfolding ci_body_def resolveService_def Let_def if_P [OF f']
      using E sha v cm
      by (simp add: success_answers_def k_defs followBuild_def buildPodOf_def Let_def ci_patch_def
          podResult_def finish_patch_def y_def r_def)
  next
    case (Inr z)
    obtain suf where suf: "run_state (ensureCD E L z svc) (?t @ [EvCI (VPatchStatus True x y r)])
        = (fst (run_state (ensureCD E L z svc) (?t @ [EvCI (VPatchStatus True x y r)])),
           (?t @ [EvCI (VPatchStatus True x y r)]) @ suf)"
      using run_ensureCD by blast
    obtain err where suf': "run_state (ensureCD E L z svc) (t @ [EvService (VGet (m_namespace (ci_meta x), ref_name (cis_service (ci_spec_of x))) (Inr svc)),
       EvPod (VGet (m_namespace (ci_meta x), cst_build_pod (ci_status_of x)) (Inr p)), EvCI (VPatchStatus True x y (Inr z))]) =
       (err, t @ [EvService (VGet (m_namespace (ci_meta x), ref_name (cis_service (ci_spec_of x))) (Inr svc)),
       EvPod (VGet (m_namespace (ci_meta x), cst_build_pod (ci_status_of x)) (Inr p)), EvCI (VPatchStatus True x y (Inr z))] @ suf)"
      using suf by (simp add: Inr)
    from Inr show ?thesis
      unfolding ci_body_def resolveService_def Let_def if_P [OF f']
      using E sha v cm suf'
      by (simp add: success_answers_def k_defs followBuild_def buildPodOf_def Let_def ci_patch_def
          podResult_def finish_patch_def y_def r_def)
  qed
  then show ?thesis unfolding y_def by blast
qed

lemma run_reconcile_success:
  assumes E: "success_answers E key x svc p" and live: "live_ci L x" and v: "validateBuild L x svc = None"
    and cm: "cis_dockerfile_config_map (ci_spec_of x) \<noteq> ''''" and f: "following x"
  shows "\<exists>es y r suf. run_state (ci_reconcile E L R key) t
       = (fst (run_state (ci_reconcile E L R key) t), t @ es @ [EvCI (VPatchStatus True x y r)] @ suf)
     \<and> cst_phase (ci_status_of y) = CIPhaseSucceeded
     \<and> cst_revision (ci_status_of y) = cis_revision (ci_spec_of x)
     \<and> cst_image (ci_status_of y) = imageRef x (cis_revision (ci_spec_of x))
     \<and> cst_build_count (ci_status_of y) = wrap64 (cst_build_count (ci_status_of x) + 1)"
proof -
  have get: "ka_get (env_ci E) t key = Inr x" using E by (simp add: success_answers_def)
  have "snd (run_state (ci_reconcile E L R key) t) = snd (run_state (ci_body E L R x) (t @ [EvCI (VGet key (Inr x))]))"
    using live get by (cases "run_state (ci_body E L R x) (t @ [EvCI (VGet key (Inr x))])")
      (simp add: ci_reconcile_def run_restart finalizer_step_def k_get_def live_ci_def)
  moreover obtain n r suf where "snd (run_state (ci_body E L R x) (t @ [EvCI (VGet key (Inr x))])) = (t @ [EvCI (VGet key (Inr x))]) @
      [EvService (VGet (m_namespace (ci_meta x), ref_name (cis_service (ci_spec_of x))) (Inr svc)),
       EvPod (VGet (m_namespace (ci_meta x), cst_build_pod (ci_status_of x)) (Inr p)),
       EvCI (VPatchStatus True x (succeed_build L n (with_plugin_results L x p)
         (imageRef x (cis_revision (ci_spec_of x))) (cis_revision (ci_spec_of x))) r)] @ suf"
    using run_body_success [OF E v cm f, of R "t @ [EvCI (VGet key (Inr x))]"] by blast
  ultimately have "run_state (ci_reconcile E L R key) t = (fst (run_state (ci_reconcile E L R key) t),
      t @ [EvCI (VGet key (Inr x)), EvService (VGet (m_namespace (ci_meta x), ref_name (cis_service (ci_spec_of x))) (Inr svc)),
       EvPod (VGet (m_namespace (ci_meta x), cst_build_pod (ci_status_of x)) (Inr p))] @
       [EvCI (VPatchStatus True x (succeed_build L n (with_plugin_results L x p)
         (imageRef x (cis_revision (ci_spec_of x))) (cis_revision (ci_spec_of x))) r)] @ suf)"
    by (simp add: prod_eq_iff)
  then show ?thesis by (intro exI conjI) (assumption, simp_all add: ci_setters)
qed

text \<open>The demonstration objects meet these conditions.\<close>

definition demo_reconciler :: ci_reconciler where
  "demo_reconciler = \<lparr>cr_policy = \<lparr>sp_allow_unlabeled = False\<rparr>, cr_api_reader = True, cr_insecure = []\<rparr>"

lemma demo_start:
  "start_answers demo_env (''shop'', ''api-ci'') demo_ci demo_service" "live_ci demo_owner_lib demo_ci"
  "plain_build demo_ci demo_service" "validateBuild demo_owner_lib demo_ci demo_service = None"
  "cis_dockerfile_config_map (ci_spec_of demo_ci) \<noteq> ''''" "\<not> following demo_ci" "\<not> settled demo_ci"
  "owner_lib demo_owner_lib (ci_owner demo_ci) (m_namespace (ci_meta demo_ci))"
proof -
  show "start_answers demo_env (''shop'', ''api-ci'') demo_ci demo_service"
    by (simp add: start_answers_def)
  show "live_ci demo_owner_lib demo_ci"
    by (simp add: live_ci_def demo_owner_lib_def klib_ref_def demo_ci_def fresh_meta_def)
  show "plain_build demo_ci demo_service" by (simp add: plain_build_def demo_ci_def demo_service_def)
  show "validateBuild demo_owner_lib demo_ci demo_service = None"
  proof -
    have parse: "lib_url_parse demo_owner_lib = lib_url_parse klib_ref" by (simp add: demo_owner_lib_def)
    from validateBuild_parse [OF parse, of demo_ci demo_service] demo_valid show ?thesis by (rule trans)
  qed
  show "cis_dockerfile_config_map (ci_spec_of demo_ci) \<noteq> ''''" by (simp add: demo_ci_def)
  show "\<not> following demo_ci" "\<not> settled demo_ci"
    by (simp_all add: following_def settled_def demo_ci_def)
  show "owner_lib demo_owner_lib (ci_owner demo_ci) (m_namespace (ci_meta demo_ci))"
    by (simp add: owner_lib_def demo_owner_lib_def)
qed

definition demo_following :: ci where
  "demo_following = demo_ci\<lparr>ci_status_of := (ci_status_of demo_ci)\<lparr>cst_phase := CIPhaseBuilding,
     cst_building_revision := demo_sha, cst_build_pod := ''api-ci-x1'', cst_observed_generation := 1\<rparr>\<rparr>"

definition demo_pod :: pod where
  "demo_pod = (buildPod demo_ci demo_service demo_sha ''img'' '''' [])\<lparr>pod_status_of :=
     \<lparr>pst_phase = PodSucceeded, pst_message = '''', pst_init = [], pst_containers = []\<rparr>\<rparr>"

definition demo_done_env :: env where
  "demo_done_env = demo_env\<lparr>env_ci := kapi_ref\<lparr>ka_get := (\<lambda>t key. Inr demo_following)\<rparr>,
     env_pod := kapi_ref\<lparr>ka_get := (\<lambda>t key. Inr demo_pod)\<rparr>\<rparr>"

lemma demo_success:
  "success_answers demo_done_env (''shop'', ''api-ci'') demo_following demo_service demo_pod"
  "live_ci demo_owner_lib demo_following" "validateBuild demo_owner_lib demo_following demo_service = None"
  "cis_dockerfile_config_map (ci_spec_of demo_following) \<noteq> ''''" "following demo_following"
proof -
  show "success_answers demo_done_env (''shop'', ''api-ci'') demo_following demo_service demo_pod"
    by (simp add: success_answers_def demo_done_env_def demo_env_def demo_pod_def)
  show "live_ci demo_owner_lib demo_following"
    using demo_start(2) by (simp add: live_ci_def demo_following_def)
  show "validateBuild demo_owner_lib demo_following demo_service = None"
    using demo_start(4) by (simp add: demo_following_def validateBuild_spec)
  show "cis_dockerfile_config_map (ci_spec_of demo_following) \<noteq> ''''"
    using demo_start(5) by (simp add: demo_following_def)
  show "following demo_following"
    by (simp add: following_def current_build_def demo_following_def demo_ci_def)
qed

section \<open>Properties\<close>

text \<open>C1: A run of the CI reconciler creates a build Pod only for a live CI whose spec at hand is neither
  being followed nor settled, with the Service the CI names, as it was read in the same run, validating as build input;
  before that, in the same run, the CI's earlier Pods were deleted, with an answer of success or "not found", and every
  Secret the Pod references was read with an answer the policy allows; the run creates no other Pod; and the Pod's spec is
  the one \<open>buildPod\<close> makes of the CI, that Service, the revision and the image.\<close>

theorem ci_pod_created_after_checks:
  assumes "run_state (ci_reconcile E L R key) t = (out, t @ pre @ [EvPod (VCreate p r)] @ suf)"
  shows "\<exists>x svc rest. pre = EvCI (VGet key (Inr x)) # rest \<and> live_ci L x \<and> \<not> following x \<and> \<not> settled x
     \<and> EvService (VGet (m_namespace (ci_meta x), ref_name (cis_service (ci_spec_of x))) (Inr svc)) \<in> set rest
     \<and> validateBuild L x svc = None \<and> pod_launched L R x svc rest p
     \<and> list_all (\<lambda>e. \<not> is_pod_create e) (rest @ suf)"
  using assms
proof (cases rule: run_ci_reconcile)
  case (read r')
  then show ?thesis by (auto simp: append_eq_Cons_conv Cons_eq_append_conv)
next
  case (finalizer x y u)
  then show ?thesis by (auto simp: append_eq_Cons_conv Cons_eq_append_conv)
next
  case (body x es)
  then obtain rest where rest: "pre = EvCI (VGet key (Inr x)) # rest" "es = rest @ [EvPod (VCreate p r)] @ suf"
    by (cases pre) auto
  from ci_run_ok_create [OF body(3) rest(2)] show ?thesis
    using rest(1) body(1) by blast
qed

theorem ci_pod_created_after_checks_witness:
  "\<exists>pre p r suf x svc rest. pre = EvCI (VGet (''shop'', ''api-ci'') (Inr x)) # rest
     \<and> pod_launched demo_owner_lib demo_reconciler x svc rest p
     \<and> snd (run_state (ci_reconcile demo_env demo_owner_lib demo_reconciler (''shop'', ''api-ci'')) [])
         = pre @ [EvPod (VCreate p r)] @ suf"
proof -
  obtain es y p q r where run: "run_state (ci_reconcile demo_env demo_owner_lib demo_reconciler (''shop'', ''api-ci'')) []
      = ((requeue_after buildPollInterval, None), [] @ es @ [EvPod (VCreate p (Inr q)), EvCI (VPatchStatus True demo_ci y r)])"
    using run_reconcile_start_plain [OF demo_start, of demo_reconciler "[]"] by blast
  then have run': "run_state (ci_reconcile demo_env demo_owner_lib demo_reconciler (''shop'', ''api-ci'')) []
      = ((requeue_after buildPollInterval, None), [] @ es @ [EvPod (VCreate p (Inr q))] @ [EvCI (VPatchStatus True demo_ci y r)])"
    by simp
  from ci_pod_created_after_checks [OF run'] obtain x svc rest where
    x: "es = EvCI (VGet (''shop'', ''api-ci'') (Inr x)) # rest" "pod_launched demo_owner_lib demo_reconciler x svc rest p"
    by blast
  from run' x show ?thesis
    by (intro exI [of _ es] exI [of _ p] exI [of _ "Inr q"] exI [of _ "[EvCI (VPatchStatus True demo_ci y r)]"]
        exI [of _ x] exI [of _ svc] exI [of _ rest]) simp
qed


text \<open>C2: A run of the CI reconciler writes the phase Succeeded only for the CI it read, while that CI
  was following a build of its current revision and generation, and after it read the build Pod named in
  the status with the phase Succeeded.\<close>

theorem ci_success_needs_pod:
  assumes "run_state (ci_reconcile E L R key) t = (out, t @ pre @ [EvCI (VPatchStatus lock orig y r)] @ suf)"
    and "cst_phase (ci_status_of y) = CIPhaseSucceeded"
  shows "\<exists>rest p. pre = EvCI (VGet key (Inr orig)) # rest \<and> following orig
     \<and> pod_seen orig rest p \<and> pst_phase (pod_status_of p) = PodSucceeded"
  using assms(1)
proof (cases rule: run_ci_reconcile)
  case (read r')
  then show ?thesis by (auto simp: append_eq_Cons_conv Cons_eq_append_conv)
next
  case (finalizer x y u)
  then show ?thesis by (auto simp: append_eq_Cons_conv Cons_eq_append_conv)
next
  case (body x es)
  then obtain rest where rest: "pre = EvCI (VGet key (Inr x)) # rest"
    "es = rest @ [EvCI (VPatchStatus lock orig y r)] @ suf"
    by (cases pre) auto
  have "ci_write_ok L x (EvCI (VPatchStatus lock orig y r))"
    by (rule ci_run_ok_write [OF body(3)]) (simp add: rest)
  then have orig: "lock" "orig = x" by simp_all
  from ci_run_ok_success [OF body(3) _ assms(2)] rest orig show ?thesis by auto
qed

theorem ci_success_needs_pod_witness:
  "\<exists>t pre y r suf rest p. snd (run_state (ci_reconcile demo_done_env demo_owner_lib demo_reconciler (''shop'', ''api-ci'')) [])
       = pre @ [EvCI (VPatchStatus True demo_following y r)] @ suf
     \<and> pre = EvCI (VGet (''shop'', ''api-ci'') (Inr demo_following)) # rest
     \<and> pod_seen demo_following rest p \<and> pst_phase (pod_status_of p) = PodSucceeded"
proof -
  obtain es y r suf where run: "run_state (ci_reconcile demo_done_env demo_owner_lib demo_reconciler (''shop'', ''api-ci'')) []
       = (fst (run_state (ci_reconcile demo_done_env demo_owner_lib demo_reconciler (''shop'', ''api-ci'')) []),
          [] @ es @ [EvCI (VPatchStatus True demo_following y r)] @ suf)"
    and y: "cst_phase (ci_status_of y) = CIPhaseSucceeded"
    using run_reconcile_success [OF demo_success, of demo_reconciler "[]"] by blast
  from ci_success_needs_pod [OF run y] obtain rest p where
    p: "es = EvCI (VGet (''shop'', ''api-ci'') (Inr demo_following)) # rest"
      "pod_seen demo_following rest p" "pst_phase (pod_status_of p) = PodSucceeded" by blast
  have "snd (run_state (ci_reconcile demo_done_env demo_owner_lib demo_reconciler (''shop'', ''api-ci'')) [])
      = es @ [EvCI (VPatchStatus True demo_following y r)] @ suf"
    by (subst run) simp
  with p show ?thesis by blast
qed

text \<open>C8: Every status a run of the CI reconciler writes is written under the optimistic lock, from the CI
  the same run read, and is one of the steps of the status machine \<open>ci_step\<close> from it; and the run deletes no
  Pods but those labelled with that CI in its namespace.\<close>

theorem ci_status_writes_are_steps:
  assumes "run_state (ci_reconcile E L R key) t = (out, t @ es)"
  shows "\<forall>e \<in> set es. case e of
       EvCI (VPatchStatus lock orig y r) \<Rightarrow> lock \<and> EvCI (VGet key (Inr orig)) \<in> set es \<and> ci_step L orig y
     | EvPod (VDeleteAll ns k v r) \<Rightarrow> k = labelCI \<and> (\<exists>x. EvCI (VGet key (Inr x)) \<in> set es
         \<and> ns = m_namespace (ci_meta x) \<and> v = m_name (ci_meta x))
     | EvPod (VDelete p r) \<Rightarrow> False | EvPod (VUpdate p r) \<Rightarrow> False
     | EvService (VUpdate p r) \<Rightarrow> False | EvService (VPatchStatus l p q r) \<Rightarrow> False
     | EvCD (VPatchStatus l p q r) \<Rightarrow> False | _ \<Rightarrow> True"
  using assms
proof (cases rule: run_ci_reconcile)
  case (read r)
  then show ?thesis by simp
next
  case (finalizer x y u)
  then show ?thesis by simp
next
  case (body x es')
  then have es: "es = EvCI (VGet key (Inr x)) # es'" by simp
  show ?thesis
  proof
    fix e assume e: "e \<in> set es"
    show "case e of
       EvCI (VPatchStatus lock orig y r) \<Rightarrow> lock \<and> EvCI (VGet key (Inr orig)) \<in> set es \<and> ci_step L orig y
     | EvPod (VDeleteAll ns k v r) \<Rightarrow> k = labelCI \<and> (\<exists>x. EvCI (VGet key (Inr x)) \<in> set es
         \<and> ns = m_namespace (ci_meta x) \<and> v = m_name (ci_meta x))
     | EvPod (VDelete p r) \<Rightarrow> False | EvPod (VUpdate p r) \<Rightarrow> False
     | EvService (VUpdate p r) \<Rightarrow> False | EvService (VPatchStatus l p q r) \<Rightarrow> False
     | EvCD (VPatchStatus l p q r) \<Rightarrow> False | _ \<Rightarrow> True"
    proof (cases "e = EvCI (VGet key (Inr x))")
      case False
      with e es have "ci_write_ok L x e" using ci_run_ok_write [OF body(3)] by simp
      then show ?thesis using es by (cases "(L, x, e)" rule: ci_write_ok.cases) (auto split: verb.splits)
    qed simp
  qed
qed

theorem ci_status_writes_are_steps_witness:
  "\<exists>es. snd (run_state (ci_reconcile demo_done_env demo_owner_lib demo_reconciler (''shop'', ''api-ci'')) []) = es
     \<and> (\<exists>y r. EvCI (VPatchStatus True demo_following y r) \<in> set es \<and> ci_step demo_owner_lib demo_following y)"
proof -
  obtain es y r suf where run: "run_state (ci_reconcile demo_done_env demo_owner_lib demo_reconciler (''shop'', ''api-ci'')) []
       = (fst (run_state (ci_reconcile demo_done_env demo_owner_lib demo_reconciler (''shop'', ''api-ci'')) []),
          [] @ es @ [EvCI (VPatchStatus True demo_following y r)] @ suf)"
    using run_reconcile_success [OF demo_success, of demo_reconciler "[]"] by blast
  have "snd (run_state (ci_reconcile demo_done_env demo_owner_lib demo_reconciler (''shop'', ''api-ci'')) [])
      = es @ [EvCI (VPatchStatus True demo_following y r)] @ suf"
    by (subst run) simp
  moreover from ci_status_writes_are_steps [OF run] have "ci_step demo_owner_lib demo_following y" by simp
  ultimately show ?thesis by auto
qed

text \<open>C7: In every status a CI can reach, the build count is the number of successes recorded so far, as an
  \<^verbatim>\<open>int64\<close>; an image is recorded exactly when there was one, together with the revision its tag names; and
  the phase Succeeded means that the revision built last is the recorded one.\<close>

theorem ci_reachable_status:
  assumes "ci_reachable L n x"
  shows "image_matches (ci_status_of x) \<and> cst_build_count (ci_status_of x) = wrap64 (int n)
     \<and> (cst_image (ci_status_of x) = '''' \<longleftrightarrow> n = 0)
     \<and> (cst_phase (ci_status_of x) = CIPhaseSucceeded \<longrightarrow>
          cst_revision (ci_status_of x) = cst_building_revision (ci_status_of x) \<and> 0 < n)"
  using ci_reachable_invariant [OF assms] by (auto simp: ci_invariant_def)

theorem ci_reachable_status_witness:
  "\<exists>y. ci_reachable klib_ref 1 y \<and> cst_phase (ci_status_of y) = CIPhaseSucceeded \<and> image_matches (ci_status_of y)
     \<and> cst_build_count (ci_status_of y) = 1"
proof -
  let ?x = "start_build klib_ref 0 (setCIPhase klib_ref 0 demo_ci CIPhaseResolving ''Preparing'') ''img'' ''pod''"
  let ?y = "succeed_build klib_ref 0 (with_plugin_results klib_ref ?x demo_pod)
    (imageRef ?x (cis_revision (ci_spec_of ?x))) (cis_revision (ci_spec_of ?x))"
  have new: "ci_reachable klib_ref 0 demo_ci"
    by (rule ci_reachable.new) (simp add: demo_ci_def empty_ci_status_def)
  have "ci_step klib_ref demo_ci ?x" by (rule ci_step.start) (rule demo_start)+
  from ci_reachable.step [OF new this] have x: "ci_reachable klib_ref 0 ?x" by (simp add: ci_setters)
  have "ci_step klib_ref ?x ?y"
    by (rule ci_step.succeed) (simp_all add: following_def current_build_def ci_setters demo_pod_def)
  from ci_reachable.step [OF x this] have y: "ci_reachable klib_ref 1 ?y" by (simp add: ci_setters)
  moreover have "cst_phase (ci_status_of ?y) = CIPhaseSucceeded" by (simp add: ci_setters)
  moreover have "wrap64 1 = 1" by (rule wrap64_id) simp_all
  ultimately show ?thesis using ci_reachable_status [OF y] by auto
qed





text \<open>C29: A settled CI whose Service cannot be read once is built again. The run in which the read fails writes the
  phase Idle over Succeeded or Failed, keeping the revision and the image recorded; and a run that then finds the CI with
  that status, and its Service readable again, creates a Pod that builds the same revision once more, provided that the
  build is one that starts (as in \<open>ci_starts_build\<close>).\<close>

theorem ci_wait_forgets_build:
  assumes "settled x" "live_ci L x" "ka_get (env_ci E) t key = Inr x"
    and "ka_get (env_service E) (t @ [EvCI (VGet key (Inr x))]) (m_namespace (ci_meta x), ref_name (cis_service (ci_spec_of x))) = Inl err"
  shows "\<exists>y r. snd (run_state (ci_reconcile E L R key) t) = t @ [EvCI (VGet key (Inr x)),
         EvService (VGet (m_namespace (ci_meta x), ref_name (cis_service (ci_spec_of x))) (Inl err)), EvCI (VPatchStatus True x y r)]
     \<and> cst_phase (ci_status_of y) = CIPhaseIdle \<and> cst_revision (ci_status_of y) = cst_revision (ci_status_of x)
     \<and> cst_image (ci_status_of y) = cst_image (ci_status_of x)
     \<and> (\<forall>E' svc t'. start_answers E' key y svc \<and> plain_build x svc \<and> validateBuild L x svc = None
          \<and> cis_dockerfile_config_map (ci_spec_of x) \<noteq> '''' \<and> owner_lib L (ci_owner x) (m_namespace (ci_meta x)) \<longrightarrow>
        (\<exists>es p q z r'. snd (run_state (ci_reconcile E' L R key) t') = t' @ es @ [EvPod (VCreate p (Inr q)), EvCI (VPatchStatus True y z r')]
           \<and> pod_spec_of p = pod_spec_of (allowInsecure (buildPod x svc (cst_building_revision (ci_status_of x))
                (imageRef x (cst_building_revision (ci_status_of x))) '''' []) (cr_insecure R))))"
proof -
  let ?t = "t @ [EvCI (VGet key (Inr x)), EvService (VGet (m_namespace (ci_meta x), ref_name (cis_service (ci_spec_of x))) (Inl err))]"
  define y where "y = setCIPhase L (env_now E ?t) x CIPhaseIdle
    (''Waiting for Service '' @ fmt_q (ref_name (cis_service (ci_spec_of x))) @ '': '' @ err_msg err)"
  define r where "r = ka_patch_status (env_ci E) ?t True x y"
  have "snd (run_state (ci_reconcile E L R key) t) = ?t @ [EvCI (VPatchStatus True x y r)]"
    using assms(2-4) by (simp add: ci_reconcile_def run_restart finalizer_step_def k_get_def live_ci_def ci_body_def
        resolveService_def finish_patch_def ci_patch_def k_patch_status_def y_def r_def)
  moreover have st: "ci_meta y = ci_meta x" "ci_spec_of y = ci_spec_of x" "cst_phase (ci_status_of y) = CIPhaseIdle"
    "cst_revision (ci_status_of y) = cst_revision (ci_status_of x)" "cst_image (ci_status_of y) = cst_image (ci_status_of x)"
    by (simp_all add: y_def setCIPhase_def)
  moreover have "\<not> following y" "\<not> settled y" using st(3) by (simp_all add: following_def settled_def)
  moreover have rev: "cst_building_revision (ci_status_of x) = cis_revision (ci_spec_of x)"
    using assms(1) by (simp add: settled_def current_build_def)
  moreover have same: "live_ci L y" "ci_owner y = ci_owner x" "plain_build y svc = plain_build x svc"
    "validateBuild L y svc = validateBuild L x svc" "imageRef y sha = imageRef x sha"
    "buildPod y svc sha img cfg steps = buildPod x svc sha img cfg steps" for svc sha img cfg steps
    using assms(2) unfolding y_def by (simp_all add: live_ci_def ci_owner_def plain_build_def imageRef_def validateBuild_def setCIPhase_def
        buildPod_def build_container_def build_volumes_def cong: option.case_cong if_cong)
  moreover have "\<exists>es p q z r'. snd (run_state (ci_reconcile E' L R key) t') = t' @ es @ [EvPod (VCreate p (Inr q)), EvCI (VPatchStatus True y z r')]
      \<and> pod_spec_of p = pod_spec_of (allowInsecure (buildPod x svc (cst_building_revision (ci_status_of x))
           (imageRef x (cst_building_revision (ci_status_of x))) '''' []) (cr_insecure R))"
    if "start_answers E' key y svc" "plain_build x svc" "validateBuild L x svc = None"
      "cis_dockerfile_config_map (ci_spec_of x) \<noteq> ''''" "owner_lib L (ci_owner x) (m_namespace (ci_meta x))" for E' svc t'
  proof -
    have "\<exists>es y' p q r. run_state (ci_reconcile E' L R key) t' = ((requeue_after buildPollInterval, None),
        t' @ es @ [EvPod (VCreate p (Inr q)), EvCI (VPatchStatus True y y' r)])
      \<and> pod_spec_of p = pod_spec_of (allowInsecure (buildPod y svc (cis_revision (ci_spec_of y))
          (imageRef y (cis_revision (ci_spec_of y))) '''' []) (cr_insecure R))
      \<and> cst_phase (ci_status_of y') = CIPhaseBuilding \<and> current_build y' \<and> ci_spec_of y' = ci_spec_of y
      \<and> cst_build_pod (ci_status_of y') = m_name (pod_meta q)"
      by (rule run_reconcile_start_plain) (use that st same calculation in simp_all)
    then show ?thesis by (auto simp: same st rev)
  qed
  ultimately show ?thesis by (intro exI [of _ y] exI [of _ r] conjI allI impI) simp_all
qed

text \<open>A build that succeeded, a Service that cannot be read for a moment, and the Pod that builds it again.\<close>

definition demo_settled :: ci where
  "demo_settled = demo_following\<lparr>ci_status_of := (ci_status_of demo_following)\<lparr>cst_phase := CIPhaseSucceeded\<rparr>\<rparr>"

definition demo_blink_env :: env where
  "demo_blink_env = env_ref\<lparr>env_ci := kapi_ref\<lparr>ka_get := (\<lambda>t key. Inr demo_settled)\<rparr>\<rparr>"

theorem ci_wait_forgets_build_witness:
  "\<exists>y E' es p q z r. start_answers E' (''shop'', ''api-ci'') y demo_service \<and> cst_phase (ci_status_of y) = CIPhaseIdle
     \<and> snd (run_state (ci_reconcile E' demo_owner_lib demo_reconciler (''shop'', ''api-ci'')) [])
         = es @ [EvPod (VCreate p (Inr q)), EvCI (VPatchStatus True y z r)]"
proof -
  have f: "ci_meta demo_settled = ci_meta demo_ci" "ci_spec_of demo_settled = ci_spec_of demo_ci"
    by (simp_all add: demo_settled_def demo_following_def)
  have "settled demo_settled"
    by (simp add: demo_settled_def settled_def current_build_def demo_following_def demo_ci_def)
  then have x: "settled demo_settled" "live_ci demo_owner_lib demo_settled" "plain_build demo_settled demo_service"
    "cis_dockerfile_config_map (ci_spec_of demo_settled) \<noteq> ''''"
    "owner_lib demo_owner_lib (ci_owner demo_settled) (m_namespace (ci_meta demo_settled))"
    using demo_start(2,3,5,8) by (simp_all add: live_ci_def plain_build_def ci_owner_def f)
  have v: "validateBuild demo_owner_lib demo_settled demo_service = None"
    using demo_success(3) by (simp add: demo_settled_def validateBuild_spec)
  have E: "ka_get (env_ci demo_blink_env) [] (''shop'', ''api-ci'') = Inr demo_settled"
    "ka_get (env_service demo_blink_env) t k = Inl \<lparr>err_class = ErrNotFound, err_msg = ''not found''\<rparr>" for t k
    by (simp_all add: demo_blink_env_def)
  from ci_wait_forgets_build [OF x(1,2) E(1) E(2), of demo_reconciler] show ?thesis
  proof (elim exE conjE)
    fix y r
    let ?E = "demo_env\<lparr>env_ci := kapi_ref\<lparr>ka_get := (\<lambda>t key. Inr y)\<rparr>\<rparr>"
    assume y: "cst_phase (ci_status_of y) = CIPhaseIdle"
      and again: "\<forall>E' svc t'. start_answers E' (''shop'', ''api-ci'') y svc \<and> plain_build demo_settled svc \<and>
        validateBuild demo_owner_lib demo_settled svc = None \<and> cis_dockerfile_config_map (ci_spec_of demo_settled) \<noteq> [] \<and>
        owner_lib demo_owner_lib (ci_owner demo_settled) (m_namespace (ci_meta demo_settled)) \<longrightarrow>
        (\<exists>es p q z r'. snd (run_state (ci_reconcile E' demo_owner_lib demo_reconciler (''shop'', ''api-ci'')) t')
            = t' @ es @ [EvPod (VCreate p (Inr q)), EvCI (VPatchStatus True y z r')]
          \<and> pod_spec_of p = pod_spec_of (allowInsecure (buildPod demo_settled svc (cst_building_revision (ci_status_of demo_settled))
               (imageRef demo_settled (cst_building_revision (ci_status_of demo_settled))) [] []) (cr_insecure demo_reconciler)))"
    have E': "start_answers ?E (''shop'', ''api-ci'') y demo_service"
      by (simp add: start_answers_def demo_env_def)
    with again [rule_format, of ?E demo_service "[]"] x v obtain es p q z r' where
      "snd (run_state (ci_reconcile ?E demo_owner_lib demo_reconciler (''shop'', ''api-ci'')) [])
        = [] @ es @ [EvPod (VCreate p (Inr q)), EvCI (VPatchStatus True y z r')]" by blast
    then have "snd (run_state (ci_reconcile ?E demo_owner_lib demo_reconciler (''shop'', ''api-ci'')) [])
        = es @ [EvPod (VCreate p (Inr q)), EvCI (VPatchStatus True y z r')]" by (simp only: append_Nil)
    with E' y show ?thesis by blast
  qed
qed

end
