(* ===== verification/CDCtrl.thy ===== *)
theory CDCtrl
  imports Ctrl
begin

text \<open>
  \<^verbatim>\<open>internal/controller/cd_controller.go\<close>: the CD reconciler. It deploys the image its CI built
  last, as a Deployment and a Kubernetes Service of the CD's name, and reports the rollout. The
  code of \<^verbatim>\<open>Reconcile\<close> after the finalizer is \<open>cd_body\<close>, cut at the points where the code
  continues with one more object in hand: \<open>roll_out\<close> from the pod spec on, \<open>expose\<close> from the
  Deployment on. \<open>cd_flow\<close> then describes the requests of every run.
\<close>

section \<open>The reconciler\<close>

definition setCDCondition :: "klib \<Rightarrow> time \<Rightarrow> cd \<Rightarrow> cd_phase \<Rightarrow> cond_status \<Rightarrow> string \<Rightarrow> string \<Rightarrow> cd" where
  "setCDCondition L t d phase status reason message = d\<lparr>cd_status_of := (cd_status_of d)\<lparr>
     cdst_phase := phase, cdst_message := message,
     cdst_conditions := lib_set_condition L t (new_condition ''Ready'' status reason message)
       (cdst_conditions (cd_status_of d))\<rparr>\<rparr>"

definition cd_owner :: "cd \<Rightarrow> owner_ref" where
  "cd_owner d = \<lparr>or_kind = ''CD'', or_name = m_name (cd_meta d), or_uid = m_uid (cd_meta d)\<rparr>"

definition deployFailed :: "deployment \<Rightarrow> bool" where
  "deployFailed d \<longleftrightarrow> (\<exists>c \<in> set (d_conditions d). dc_type c = ''Progressing'' \<and> dc_status c = ConditionFalse
     \<and> dc_reason c = ''ProgressDeadlineExceeded'')"

definition app_port :: "cd \<Rightarrow> int" where
  "app_port d = (if cds_port (cd_spec_of d) = 0 then defaultPort else cds_port (cd_spec_of d))"

definition app_env :: "cd \<Rightarrow> string \<Rightarrow> env_var list" where
  "app_env d img = [env_value ''CONTAINER_IMAGE'' img, env_value ''PORT'' (fmt_d (app_port d))]
     @ cds_env (cd_spec_of d)"

definition present :: "string \<Rightarrow> string option \<Rightarrow> (string \<times> string) list" where
  "present k v = (case v of None \<Rightarrow> [] | Some q \<Rightarrow> [(k, q)])"

definition app_resources :: "cd \<Rightarrow> resource_reqs" where
  "app_resources d = (case cds_resources (cd_spec_of d) of
       None \<Rightarrow> no_resources
     | Some rs \<Rightarrow> \<lparr>
         rr_requests = present ''cpu'' (cdr_cpu_request rs) @ present ''memory'' (cdr_memory_request rs),
         rr_limits = present ''cpu'' (cdr_cpu_limit rs) @ present ''memory'' (cdr_memory_limit rs)\<rparr>)"

definition appPodSpec :: "cd \<Rightarrow> string \<Rightarrow> pod_spec" where
  "appPodSpec d img = empty_pod_spec\<lparr>
     ps_containers := [empty_container\<lparr>k_name := ''app'', k_image := img, k_env := app_env d img,
       k_ports := [\<lparr>cp_name = ''http'', cp_port = app_port d, cp_protocol = ''TCP''\<rparr>],
       k_probe := Some (TCPSocketProbe (app_port d) 5),
       k_resources := app_resources d\<rparr>],
     ps_pull_secrets := (if cds_image_pull_secret (cd_spec_of d) \<noteq> ''''
       then [cds_image_pull_secret (cd_spec_of d)] else [])\<rparr>"

definition app_labels :: "cd \<Rightarrow> labels" where
  "app_labels d = [''koptan.felukka.org/cd'' \<mapsto> m_name (cd_meta d),
     ''koptan.felukka.org/component'' \<mapsto> ''app'']"

definition app_replicas :: "cd \<Rightarrow> int" where
  "app_replicas d = (if cds_replicas (cd_spec_of d) < 0 then 1 else cds_replicas (cd_spec_of d))"

definition empty_deployment :: "string \<Rightarrow> string \<Rightarrow> deployment" where
  "empty_deployment name ns = \<lparr>d_meta = fresh_meta name ns, d_replicas = None, d_selector = None,
     d_strategy = '''', d_template_labels = Map.empty, d_template_spec = empty_pod_spec,
     d_observed_generation = 0, d_updated_replicas = 0, d_available_replicas = 0, d_conditions = []\<rparr>"

definition deployment_object :: "klib \<Rightarrow> cd \<Rightarrow> pod_spec \<Rightarrow> deployment \<Rightarrow> gerror + deployment" where
  \<comment> \<open>the mutate function of \<^verbatim>\<open>reconcileDeployment\<close>\<close>
  "deployment_object L d spec dep =
     (let dep = dep\<lparr>d_meta := (d_meta dep)\<lparr>m_labels := app_labels d\<rparr>,
            d_replicas := Some (app_replicas d),
            d_selector := (case d_selector dep of None \<Rightarrow> Some (app_labels d) | Some s \<Rightarrow> Some s),
            d_template_labels := app_labels d,
            d_template_spec := spec\<rparr>
      in (case lib_set_controller L (cd_owner d) (d_meta dep) of
            Inl err \<Rightarrow> Inl err | Inr m \<Rightarrow> Inr (dep\<lparr>d_meta := m\<rparr>)))"

definition reconcileDeployment :: "env \<Rightarrow> klib \<Rightarrow> cd \<Rightarrow> pod_spec \<Rightarrow> (gerror + deployment) io" where
  "reconcileDeployment E L d spec = create_or_update E deployments
     (empty_deployment (m_name (cd_meta d)) (m_namespace (cd_meta d))) (deployment_object L d spec)"

definition empty_kube_service :: "string \<Rightarrow> string \<Rightarrow> kube_service" where
  "empty_kube_service name ns = \<lparr>ks_meta = fresh_meta name ns, ks_selector = Map.empty, ks_type = '''',
     ks_ports = []\<rparr>"

definition service_object :: "klib \<Rightarrow> cd \<Rightarrow> kube_service \<Rightarrow> gerror + kube_service" where
  \<comment> \<open>the mutate function of \<^verbatim>\<open>reconcileService\<close>\<close>
  "service_object L d s =
     (let s = s\<lparr>ks_meta := (ks_meta s)\<lparr>m_labels := app_labels d\<rparr>,
            ks_selector := app_labels d,
            ks_type := ''ClusterIP'',
            ks_ports := [\<lparr>sp_name = ''http'', sp_port = 80, sp_target = app_port d, sp_protocol = ''TCP''\<rparr>]\<rparr>
      in (case lib_set_controller L (cd_owner d) (ks_meta s) of
            Inl err \<Rightarrow> Inl err | Inr m \<Rightarrow> Inr (s\<lparr>ks_meta := m\<rparr>)))"

definition reconcileService :: "env \<Rightarrow> klib \<Rightarrow> cd \<Rightarrow> gerror option io" where
  "reconcileService E L d = do {
     r \<leftarrow> create_or_update E kube_services
       (empty_kube_service (m_name (cd_meta d)) (m_namespace (cd_meta d))) (service_object L d);
     ret (err_of r)
   }"

definition cd_patch :: "env \<Rightarrow> cd \<Rightarrow> cd \<Rightarrow> gerror option io" where
  \<comment> \<open>\<^verbatim>\<open>patchStatus\<close>, a merge patch without the optimistic lock\<close>
  "cd_patch E orig d = do { r \<leftarrow> k_patch_status E cds False orig d; ret (err_of r) }"

definition wanted :: "deployment \<Rightarrow> int" where
  "wanted dep = (case d_replicas dep of None \<Rightarrow> 1 | Some n \<Rightarrow> n)"

definition rolledOut :: "deployment \<Rightarrow> bool" where
  "rolledOut dep \<longleftrightarrow> d_observed_generation dep \<ge> m_generation (d_meta dep)
     \<and> d_updated_replicas dep \<ge> wanted dep \<and> d_available_replicas dep \<ge> wanted dep"

definition observe :: "klib \<Rightarrow> time \<Rightarrow> cd \<Rightarrow> ci \<Rightarrow> deployment \<Rightarrow> cd" where
  \<comment> \<open>the status \<^verbatim>\<open>Reconcile\<close> derives from the CI and the Deployment\<close>
  "observe L t d x dep =
     (let img = cst_image (ci_status_of x);
          d = d\<lparr>cd_status_of := (cd_status_of d)\<lparr>cdst_image := img,
                cdst_revision := cst_revision (ci_status_of x),
                cdst_available_replicas := d_available_replicas dep\<rparr>\<rparr>;
          progress = fmt_d (d_available_replicas dep) @ ''/'' @ fmt_d (wanted dep)
      in if rolledOut dep then
           setCDCondition L t d CDPhaseRunning ConditionTrue ''Deployed''
             (progress @ '' replicas available, image '' @ img)
         else if deployFailed dep then
           setCDCondition L t d CDPhaseFailed ConditionFalse ''ProgressDeadlineExceeded''
             (''deployment is not progressing: '' @ progress @ '' replicas available'')
         else setCDCondition L t d CDPhaseDeploying ConditionUnknown ''RollingOut''
             (progress @ '' replicas available, rolling out '' @ img))"

definition expose :: "env \<Rightarrow> klib \<Rightarrow> cd \<Rightarrow> ci \<Rightarrow> deployment \<Rightarrow> outcome io" where
  "expose E L d x dep = do {
     err \<leftarrow> reconcileService E L d;
     t \<leftarrow> now E;
     (case err of
        Some err \<Rightarrow>
          if is_conflict err then ret (requeue, None)
          else do {
            _ \<leftarrow> cd_patch E d (setCDCondition L t d CDPhaseFailed ConditionFalse ''ServiceFailed''
              (''create/update service: '' @ err_msg err));
            ret (no_requeue, Some err)
          }
      | None \<Rightarrow> do {
          err \<leftarrow> cd_patch E d (observe L t d x dep);
          ret (no_requeue, err)
        })
   }"

definition roll_out :: "env \<Rightarrow> klib \<Rightarrow> secret_policy \<Rightarrow> cd \<Rightarrow> ci \<Rightarrow> outcome io" where
  "roll_out E L pol d x = (let spec = appPodSpec d (cst_image (ci_status_of x)) in do {
     err \<leftarrow> check_pod_spec pol (k_get E secrets) (m_namespace (cd_meta d)) spec;
     t \<leftarrow> now E;
     (case err of
        Some err \<Rightarrow> do {
          p \<leftarrow> cd_patch E d (setCDCondition L t d CDPhaseFailed ConditionFalse ''SecretNotAllowed'' (err_msg err));
          ret (no_requeue, p)
        }
      | None \<Rightarrow> do {
          r \<leftarrow> reconcileDeployment E L d spec;
          t \<leftarrow> now E;
          (case r of
             Inl err \<Rightarrow>
               if is_conflict err then ret (requeue, None)
               else do {
                 _ \<leftarrow> cd_patch E d (setCDCondition L t d CDPhaseFailed ConditionFalse ''DeploymentFailed''
                   (''create/update deployment: '' @ err_msg err));
                 ret (no_requeue, Some err)
               }
           | Inr dep \<Rightarrow> expose E L d x dep)
        })
   })"

definition cd_body :: "env \<Rightarrow> klib \<Rightarrow> secret_policy \<Rightarrow> cd \<Rightarrow> outcome io" where
  "cd_body E L pol d = do {
     found \<leftarrow> k_get E cis (m_namespace (cd_meta d), ref_name (cds_ci (cd_spec_of d)));
     t \<leftarrow> now E;
     (case found of
        Inl err \<Rightarrow> do {
          p \<leftarrow> cd_patch E d (setCDCondition L t d CDPhaseWaiting ConditionFalse ''CIResolveFailed''
            (''resolve CI '' @ fmt_q (ref_name (cds_ci (cd_spec_of d))) @ '': '' @ err_msg err));
          ret (requeue_after (seconds 30), p)
        }
      | Inr x \<Rightarrow>
          if cst_image (ci_status_of x) = '''' then do {
            p \<leftarrow> cd_patch E d (setCDCondition L t d CDPhaseWaiting ConditionFalse ''WaitingForCI''
              (''Waiting for CI '' @ fmt_q (m_name (ci_meta x)) @ '' to build an image (phase: ''
                @ ci_phase_string (cst_phase (ci_status_of x)) @ '')''));
            ret (no_requeue, p)
          }
          else roll_out E L pol d x)
   }"

definition cd_reconcile :: "env \<Rightarrow> klib \<Rightarrow> secret_policy \<Rightarrow> nsname \<Rightarrow> outcome io" where
  "cd_reconcile E L pol key =
     finalizer_step E L cds cd_meta (\<lambda>f d. d\<lparr>cd_meta := f (cd_meta d)\<rparr>) cdFinalizer key (cd_body E L pol)"

section \<open>Facts about the pieces\<close>

lemma refs_appPodSpec:
  "pod_secret_refs (appPodSpec d img) = env_refs (cds_env (cd_spec_of d))
     @ (if cds_image_pull_secret (cd_spec_of d) = '''' then [] else [(cds_image_pull_secret (cd_spec_of d), None)])"
  by (simp add: appPodSpec_def pod_secret_refs_def container_refs_def empty_pod_spec_def empty_container_def
      app_env_def env_value_def env_refs_def env_from_refs_def volume_refs_def)

lemma observe_phase:
  "cdst_phase (cd_status_of (observe L t d x dep)) = CDPhaseRunning \<longleftrightarrow> rolledOut dep"
  by (simp add: observe_def Let_def setCDCondition_def)

lemma observe_frame:
  "cd_meta (observe L t d x dep) = cd_meta d" "cd_spec_of (observe L t d x dep) = cd_spec_of d"
  "cdst_image (cd_status_of (observe L t d x dep)) = cst_image (ci_status_of x)"
  "cdst_revision (cd_status_of (observe L t d x dep)) = cst_revision (ci_status_of x)"
  "cdst_available_replicas (cd_status_of (observe L t d x dep)) = d_available_replicas dep"
  by (simp_all add: observe_def Let_def setCDCondition_def)

lemma deployment_object_Inr:
  assumes "deployment_object L d spec dep = Inr dep'"
  shows "d_template_spec dep' = spec \<and> d_replicas dep' = Some (app_replicas d)
    \<and> d_template_labels dep' = app_labels d
    \<and> lib_set_controller L (cd_owner d) ((d_meta dep)\<lparr>m_labels := app_labels d\<rparr>) = Inr (d_meta dep')"
  using assms by (auto simp: deployment_object_def Let_def split: sum.splits)

end
