(* ===== verification/CDProofs.thy ===== *)
theory CDProofs
  imports CDCtrl Demo
begin

text \<open>
  What a run of the CD reconciler may do (theory \<open>CDCtrl\<close>): \<open>cd_flow\<close> gives the shape of every
  run, \<open>run_cd_plain\<close> the run of a CD whose rollout succeeds, and the properties follow.
\<close>

section \<open>The requests of a run\<close>

text \<open>
  \<open>cd_quiet\<close>: the reads of a run. \<open>cd_held\<close>: the statuses written when nothing was deployed. A run
  then is quiet, or ends by reporting that nothing is deployed, or stores the Deployment
  (\<open>deploy\<close>); after that come the requests about the Kubernetes Service and the status.
\<close>

fun cd_quiet :: "event \<Rightarrow> bool" where
  "cd_quiet (EvCI (VGet k r)) = True"
| "cd_quiet (EvSecret (VGet k r)) = True"
| "cd_quiet (EvDeployment (VFetch d r)) = True"
| "cd_quiet (EvKubeService (VFetch s r)) = True"
| "cd_quiet _ = False"

definition cd_held :: "klib \<Rightarrow> cd \<Rightarrow> cd \<Rightarrow> bool" where
  "cd_held L d d' \<longleftrightarrow> (\<exists>t ph reason msg. ph \<noteq> CDPhaseRunning \<and> d' = setCDCondition L t d ph ConditionFalse reason msg)"

text \<open>
  What has to be in the history before a Deployment is stored: the CI with its image, usable
  answers for every Secret of the pod spec, and the current Deployment, from which the stored one was made.
\<close>

definition cd_ready :: "klib \<Rightarrow> secret_policy \<Rightarrow> cd \<Rightarrow> ci \<Rightarrow> trace \<Rightarrow> deployment \<Rightarrow> bool" where
  "cd_ready L pol d x pre dep \<longleftrightarrow>
     EvCI (VGet (m_namespace (cd_meta d), ref_name (cds_ci (cd_spec_of d))) (Inr x)) \<in> set pre
   \<and> cst_image (ci_status_of x) \<noteq> ''''
   \<and> secrets_checked pol (m_namespace (cd_meta d)) (appPodSpec d (cst_image (ci_status_of x))) pre
   \<and> (\<exists>dep0. EvDeployment (VFetch (empty_deployment (m_name (cd_meta d)) (m_namespace (cd_meta d))) (Inr dep0)) \<in> set pre
        \<and> deployment_object L d (appPodSpec d (cst_image (ci_status_of x))) dep0 = Inr dep)"

fun cd_after :: "klib \<Rightarrow> cd \<Rightarrow> ci \<Rightarrow> gerror + deployment \<Rightarrow> event \<Rightarrow> bool" where
  "cd_after L d x r (EvKubeService (VFetch s a)) = True"
| "cd_after L d x r (EvKubeService (VStore s a)) = (\<exists>s0. service_object L d s0 = Inr s)"
| "cd_after L d x r (EvCD (VPatchStatus lock orig d' a)) = (\<not> lock \<and> orig = d
     \<and> (cd_held L d d' \<or> (\<exists>t dep. r = Inr dep \<and> d' = observe L t d x dep)))"
| "cd_after L d x r _ = False"

fun is_store :: "event \<Rightarrow> bool" where
  "is_store (EvDeployment (VStore d r)) = True"
| "is_store _ = False"

fun is_ks_store :: "event \<Rightarrow> bool" where
  "is_ks_store (EvKubeService (VStore s r)) = True"
| "is_ks_store _ = False"

fun is_cd_patch :: "event \<Rightarrow> bool" where
  "is_cd_patch (EvCD (VPatchStatus l d d' r)) = True"
| "is_cd_patch _ = False"

text \<open>After the Deployment: at most one Kubernetes Service, made from the one fetched, and at most one status.\<close>

definition cd_tail :: "klib \<Rightarrow> cd \<Rightarrow> ci \<Rightarrow> gerror + deployment \<Rightarrow> trace \<Rightarrow> bool" where
  "cd_tail L d x r suf \<longleftrightarrow> list_all (cd_after L d x r) suf \<and> length (filter is_ks_store suf) \<le> 1 \<and> length (filter is_cd_patch suf) \<le> 1
     \<and> (\<forall>s a. EvKubeService (VStore s a) \<in> set suf \<longrightarrow> (\<exists>s0.
          EvKubeService (VFetch (empty_kube_service (m_name (cd_meta d)) (m_namespace (cd_meta d))) (Inr s0)) \<in> set suf
          \<and> service_object L d s0 = Inr s))"

inductive cd_flow :: "klib \<Rightarrow> secret_policy \<Rightarrow> cd \<Rightarrow> trace \<Rightarrow> bool" for L pol d where
  quiet: "list_all cd_quiet es \<Longrightarrow> cd_flow L pol d es"
| held: "list_all cd_quiet es \<Longrightarrow> cd_held L d d' \<Longrightarrow> cd_flow L pol d (es @ [EvCD (VPatchStatus False d d' a)])"
| deploy: "list_all cd_quiet es \<Longrightarrow> cd_ready L pol d x es dep \<Longrightarrow> cd_tail L d x r suf \<Longrightarrow>
    cd_flow L pol d (es @ [EvDeployment (VStore dep r)] @ suf)"

lemma cd_heldI: "ph \<noteq> CDPhaseRunning \<Longrightarrow> cd_held L d (setCDCondition L t d ph ConditionFalse reason msg)"
  unfolding cd_held_def by blast

lemma wp_expose:
  assumes Q: "\<And>out es. cd_tail L d x (Inr dep) es \<Longrightarrow> Q out (t @ es)"
  shows "wp (expose E L d x dep) Q t"
  unfolding expose_def reconcileService_def cd_patch_def
  by (intro wp_intros wp_create_or_update; (simp only: append_assoc kind_simps)?)
    (auto intro!: Q simp: cd_tail_def cd_heldI)

lemma wp_roll_out:
  assumes ci: "EvCI (VGet (m_namespace (cd_meta d), ref_name (cds_ci (cd_spec_of d))) (Inr x)) \<in> set pre"
    and pre: "list_all cd_quiet pre" and img: "cst_image (ci_status_of x) \<noteq> ''''"
    and Q: "\<And>out es. cd_flow L pol d (pre @ es) \<Longrightarrow> Q out (t @ es)"
  shows "wp (roll_out E L pol d x) Q t"
proof -
  let ?spec = "appPodSpec d (cst_image (ci_status_of x))"
  let ?fetch = "\<lambda>r. EvDeployment (VFetch (empty_deployment (m_name (cd_meta d)) (m_namespace (cd_meta d))) r)"
  have secrets: "list_all cd_quiet es"
    if "list_all (\<lambda>e. \<exists>n a. e = EvSecret (VGet (m_namespace (cd_meta d), n) a)) es" for es
    using that by (auto simp: list_all_iff)
  have dep: "cd_ready L pol d x (pre @ es @ [EvDeployment (VFetch
        (empty_deployment (m_name (cd_meta d)) (m_namespace (cd_meta d))) (Inr dep0))]) dep"
    if "secrets_checked pol (m_namespace (cd_meta d)) ?spec es" "deployment_object L d ?spec dep0 = Inr dep" for es dep0 dep
    using that ci img unfolding cd_ready_def secrets_checked_def by auto
  have quietQ: "Q out (t @ es)" if "list_all cd_quiet es" for out es
    by (rule Q, rule cd_flow.quiet) (simp add: pre that)
  have heldQ: "Q out (t @ es @ [EvCD (VPatchStatus False d d' a)])"
    if "list_all cd_quiet es" "cd_held L d d'" for out es d' a
    using Q [of "es @ [EvCD (VPatchStatus False d d' a)]" out]
      cd_flow.held [of "pre @ es" L d d' pol a] pre that by simp
  have depQ: "Q out (t @ es @ [?fetch (Inr dep0), EvDeployment (VStore dep r)] @ suf)"
    if "list_all (\<lambda>e. \<exists>n a. e = EvSecret (VGet (m_namespace (cd_meta d), n) a)) es"
      "secrets_checked pol (m_namespace (cd_meta d)) ?spec es" "deployment_object L d ?spec dep0 = Inr dep"
      "cd_tail L d x r suf" for out es dep0 dep r suf
    using Q [of "es @ [?fetch (Inr dep0), EvDeployment (VStore dep r)] @ suf" out]
      cd_flow.deploy [OF _ dep [OF that(2,3)] that(4)] pre secrets [OF that(1)] by simp
  show ?thesis
    unfolding roll_out_def Let_def reconcileDeployment_def cd_patch_def
  proof (intro wp_intros wp_create_or_update wp_check_pod_spec_local wp_expose,
      simp_all only: append_assoc kind_simps sum.distinct, goal_cases)
    case (1 r es)
    then show ?case using quietQ [of "es @ [?fetch _]"] secrets by simp
  next
    case (2 r es)
    then show ?case using heldQ [of "es @ [?fetch _]"] secrets by (simp add: cd_heldI)
  next
    case (3 r es)
    then show ?case using quietQ [of "es @ [?fetch _]"] secrets by simp
  next
    case (4 r es)
    then show ?case using heldQ [of "es @ [?fetch _]"] secrets by (simp add: cd_heldI)
  next
    case (5 r es)
    then show ?case using depQ [where suf = "[]"] by (simp add: cd_tail_def)
  next
    case (6 r es)
    then show ?case using depQ by (simp add: cd_tail_def cd_heldI)
  next
    case (7 r es)
    then show ?case using depQ by simp
  next
    case (8 r es)
    then show ?case using heldQ [of es] secrets by (simp add: cd_heldI)
  qed
qed

lemma wp_cd_body:
  assumes Q: "\<And>out es. cd_flow L pol d es \<Longrightarrow> Q out (t @ es)"
  shows "wp (cd_body E L pol d) Q t"
proof -
  let ?key = "(m_namespace (cd_meta d), ref_name (cds_ci (cd_spec_of d)))"
  have one: "Q out (t @ [EvCI (VGet ?key r), EvCD (VPatchStatus False d d' a)])" if "cd_held L d d'" for out r d' a
    using Q [OF cd_flow.held [OF _ that], of "[EvCI (VGet ?key r)]"] by simp
  have roll: "wp (roll_out E L pol d x) Q (t @ [EvCI (VGet ?key (Inr x))])" if "cst_image (ci_status_of x) \<noteq> ''''" for x
    by (rule wp_roll_out [of _ _ "[EvCI (VGet ?key (Inr x))]"]) (use that Q in auto)
  show ?thesis
    unfolding cd_body_def cd_patch_def
    by (intro wp_intros; (simp only: append_assoc kind_simps)?)
      (auto intro!: one cd_heldI roll)
qed

definition live_cd :: "klib \<Rightarrow> cd \<Rightarrow> bool" where
  "live_cd L d \<longleftrightarrow> m_deletion (cd_meta d) = None \<and> lib_contains_finalizer L cdFinalizer (cd_meta d)"

lemma run_cd_reconcile:
  assumes "run_state (cd_reconcile E L pol key) t = (out, t')"
  obtains (read) r where "t' = t @ [EvCD (VGet key r)]"
  | (finalizer) d d' u where "t' = t @ [EvCD (VGet key (Inr d)), EvCD (VUpdate d' u)]" "\<not> live_cd L d"
      "d' = d\<lparr>cd_meta := (if m_deletion (cd_meta d) = None then lib_add_finalizer L cdFinalizer
         else lib_remove_finalizer L cdFinalizer) (cd_meta d)\<rparr>"
  | (body) d es where "live_cd L d" "t' = t @ EvCD (VGet key (Inr d)) # es" "cd_flow L pol d es"
  using assms unfolding cd_reconcile_def
proof (cases rule: cd_kind.step_run)
  case (failed err)
  then show thesis using read by simp
next
  case (finalizer d d' u)
  then show thesis using that(2) by (auto simp: live_cd_def)
next
  case (gone d)
  then show thesis using read by simp
next
  case (body d)
  have "wp (cd_body E L pol d) (\<lambda>out t'. \<exists>es. cd_flow L pol d es \<and> t' = (t @ [EvCD (VGet key (Inr d))]) @ es)
      (t @ [EvCD (VGet key (Inr d))])"
    by (rule wp_cd_body) blast
  from wpD [OF this] body(3) obtain es where
    "cd_flow L pol d es" "t' = (t @ [EvCD (VGet key (Inr d))]) @ es" by auto
  with body(1,2) that(3) show thesis by (simp add: live_cd_def)
qed

lemma cd_flow_store:
  assumes "cd_flow L pol d es" "es = pre @ [EvDeployment (VStore dep r)] @ suf"
  shows "\<exists>x. cd_ready L pol d x pre dep"
  using assms
proof cases
  case quiet
  with assms(2) show ?thesis by simp
next
  case (held es' d' a)
  with assms(2) have "EvDeployment (VStore dep r) \<in> set (es' @ [EvCD (VPatchStatus False d d' a)])" by simp
  with held show ?thesis by (auto simp: list_all_iff)
next
  case (deploy es' x dep' r' suf')
  have "list_all (\<lambda>e. \<not> is_store e) (es' @ suf')"
    using deploy(2,4) by (auto simp: cd_tail_def list_all_iff elim!: is_store.elims)
  from split_at_unique [where P = is_store, OF this, of "EvDeployment (VStore dep' r')" "EvDeployment (VStore dep r)" pre suf]
    deploy assms(2) show ?thesis by auto
qed

text \<open>All requests of a run after the CD was read.\<close>

fun cd_allowed :: "klib \<Rightarrow> cd \<Rightarrow> trace \<Rightarrow> event \<Rightarrow> bool" where
  "cd_allowed L d es (EvCD (VPatchStatus lock orig d' a)) = (\<not> lock \<and> orig = d \<and> cd_meta d' = cd_meta d \<and> cd_spec_of d' = cd_spec_of d)"
| "cd_allowed L d es (EvDeployment (VStore w r)) = (\<exists>img d0.
     EvDeployment (VFetch (empty_deployment (m_name (cd_meta d)) (m_namespace (cd_meta d))) (Inr d0)) \<in> set es
     \<and> deployment_object L d (appPodSpec d img) d0 = Inr w)"
| "cd_allowed L d es (EvKubeService (VStore s r)) = (\<exists>s0.
     EvKubeService (VFetch (empty_kube_service (m_name (cd_meta d)) (m_namespace (cd_meta d))) (Inr s0)) \<in> set es
     \<and> service_object L d s0 = Inr s)"
| "cd_allowed L d es e = cd_quiet e"

lemma held_frame: "cd_held L d d' \<Longrightarrow> cd_meta d' = cd_meta d \<and> cd_spec_of d' = cd_spec_of d"
  by (auto simp: cd_held_def setCDCondition_def)

lemma cd_quiet_allowed: "cd_quiet e \<Longrightarrow> cd_allowed L d es e"
  by (cases e rule: cd_quiet.cases) simp_all

lemma cd_tail_allowed:
  assumes "cd_tail L d x r suf" "e \<in> set suf"
  shows "cd_allowed L d (pre @ suf) e"
proof -
  have "cd_after L d x r e" using assms by (auto simp: cd_tail_def list_all_iff)
  then show ?thesis
  proof (cases "(L, d, x, r, e)" rule: cd_after.cases)
    case (2 L' d' x' r' s a)
    then have "EvKubeService (VStore s a) \<in> set suf" using assms(2) by simp
    with assms(1) 2 show ?thesis unfolding cd_tail_def by fastforce
  qed (auto simp: observe_frame dest: held_frame)
qed

lemma cd_flow_events:
  assumes "cd_flow L pol d es" "e \<in> set es"
  shows "cd_allowed L d es e"
  using assms
proof (induction rule: cd_flow.induct)
  case (quiet es)
  then show ?case by (auto simp: list_all_iff cd_quiet_allowed)
next
  case (held es d' a)
  then show ?case by (auto simp: list_all_iff cd_quiet_allowed dest: held_frame)
next
  case (deploy es x dep r suf)
  from deploy(4) consider "e \<in> set es" | "e = EvDeployment (VStore dep r)" | "e \<in> set suf" by auto
  then show ?case
  proof cases
    case 1
    with deploy(1) show ?thesis by (auto simp: list_all_iff cd_quiet_allowed)
  next
    case 2
    from deploy(2) obtain d0 where
      "EvDeployment (VFetch (empty_deployment (m_name (cd_meta d)) (m_namespace (cd_meta d))) (Inr d0)) \<in> set es"
      "deployment_object L d (appPodSpec d (cst_image (ci_status_of x))) d0 = Inr dep" unfolding cd_ready_def by blast
    with 2 show ?thesis by auto
  next
    case 3
    from cd_tail_allowed [OF deploy(3) 3, of "es @ [EvDeployment (VStore dep r)]"] show ?thesis by simp
  qed
qed

lemma no_filter: "list_all (\<lambda>e. \<not> P e) es \<Longrightarrow> filter P es = []"
  by (auto simp: list_all_iff filter_empty_conv)

lemma cd_quiet_filters:
  assumes "list_all cd_quiet es"
  shows "filter is_store es = []" "filter is_ks_store es = []" "filter is_cd_patch es = []"
  using assms by (auto simp: filter_empty_conv list_all_iff elim!: is_store.elims is_ks_store.elims is_cd_patch.elims)

lemma cd_flow_once:
  assumes "cd_flow L pol d es"
  shows "length (filter is_store es) \<le> 1" "length (filter is_ks_store es) \<le> 1" "length (filter is_cd_patch es) \<le> 1"
proof -
  have "length (filter is_store es) \<le> 1 \<and> length (filter is_ks_store es) \<le> 1 \<and> length (filter is_cd_patch es) \<le> 1"
    using assms
  proof (induction rule: cd_flow.induct)
    case (deploy es x dep r suf)
    have "filter is_store suf = []"
      using deploy(3) by (auto simp: cd_tail_def filter_empty_conv list_all_iff elim!: is_store.elims)
    with deploy show ?case by (simp add: cd_quiet_filters cd_tail_def)
  qed (simp_all add: cd_quiet_filters)
  then show "length (filter is_store es) \<le> 1" "length (filter is_ks_store es) \<le> 1" "length (filter is_cd_patch es) \<le> 1" by simp_all
qed

lemma cd_flow_running:
  assumes "cd_flow L pol d es" "es = pre @ [EvCD (VPatchStatus lock orig y r)] @ suf"
    and "cdst_phase (cd_status_of y) = CDPhaseRunning"
  shows "\<exists>x w dep n. orig = d \<and> y = observe L n d x dep \<and> EvDeployment (VStore w (Inr dep)) \<in> set pre \<and> cd_ready L pol d x pre w"
  using assms(1)
proof cases
  case quiet
  with assms(2) show ?thesis by simp
next
  case (held es' d' a)
  with assms(2) have "EvCD (VPatchStatus lock orig y r) \<in> set (es' @ [EvCD (VPatchStatus False d d' a)])" by simp
  with held assms(3) show ?thesis by (auto simp: list_all_iff cd_held_def setCDCondition_def)
next
  case (deploy es' x dep' r' suf')
  have no: "EvCD (VPatchStatus lock orig y r) \<notin> set (es' @ [EvDeployment (VStore dep' r')])"
    using deploy(2) by (auto simp: list_all_iff)
  from assms(2) deploy(1) have "(es' @ [EvDeployment (VStore dep' r')]) @ suf' = pre @ [EvCD (VPatchStatus lock orig y r)] @ suf"
    by simp
  then obtain us where us: "pre = (es' @ [EvDeployment (VStore dep' r')]) @ us" "suf' = us @ [EvCD (VPatchStatus lock orig y r)] @ suf"
    using no by (auto simp: append_eq_append_conv2 append_eq_Cons_conv Cons_eq_append_conv)
  from deploy(4) us(2) have "cd_after L d x r' (EvCD (VPatchStatus lock orig y r))" by (simp add: cd_tail_def)
  with assms(3) obtain n dep where "orig = d" "r' = Inr dep" "y = observe L n d x dep"
    by (auto simp: cd_held_def setCDCondition_def)
  moreover have "cd_ready L pol d x pre dep'" using deploy(3) us(1) unfolding cd_ready_def secrets_checked_def by auto
  ultimately show ?thesis using us(1) by auto
qed

text \<open>
  An environment in which a CD without Secret references is rolled out: the CD and its CI are there, the Deployment and
  the Kubernetes Service of the CD's name are fetched, uncontrolled or controlled by the CD already, and every
  write succeeds; the API server answers the stored Deployment with \<open>dep\<close>.
\<close>

definition deploy_answers :: "env \<Rightarrow> klib \<Rightarrow> nsname \<Rightarrow> cd \<Rightarrow> ci \<Rightarrow> deployment \<Rightarrow> bool" where
  "deploy_answers E L key d x dep \<longleftrightarrow>
     (\<forall>t. ka_get (env_cd E) t key = Inr d)
   \<and> (\<forall>t. ka_get (env_ci E) t (m_namespace (cd_meta d), ref_name (cds_ci (cd_spec_of d))) = Inr x)
   \<and> (\<forall>t. \<exists>b. ka_fetch (env_deployment E) t (empty_deployment (m_name (cd_meta d)) (m_namespace (cd_meta d))) = Inr b
        \<and> m_namespace (d_meta b) = m_namespace (cd_meta d) \<and> m_controller (d_meta b) \<in> {None, Some (cd_owner d)})
   \<and> (\<forall>t a. ka_store (env_deployment E) t a = Inr dep)
   \<and> (\<forall>t. \<exists>b. ka_fetch (env_kube_service E) t (empty_kube_service (m_name (cd_meta d)) (m_namespace (cd_meta d))) = Inr b
        \<and> m_namespace (ks_meta b) = m_namespace (cd_meta d) \<and> m_controller (ks_meta b) \<in> {None, Some (cd_owner d)})
   \<and> (\<forall>t a. \<exists>b. ka_store (env_kube_service E) t a = Inr b)
   \<and> (\<forall>t l a b. \<exists>c. ka_patch_status (env_cd E) t l a b = Inr c)
   \<and> owner_lib L (cd_owner d) (m_namespace (cd_meta d))
   \<and> pod_secret_refs (appPodSpec d (cst_image (ci_status_of x))) = []"

lemma objects_owned:
  assumes "owner_lib L (cd_owner d) (m_namespace (cd_meta d))"
  shows "m_namespace (d_meta b) = m_namespace (cd_meta d) \<Longrightarrow> m_controller (d_meta b) \<in> {None, Some (cd_owner d)} \<Longrightarrow>
      \<exists>w. deployment_object L d spec b = Inr w"
    and "m_namespace (ks_meta s) = m_namespace (cd_meta d) \<Longrightarrow> m_controller (ks_meta s) \<in> {None, Some (cd_owner d)} \<Longrightarrow>
      \<exists>w. service_object L d s = Inr w"
  using owner_libD [OF assms, of "(d_meta b)\<lparr>m_labels := app_labels d\<rparr>"] owner_libD [OF assms, of "(ks_meta s)\<lparr>m_labels := app_labels d\<rparr>"]
  by (simp_all add: deployment_object_def service_object_def)

lemma run_expose_plain:
  assumes E: "deploy_answers E L key d x dep"
  shows "\<exists>s0 s a n r. run_state (expose E L d x dep) t = ((no_requeue, None), t @
      [EvKubeService (VFetch (empty_kube_service (m_name (cd_meta d)) (m_namespace (cd_meta d))) (Inr s0)),
       EvKubeService (VStore s (Inr a)), EvCD (VPatchStatus False d (observe L n d x dep) r)])
    \<and> service_object L d s0 = Inr s"
proof -
  let ?es = "empty_kube_service (m_name (cd_meta d)) (m_namespace (cd_meta d))"
  obtain s0 where s0: "ka_fetch (env_kube_service E) t ?es = Inr s0" "m_namespace (ks_meta s0) = m_namespace (cd_meta d)"
    "m_controller (ks_meta s0) \<in> {None, Some (cd_owner d)}" using E unfolding deploy_answers_def by blast
  have "owner_lib L (cd_owner d) (m_namespace (cd_meta d))" using E unfolding deploy_answers_def by blast
  from objects_owned(2) [OF this s0(2,3)] obtain s where s: "service_object L d s0 = Inr s" by blast
  obtain a where a: "ka_store (env_kube_service E) (t @ [EvKubeService (VFetch ?es (Inr s0))]) s = Inr a"
    using E unfolding deploy_answers_def by blast
  obtain c where c: "\<And>t l a b. ka_patch_status (env_cd E) t l a b = Inr (c t l a b)"
    using E unfolding deploy_answers_def by metis
  show ?thesis
    unfolding expose_def reconcileService_def create_or_update_def cd_patch_def
    by (simp add: k_defs s0(1) s a c) blast
qed

lemma run_cd_plain:
  assumes E: "deploy_answers E L key d x dep" and live: "live_cd L d" and img: "cst_image (ci_status_of x) \<noteq> ''''"
  shows "\<exists>d0 w s0 s a n r. run_state (cd_reconcile E L pol key) t = ((no_requeue, None), t @
      [EvCD (VGet key (Inr d)), EvCI (VGet (m_namespace (cd_meta d), ref_name (cds_ci (cd_spec_of d))) (Inr x)),
       EvDeployment (VFetch (empty_deployment (m_name (cd_meta d)) (m_namespace (cd_meta d))) (Inr d0)),
       EvDeployment (VStore w (Inr dep)),
       EvKubeService (VFetch (empty_kube_service (m_name (cd_meta d)) (m_namespace (cd_meta d))) (Inr s0)),
       EvKubeService (VStore s (Inr a)), EvCD (VPatchStatus False d (observe L n d x dep) r)])
    \<and> deployment_object L d (appPodSpec d (cst_image (ci_status_of x))) d0 = Inr w \<and> service_object L d s0 = Inr s"
proof -
  let ?key = "(m_namespace (cd_meta d), ref_name (cds_ci (cd_spec_of d)))"
  let ?ed = "empty_deployment (m_name (cd_meta d)) (m_namespace (cd_meta d))"
  let ?t = "t @ [EvCD (VGet key (Inr d)), EvCI (VGet ?key (Inr x))]"
  have chk: "check_pod_spec pol rd ns (appPodSpec d (cst_image (ci_status_of x))) = ret None" for rd ns
    using E by (simp add: deploy_answers_def check_pod_spec_def collect_refs_def)
  obtain d0 where d0: "ka_fetch (env_deployment E) ?t ?ed = Inr d0" "m_namespace (d_meta d0) = m_namespace (cd_meta d)"
    "m_controller (d_meta d0) \<in> {None, Some (cd_owner d)}" using E unfolding deploy_answers_def by blast
  have "owner_lib L (cd_owner d) (m_namespace (cd_meta d))" using E unfolding deploy_answers_def by blast
  from objects_owned(1) [OF this d0(2,3)] obtain w where
    w: "deployment_object L d (appPodSpec d (cst_image (ci_status_of x))) d0 = Inr w" by blast
  have "run_state (cd_reconcile E L pol key) t
      = run_state (expose E L d x dep) (?t @ [EvDeployment (VFetch ?ed (Inr d0)), EvDeployment (VStore w (Inr dep))])"
    using E live img d0(1) w unfolding cd_reconcile_def finalizer_step_def cd_body_def roll_out_def reconcileDeployment_def
      create_or_update_def Let_def
    by (simp add: deploy_answers_def live_cd_def k_defs chk)
  with run_expose_plain [OF E, of "?t @ [EvDeployment (VFetch ?ed (Inr d0)), EvDeployment (VStore w (Inr dep))]"] w
  show ?thesis by auto
qed

lemma run_cd_shape:
  assumes "deploy_answers E L key d x dep" "live_cd L d" "cst_image (ci_status_of x) \<noteq> ''''"
  shows "\<exists>es w mid n r. run_state (cd_reconcile E L pol key) t = ((no_requeue, None),
     t @ es @ [EvDeployment (VStore w (Inr dep))] @ mid @ [EvCD (VPatchStatus False d (observe L n d x dep) r)])"
proof -
  obtain es w mid n r where "run_state (cd_reconcile E L pol key) t = ((no_requeue, None),
     t @ (es @ [EvDeployment (VStore w (Inr dep))] @ mid @ [EvCD (VPatchStatus False d (observe L n d x dep) r)]))"
  proof -
    obtain d0 w s0 s a n r where run: "run_state (cd_reconcile E L pol key) t = ((no_requeue, None), t @
      [EvCD (VGet key (Inr d)), EvCI (VGet (m_namespace (cd_meta d), ref_name (cds_ci (cd_spec_of d))) (Inr x)),
       EvDeployment (VFetch (empty_deployment (m_name (cd_meta d)) (m_namespace (cd_meta d))) (Inr d0)),
       EvDeployment (VStore w (Inr dep)),
       EvKubeService (VFetch (empty_kube_service (m_name (cd_meta d)) (m_namespace (cd_meta d))) (Inr s0)),
       EvKubeService (VStore s (Inr a)), EvCD (VPatchStatus False d (observe L n d x dep) r)])"
      using run_cd_plain [OF assms, of pol t] by blast
    show thesis
      by (rule that [of "[EvCD (VGet key (Inr d)), EvCI (VGet (m_namespace (cd_meta d), ref_name (cds_ci (cd_spec_of d))) (Inr x)),
          EvDeployment (VFetch (empty_deployment (m_name (cd_meta d)) (m_namespace (cd_meta d))) (Inr d0))]" w
          "[EvKubeService (VFetch (empty_kube_service (m_name (cd_meta d)) (m_namespace (cd_meta d))) (Inr s0)),
          EvKubeService (VStore s (Inr a))]" n r]) (simp add: run)
  qed
  then show ?thesis by auto
qed

definition demo_cd :: cd where
  "demo_cd = (empty_cd ''api-cd'' ''shop'')\<lparr>cd_meta := (fresh_meta ''api-cd'' ''shop'')\<lparr>m_finalizers := [cdFinalizer]\<rparr>,
     cd_spec_of := \<lparr>cds_ci = \<lparr>ref_name = ''api-ci''\<rparr>, cds_replicas = 2, cds_env = [], cds_resources = None,
       cds_port = 0, cds_image_pull_secret = ''''\<rparr>\<rparr>"

definition demo_built :: ci where
  "demo_built = demo_ci\<lparr>ci_status_of := (ci_status_of demo_ci)\<lparr>cst_phase := CIPhaseSucceeded,
     cst_image := ''registry.example/shop/api:0123456789ab'', cst_revision := demo_sha\<rparr>\<rparr>"

definition demo_deployment :: deployment where
  "demo_deployment = (empty_deployment ''api-cd'' ''shop'')\<lparr>d_replicas := Some 2, d_observed_generation := 3,
     d_updated_replicas := 2, d_available_replicas := 2\<rparr>"

definition demo_cd_env :: env where
  "demo_cd_env = env_ref\<lparr>env_cd := kapi_ref\<lparr>ka_get := (\<lambda>t key. Inr demo_cd)\<rparr>,
     env_ci := kapi_ref\<lparr>ka_get := (\<lambda>t key. Inr demo_built)\<rparr>,
     env_deployment := kapi_ref\<lparr>ka_store := (\<lambda>t d. Inr demo_deployment)\<rparr>\<rparr>"

lemma demo_deploys:
  "deploy_answers demo_cd_env demo_owner_lib (''shop'', ''api-cd'') demo_cd demo_built demo_deployment"
  "live_cd demo_owner_lib demo_cd" "cst_image (ci_status_of demo_built) \<noteq> ''''"
proof -
  have "pod_secret_refs (appPodSpec demo_cd (cst_image (ci_status_of demo_built))) = []"
    by (simp add: refs_appPodSpec demo_cd_def empty_cd_def env_refs_def)
  then show "deploy_answers demo_cd_env demo_owner_lib (''shop'', ''api-cd'') demo_cd demo_built demo_deployment"
    by (simp add: deploy_answers_def demo_cd_env_def env_ref_def kapi_ref_def demo_owner_lib_def owner_lib_def
        empty_deployment_def empty_kube_service_def fresh_meta_def)
  show "live_cd demo_owner_lib demo_cd"
    by (simp add: live_cd_def demo_owner_lib_def klib_ref_def demo_cd_def empty_cd_def fresh_meta_def)
  show "cst_image (ci_status_of demo_built) \<noteq> ''''" by (simp add: demo_built_def)
qed

section \<open>Properties\<close>

text \<open>C4: A run of the CD reconciler stores a Deployment only for a live CD and with the pod spec
  \<open>appPodSpec\<close> makes of it and of the image in the status of its CI, which the same run read; before that the
  run read every Secret that pod spec references, with an answer the policy allows.\<close>

theorem cd_deployment_checked:
  assumes "run_state (cd_reconcile E L pol key) t = (out, t @ pre @ [EvDeployment (VStore dep r)] @ suf)"
  shows "\<exists>d x rest. pre = EvCD (VGet key (Inr d)) # rest \<and> live_cd L d
     \<and> EvCI (VGet (m_namespace (cd_meta d), ref_name (cds_ci (cd_spec_of d))) (Inr x)) \<in> set rest
     \<and> cst_image (ci_status_of x) \<noteq> '''' \<and> d_template_spec dep = appPodSpec d (cst_image (ci_status_of x))
     \<and> d_replicas dep = Some (app_replicas d)
     \<and> secrets_checked pol (m_namespace (cd_meta d)) (d_template_spec dep) rest"
  using assms
proof (cases rule: run_cd_reconcile)
  case (read r')
  then show ?thesis by (auto simp: append_eq_Cons_conv Cons_eq_append_conv)
next
  case (finalizer d d' u)
  then show ?thesis by (auto simp: append_eq_Cons_conv Cons_eq_append_conv)
next
  case (body d es)
  then obtain rest where rest: "pre = EvCD (VGet key (Inr d)) # rest" "es = rest @ [EvDeployment (VStore dep r)] @ suf"
    by (cases pre) auto
  from cd_flow_store [OF body(3) rest(2)] obtain x where "cd_ready L pol d x rest dep" by blast
  then show ?thesis using rest(1) body(1) deployment_object_Inr unfolding cd_ready_def by fastforce
qed

theorem cd_deployment_checked_witness:
  "\<exists>pre w r suf d (x::ci) rest. snd (run_state (cd_reconcile demo_cd_env demo_owner_lib \<lparr>sp_allow_unlabeled = False\<rparr> (''shop'', ''api-cd'')) [])
       = pre @ [EvDeployment (VStore w r)] @ suf \<and> pre = EvCD (VGet (''shop'', ''api-cd'') (Inr d)) # rest
     \<and> d_template_spec w = appPodSpec d (cst_image (ci_status_of x))"
proof -
  obtain es w mid n r where run: "run_state (cd_reconcile demo_cd_env demo_owner_lib \<lparr>sp_allow_unlabeled = False\<rparr> (''shop'', ''api-cd'')) []
     = ((no_requeue, None), [] @ es @ [EvDeployment (VStore w (Inr demo_deployment))]
        @ (mid @ [EvCD (VPatchStatus False demo_cd (observe demo_owner_lib n demo_cd demo_built demo_deployment) r)]))"
    using run_cd_shape [OF demo_deploys, of "\<lparr>sp_allow_unlabeled = False\<rparr>" "[]"] by blast
  from cd_deployment_checked [OF run] show ?thesis
  proof (elim exE conjE)
    fix d and x :: ci and rest
    assume a: "es = EvCD (VGet (''shop'', ''api-cd'') (Inr d)) # rest" "d_template_spec w = appPodSpec d (cst_image (ci_status_of x))"
    show ?thesis
      by (rule exI [of _ es], rule exI [of _ w], rule exI [of _ "Inr demo_deployment :: gerror + deployment"],
          rule exI [of _ "mid @ [EvCD (VPatchStatus False demo_cd (observe demo_owner_lib n demo_cd demo_built demo_deployment) r)]"],
          rule exI [of _ d], rule exI [of _ x], rule exI [of _ rest], use run a in simp)
  qed
qed

text \<open>C3: A run of the CD reconciler writes the phase Running only with the image and revision its CI shows in
  the same run, and after it stored, in the same run, the Deployment \<open>deployment_object\<close> makes for that CD, with the pod
  spec of the CD and that image, from the object fetched under the CD's name, with an answer that says that the latest
  generation was observed and that as many replicas as wanted are updated and available.\<close>

theorem cd_running_rolled_out:
  assumes "run_state (cd_reconcile E L pol key) t = (out, t @ pre @ [EvCD (VPatchStatus lock d y r)] @ suf)"
    and "cdst_phase (cd_status_of y) = CDPhaseRunning"
  shows "\<exists>x dep0 w dep. EvCD (VGet key (Inr d)) \<in> set pre
     \<and> EvCI (VGet (m_namespace (cd_meta d), ref_name (cds_ci (cd_spec_of d))) (Inr x)) \<in> set pre
     \<and> EvDeployment (VFetch (empty_deployment (m_name (cd_meta d)) (m_namespace (cd_meta d))) (Inr dep0)) \<in> set pre
     \<and> deployment_object L d (appPodSpec d (cst_image (ci_status_of x))) dep0 = Inr w
     \<and> EvDeployment (VStore w (Inr dep)) \<in> set pre
     \<and> d_observed_generation dep \<ge> m_generation (d_meta dep)
     \<and> d_updated_replicas dep \<ge> wanted dep \<and> d_available_replicas dep \<ge> wanted dep
     \<and> cdst_image (cd_status_of y) = cst_image (ci_status_of x)
     \<and> cdst_revision (cd_status_of y) = cst_revision (ci_status_of x)"
  using assms(1)
proof (cases rule: run_cd_reconcile)
  case (read r')
  then show ?thesis by (auto simp: append_eq_Cons_conv Cons_eq_append_conv)
next
  case (finalizer d d' u)
  then show ?thesis by (auto simp: append_eq_Cons_conv Cons_eq_append_conv)
next
  case (body d' es)
  then obtain rest where rest: "pre = EvCD (VGet key (Inr d')) # rest"
    "es = rest @ [EvCD (VPatchStatus lock d y r)] @ suf"
    by (cases pre) auto
  from cd_flow_running [OF body(3) rest(2) assms(2)] obtain x w dep n where
    d: "d = d'" "y = observe L n d' x dep" "EvDeployment (VStore w (Inr dep)) \<in> set rest" "cd_ready L pol d' x rest w" by blast
  from assms(2) d(2) have "rolledOut dep" by (simp add: observe_phase)
  then have "d_observed_generation dep \<ge> m_generation (d_meta dep)" "d_updated_replicas dep \<ge> wanted dep"
    "d_available_replicas dep \<ge> wanted dep" by (simp_all add: rolledOut_def)
  with d rest(1) show ?thesis unfolding cd_ready_def by (fastforce simp: observe_frame)
qed

theorem cd_running_rolled_out_witness:
  "\<exists>pre y r d w dep. snd (run_state (cd_reconcile demo_cd_env demo_owner_lib \<lparr>sp_allow_unlabeled = False\<rparr> (''shop'', ''api-cd'')) [])
       = pre @ [EvCD (VPatchStatus False d y r)] \<and> EvDeployment (VStore w (Inr dep)) \<in> set pre
     \<and> d_available_replicas dep \<ge> wanted dep"
proof -
  obtain es w mid n r where run: "run_state (cd_reconcile demo_cd_env demo_owner_lib \<lparr>sp_allow_unlabeled = False\<rparr> (''shop'', ''api-cd'')) []
     = ((no_requeue, None), [] @ (es @ [EvDeployment (VStore w (Inr demo_deployment))] @ mid)
        @ [EvCD (VPatchStatus False demo_cd (observe demo_owner_lib n demo_cd demo_built demo_deployment) r)] @ [])"
    using run_cd_shape [OF demo_deploys, of "\<lparr>sp_allow_unlabeled = False\<rparr>" "[]"] by auto
  have running: "cdst_phase (cd_status_of (observe demo_owner_lib n demo_cd demo_built demo_deployment)) = CDPhaseRunning"
    by (simp add: observe_phase rolledOut_def wanted_def demo_deployment_def empty_deployment_def fresh_meta_def)
  from cd_running_rolled_out [OF run running] obtain w' dep where
    "EvDeployment (VStore w' (Inr dep)) \<in> set (es @ [EvDeployment (VStore w (Inr demo_deployment))] @ mid)"
    "d_available_replicas dep \<ge> wanted dep" by blast
  with run show ?thesis by (metis append_Nil append_Nil2 snd_conv)
qed



text \<open>C16: Of the CDs, Deployments, Kubernetes Services and other objects, a run of the CD reconciler writes only these:
  the finalizers of the CD it read, and then nothing else; or, from the copy it read and at most once each, the CD's
  status, one Deployment and one Kubernetes Service, both made from the object fetched under the CD's name.\<close>

theorem cd_writes:
  assumes "run_state (cd_reconcile E L pol key) t = (out, t @ es)"
  shows "(\<forall>e \<in> set es. case e of
       EvCD (VGet k r) \<Rightarrow> k = key
     | EvCD (VUpdate d' u) \<Rightarrow> (\<exists>d. es = [EvCD (VGet key (Inr d)), EvCD (VUpdate d' u)]
         \<and> d' = d\<lparr>cd_meta := (if m_deletion (cd_meta d) = None then lib_add_finalizer L cdFinalizer
             else lib_remove_finalizer L cdFinalizer) (cd_meta d)\<rparr>)
     | EvCD (VPatchStatus lock d y r) \<Rightarrow> EvCD (VGet key (Inr d)) \<in> set es
         \<and> cd_meta y = cd_meta d \<and> cd_spec_of y = cd_spec_of d
     | EvCI (VGet k r) \<Rightarrow> True | EvSecret (VGet k r) \<Rightarrow> True
     | EvDeployment (VFetch d r) \<Rightarrow> True
     | EvDeployment (VStore w r) \<Rightarrow> (\<exists>d img d0. EvCD (VGet key (Inr d)) \<in> set es
         \<and> EvDeployment (VFetch (empty_deployment (m_name (cd_meta d)) (m_namespace (cd_meta d))) (Inr d0)) \<in> set es
         \<and> deployment_object L d (appPodSpec d img) d0 = Inr w)
     | EvKubeService (VFetch s r) \<Rightarrow> True
     | EvKubeService (VStore s r) \<Rightarrow> (\<exists>d s0. EvCD (VGet key (Inr d)) \<in> set es
         \<and> EvKubeService (VFetch (empty_kube_service (m_name (cd_meta d)) (m_namespace (cd_meta d))) (Inr s0)) \<in> set es
         \<and> service_object L d s0 = Inr s)
     | _ \<Rightarrow> False)
   \<and> length (filter is_cd_patch es) \<le> 1 \<and> length (filter is_store es) \<le> 1 \<and> length (filter is_ks_store es) \<le> 1"
  using assms
proof (cases rule: run_cd_reconcile)
  case (read r)
  then show ?thesis by simp
next
  case (finalizer d d' u)
  then show ?thesis by simp
next
  case (body d es')
  then have es: "es = EvCD (VGet key (Inr d)) # es'" by simp
  have "cd_allowed L d es' e \<or> e = EvCD (VGet key (Inr d))" if "e \<in> set es" for e
    using that es cd_flow_events [OF body(3)] by auto
  then show ?thesis
    using cd_flow_once [OF body(3)] es by (fastforce elim!: cd_allowed.elims cd_quiet.elims split: event.split verb.split)
qed

theorem cd_writes_witness:
  "let es = snd (run_state (cd_reconcile demo_cd_env demo_owner_lib \<lparr>sp_allow_unlabeled = False\<rparr> (''shop'', ''api-cd'')) [])
   in length (filter is_cd_patch es) = 1 \<and> length (filter is_store es) = 1 \<and> length (filter is_ks_store es) \<le> 1"
proof -
  let ?m = "cd_reconcile demo_cd_env demo_owner_lib \<lparr>sp_allow_unlabeled = False\<rparr> (''shop'', ''api-cd'')"
  have "run_state ?m [] = (fst (run_state ?m []), [] @ snd (run_state ?m []))" by simp
  from cd_writes [OF this] have "length (filter is_cd_patch (snd (run_state ?m []))) \<le> 1"
    "length (filter is_store (snd (run_state ?m []))) \<le> 1" "length (filter is_ks_store (snd (run_state ?m []))) \<le> 1" by blast+
  moreover obtain es w mid n r where "run_state ?m [] = ((no_requeue, None), [] @ es @ [EvDeployment (VStore w (Inr demo_deployment))]
        @ (mid @ [EvCD (VPatchStatus False demo_cd (observe demo_owner_lib n demo_cd demo_built demo_deployment) r)]))"
    using run_cd_shape [OF demo_deploys, of "\<lparr>sp_allow_unlabeled = False\<rparr>" "[]"] by blast
  ultimately show ?thesis by (simp add: Let_def)
qed

end
