(* ===== verification/CIPluginCtrl.thy ===== *)
theory CIPluginCtrl
  imports Ctrl Plugins Demo
begin

text \<open>
  \<^verbatim>\<open>internal/controller/ciplugin_controller.go\<close>: the CIPlugin reconciler reports whether a plugin
  is valid and which Services run it. The lemmas relate the report to what the Service
  reconciler takes from \<open>Resolve\<close>, which decides what a build really runs.
\<close>

section \<open>The reconciler\<close>

definition accepted_condition :: "ciplugin \<Rightarrow> condition" where
  \<comment> \<open>\<^verbatim>\<open>cond\<close>\<close>
  "accepted_condition p = (case Validate p of
       None \<Rightarrow> (new_condition ''Accepted'' ConditionTrue ''Valid''
         ''The plugin runs after checkout and before build/push'')\<lparr>c_observed := m_generation (pl_meta p)\<rparr>
     | Some err \<Rightarrow> (new_condition ''Accepted'' ConditionFalse ''Invalid'' (err_msg err))\<lparr>
         c_observed := m_generation (pl_meta p)\<rparr>)"

fun attached_names :: "klib \<Rightarrow> ciplugin \<Rightarrow> service list \<Rightarrow> string list" where
  \<comment> \<open>the loop over the Services of the namespace\<close>
  "attached_names L p [] = []"
| "attached_names L p (s # ss) =
     (if AttachedTo L p s then m_name (sv_meta s) # attached_names L p ss else attached_names L p ss)"

definition report_plugin :: "klib \<Rightarrow> time \<Rightarrow> ciplugin \<Rightarrow> service list \<Rightarrow> ciplugin" where
  \<comment> \<open>the status \<^verbatim>\<open>Reconcile\<close> writes\<close>
  "report_plugin L t p svcs = p\<lparr>pl_status_of := (pl_status_of p)\<lparr>
     plst_conditions := lib_set_condition L t (accepted_condition p) (plst_conditions (pl_status_of p)),
     plst_attached_services := sort (attached_names L p svcs),
     plst_observed_generation := m_generation (pl_meta p)\<rparr>\<rparr>"

definition plugin_reconcile :: "env \<Rightarrow> klib \<Rightarrow> nsname \<Rightarrow> outcome io" where
  "plugin_reconcile E L key = do {
     found \<leftarrow> k_get E ciplugins key;
     t \<leftarrow> now E;
     (case found of
        Inl err \<Rightarrow> ret (no_requeue, ignore_not_found err)
      | Inr p \<Rightarrow> do {
          r \<leftarrow> k_list E services (m_namespace (pl_meta p)) ListAll;
          (case r of
             Inl err \<Rightarrow> ret (no_requeue, Some err)
           | Inr svcs \<Rightarrow> do {
               w \<leftarrow> k_patch_status E ciplugins False p (report_plugin L t p svcs);
               ret (no_requeue, err_of w)
             })
        })
   }"

definition pluginsForService :: "env \<Rightarrow> obj_meta \<Rightarrow> nsname list io" where
  "pluginsForService E m = do {
     r \<leftarrow> k_list E ciplugins (m_namespace m) ListAll;
     ret (case r of Inl err \<Rightarrow> [] | Inr ps \<Rightarrow> map (\<lambda>p. meta_key (pl_meta p)) ps)
   }"

section \<open>Facts\<close>

lemma attached_names_filter: "attached_names L p ss = map (\<lambda>s. m_name (sv_meta s)) (filter (AttachedTo L p) ss)"
  by (induction ss) auto

lemma accepted_condition_type [simp]: "c_type (accepted_condition p) = ''Accepted''"
  by (simp add: accepted_condition_def new_condition_def split: option.split)

lemma accepted_condition_status: "c_status (accepted_condition p) = ConditionTrue \<longleftrightarrow> Validate p = None"
  by (simp add: accepted_condition_def new_condition_def split: option.split)

lemma report_plugin_frame [simp]:
  "pl_meta (report_plugin L t p svcs) = pl_meta p" "pl_spec_of (report_plugin L t p svcs) = pl_spec_of p"
  by (simp_all add: report_plugin_def)

lemma report_accepted:
  assumes "conditions_lib L"
  shows "\<exists>c. lib_find_condition L ''Accepted'' (plst_conditions (pl_status_of (report_plugin L t p svcs))) = Some c
     \<and> (c_status c = ConditionTrue \<longleftrightarrow> Validate p = None) \<and> c_observed c = m_generation (pl_meta p)"
proof -
  obtain c where c: "lib_find_condition L (c_type (accepted_condition p))
      (lib_set_condition L t (accepted_condition p) (plst_conditions (pl_status_of p))) = Some c"
    "same_condition c (accepted_condition p)"
    by (rule find_set_condition [OF assms])
  have "c_observed (accepted_condition p) = m_generation (pl_meta p)"
    by (simp add: accepted_condition_def split: option.split)
  with c accepted_condition_status [of p] show ?thesis
    by (auto simp: report_plugin_def same_condition_def)
qed

lemma by_name_unique:
  assumes "distinct (map pname items)" "p \<in> set items" "live_in svc p"
  shows "p \<in> snd ` set (by_name svc items)"
proof -
  have "distinct (map pname (List.rev items))" using assms(1) by (simp flip: rev_map)
  then have only: "q = p" if "q \<in> set (List.rev items)" "pname q = pname p" for q
    using that assms(2) by (simp add: distinct_map inj_on_def)
  have "find (\<lambda>q. live_in svc q \<and> pname q = pname p) (List.rev items) \<noteq> None"
    using assms(2,3) unfolding find_None_iff_all by auto
  then obtain q where q: "find (\<lambda>q. live_in svc q \<and> pname q = pname p) (List.rev items) = Some q" by blast
  from find_SomeD [OF q] have "q = p" by (intro only) auto
  with q have "map_of (by_name svc items) (pname p) = Some p" unfolding by_name(3) by simp
  from map_of_SomeD [OF this] show ?thesis by (rule image_eqI [rotated]) simp
qed

lemma Resolve_attached:
  assumes "distinct (map pname items)" "p \<in> set items" "live_in svc p"
  shows "p \<in> set (fst (Resolve L id svc items)) \<longleftrightarrow> AttachedTo L p svc"
proof -
  obtain att mis where r: "Resolve L id svc items = (att, mis)" by fastforce
  have "set att = attached_set L svc items" by (rule Resolve_spec(1) [OF _ r]) simp
  with by_name_unique [OF assms] show ?thesis by (simp add: r attached_set_def)
qed

section \<open>Properties\<close>

text \<open>A run of the CIPlugin reconciler makes at most three requests and writes nothing but the plugin's own
  status; that status lists, in order, exactly the Services of the namespace the plugin is attached to, and its
  condition Accepted is True exactly when the plugin is valid.\<close>

lemma plugin_report_exact:
  assumes "conditions_lib L" "run_state (plugin_reconcile E L key) t = (out, t @ es)"
    and "EvPlugin (VPatchStatus lock p y r) \<in> set es"
  shows "\<exists>svcs c. es = [EvPlugin (VGet key (Inr p)), EvService (VList (m_namespace (pl_meta p)) ListAll (Inr svcs)),
        EvPlugin (VPatchStatus lock p y r)]
     \<and> pl_meta y = pl_meta p \<and> pl_spec_of y = pl_spec_of p
     \<and> sorted (plst_attached_services (pl_status_of y))
     \<and> mset (plst_attached_services (pl_status_of y)) = {# m_name (sv_meta s). s \<in># filter_mset (AttachedTo L p) (mset svcs) #}
     \<and> lib_find_condition L ''Accepted'' (plst_conditions (pl_status_of y)) = Some c
     \<and> (c_status c = ConditionTrue \<longleftrightarrow> Validate p = None) \<and> c_observed c = m_generation (pl_meta y)"
proof -
  from assms(2,3) obtain n svcs where run: "es = [EvPlugin (VGet key (Inr p)),
      EvService (VList (m_namespace (pl_meta p)) ListAll (Inr svcs)), EvPlugin (VPatchStatus lock p y r)]"
    and y: "y = report_plugin L n p svcs"
    by (auto simp: plugin_reconcile_def k_defs split: sum.splits)
  from report_accepted [OF assms(1), of n p svcs] obtain c where
    "lib_find_condition L ''Accepted'' (plst_conditions (pl_status_of y)) = Some c"
    "c_status c = ConditionTrue \<longleftrightarrow> Validate p = None" "c_observed c = m_generation (pl_meta y)"
    unfolding y by auto
  moreover have "plst_attached_services (pl_status_of y) = sort (attached_names L p svcs)"
    by (simp add: y report_plugin_def)
  ultimately show ?thesis
    using run by (auto simp: y attached_names_filter simp flip: mset_filter)
qed

definition demo_plugin_object :: ciplugin where
  "demo_plugin_object = \<lparr>pl_meta = fresh_meta ''scan'' ''shop'',
     pl_spec_of = \<lparr>pls_type = CIPluginCustom, pls_order = 0, pls_failure_policy = FailurePolicyUnset,
       pls_target_refs = [\<lparr>ptr_kind = ''Service'', ptr_name = ''api''\<rparr>], pls_selector = None, pls_resources = None,
       pls_sonarqube = None, pls_codeql = None,
       pls_custom = Some \<lparr>cu_image = ''alpine'', cu_command = [''true''], cu_args = [], cu_env = [], cu_env_from = []\<rparr>\<rparr>,
     pl_status_of = \<lparr>plst_attached_services = [], plst_observed_generation = 0, plst_conditions = []\<rparr>\<rparr>"

lemma plugin_report_exact_example:
  "\<exists>y r. EvPlugin (VPatchStatus False demo_plugin_object y r) \<in> set (snd (run_state (plugin_reconcile
       (env_ref\<lparr>env_plugin := kapi_ref\<lparr>ka_get := (\<lambda>t k. Inr demo_plugin_object)\<rparr>,
          env_service := kapi_ref\<lparr>ka_list := (\<lambda>t ns opt. Inr [demo_service])\<rparr>\<rparr>) klib_ref (''shop'', ''scan'')) []))
     \<and> sorted (plst_attached_services (pl_status_of y))
     \<and> mset (plst_attached_services (pl_status_of y)) = {#''api''#}"
proof -
  let ?E = "env_ref\<lparr>env_plugin := kapi_ref\<lparr>ka_get := (\<lambda>t k. Inr demo_plugin_object)\<rparr>,
          env_service := kapi_ref\<lparr>ka_list := (\<lambda>t ns opt. Inr [demo_service])\<rparr>\<rparr>"
  let ?run = "run_state (plugin_reconcile ?E klib_ref (''shop'', ''scan'')) []"
  let ?y = "report_plugin klib_ref 0 demo_plugin_object [demo_service]"
  have ev: "EvPlugin (VPatchStatus False demo_plugin_object ?y (Inr ?y)) \<in> set (snd ?run)"
    by (simp add: plugin_reconcile_def k_defs)
  have "?run = (fst ?run, [] @ snd ?run)" by simp
  from plugin_report_exact [OF conditions_lib_ref this ev] obtain svcs where
    list: "EvService (VList ''shop'' ListAll (Inr svcs)) \<in> set (snd ?run)"
    and p: "sorted (plst_attached_services (pl_status_of ?y))"
    "mset (plst_attached_services (pl_status_of ?y)) =
       {# m_name (sv_meta s). s \<in># filter_mset (AttachedTo klib_ref demo_plugin_object) (mset svcs) #}"
    by (auto simp: demo_plugin_object_def fresh_meta_def)
  have "svcs = [demo_service]" using list by (simp add: plugin_reconcile_def k_defs)
  moreover have "AttachedTo klib_ref demo_plugin_object demo_service"
    by (simp add: AttachedTo_def Targets_def demo_plugin_object_def demo_service_def fresh_meta_def)
  moreover have "m_name (sv_meta demo_service) = ''api''" by (simp add: demo_service_def fresh_meta_def)
  ultimately have "mset (plst_attached_services (pl_status_of ?y)) = {#''api''#}" using p(2) by simp
  with ev p(1) show ?thesis by blast
qed



end
