(* ===== verification/Json.thy ===== *)
theory Json
  imports Notify "HOL-Library.AList"
begin

text \<open>
  Decoding of JSON as \<^verbatim>\<open>encoding/json\<close> does it, as far as \<^verbatim>\<open>internal/gitprovider\<close> uses it: a
  document is parsed to a tree, and \<^verbatim>\<open>json.Unmarshal\<close> into a struct of one field picks that
  field's value out of it. Two texts on which no decision depends are parameters of \<open>klib\<close>'s
  extension \<open>json_lib\<close>: the message of a decoding error and how \<^verbatim>\<open>%v\<close> prints a
  \<^verbatim>\<open>float64\<close>. The lemmas say that the fuel of the parser never runs out, and that the parser
  inverts \<open>json_bytes\<close>, which the notifications are written with.
\<close>

section \<open>Lexical elements\<close>

datatype jtree = TNull | TBool bool | TNum string | TStr string
  | TArr "jtree list" | TObj "(string \<times> jtree) list"

definition skip_ws :: "string \<Rightarrow> string" where
  "skip_ws = dropWhile (\<lambda>c. byte c \<in> {32, 9, 10, 13})"

definition hex_value :: "char \<Rightarrow> nat option" where
  "hex_value c = (if is_digit c then Some (byte c - 48)
     else if CHR ''a'' \<le> c \<and> c \<le> CHR ''f'' then Some (byte c - 87)
     else if CHR ''A'' \<le> c \<and> c \<le> CHR ''F'' then Some (byte c - 55) else None)"

fun hex4 :: "string \<Rightarrow> nat option" where
  \<comment> \<open>four hexadecimal digits at the start of a string\<close>
  "hex4 (a # b # c # d # s) = (case (hex_value a, hex_value b, hex_value c, hex_value d) of
     (Some a, Some b, Some c, Some d) \<Rightarrow> Some (((a * 16 + b) * 16 + c) * 16 + d) | _ \<Rightarrow> None)"
| "hex4 _ = None"

definition simple_escape :: "char \<Rightarrow> string option" where
  "simple_escape c =
     (if c = CHR 0x22 \<or> c = CHR 0x5C \<or> c = CHR ''/'' then Some [c]
      else if c = CHR ''b'' then Some [CHR 0x08] else if c = CHR ''f'' then Some [CHR 0x0C]
      else if c = CHR ''n'' then Some [CHR 0x0A] else if c = CHR ''r'' then Some [CHR 0x0D]
      else if c = CHR ''t'' then Some [CHR 0x09] else None)"

definition unicode_escape :: "string \<Rightarrow> (string \<times> nat) option" where
  \<comment> \<open>after a backslash and \<^verbatim>\<open>u\<close>: the rune's bytes and how many bytes of input it took; a
      surrogate that is not half of a pair is U+FFFD\<close>
  "unicode_escape s = (case hex4 s of None \<Rightarrow> None
     | Some u \<Rightarrow>
         if 0xD800 \<le> u \<and> u < 0xE000 then
           (case (if take 2 (drop 4 s) = [CHR 0x5C, CHR ''u''] then hex4 (drop 6 s) else None) of
              Some v \<Rightarrow> if u < 0xDC00 \<and> 0xDC00 \<le> v \<and> v < 0xE000
                then Some (utf8 (0x10000 + (u - 0xD800) * 1024 + (v - 0xDC00)), 10) else Some (replacement, 4)
            | None \<Rightarrow> Some (replacement, 4))
         else Some (utf8 u, 4))"

abbreviation prepend :: "'a list \<Rightarrow> ('a list \<times> 'b) option \<Rightarrow> ('a list \<times> 'b) option" where
  "prepend xs r \<equiv> map_option (\<lambda>(ys, z). (xs @ ys, z)) r"

fun lex_string :: "string \<Rightarrow> (string \<times> string) option" where
  \<comment> \<open>after the opening quote: the bytes of the string and what follows the closing quote\<close>
  "lex_string [] = None"
| "lex_string (c # s) =
     (if byte c = 34 then Some ([], s)
      else if byte c = 92 then (case s of [] \<Rightarrow> None
        | e # s' \<Rightarrow> if e = CHR ''u'' then (case unicode_escape s' of None \<Rightarrow> None
              | Some (bs, n) \<Rightarrow> prepend bs (lex_string (drop n s')))
            else (case simple_escape e of None \<Rightarrow> None | Some bs \<Rightarrow> prepend bs (lex_string s')))
      else if byte c < 32 then None
      else if rune_size (c # s) = 0 then prepend replacement (lex_string s)
      else prepend (c # take (rune_size (c # s) - 1) s) (lex_string (drop (rune_size (c # s) - 1) s)))"

definition digits :: "string \<Rightarrow> string \<times> string" where
  "digits s = (takeWhile is_digit s, dropWhile is_digit s)"

definition lex_int :: "string \<Rightarrow> (string \<times> string) option" where
  \<comment> \<open>\<^verbatim>\<open>0\<close>, or digits that do not start with \<^verbatim>\<open>0\<close>\<close>
  "lex_int s = (case digits s of ([], _) \<Rightarrow> None
     | (d # ds, r) \<Rightarrow> if d = CHR ''0'' then Some ([d], ds @ r) else Some (d # ds, r))"

definition lex_fraction :: "string \<Rightarrow> (string \<times> string) option" where
  "lex_fraction s = (case s of [] \<Rightarrow> Some ([], s)
     | c # s' \<Rightarrow> if c = CHR ''.'' then (case digits s' of ([], _) \<Rightarrow> None | (ds, r) \<Rightarrow> Some (c # ds, r))
                 else Some ([], s))"

definition lex_exponent :: "string \<Rightarrow> (string \<times> string) option" where
  "lex_exponent s = (case s of [] \<Rightarrow> Some ([], s)
     | c # s' \<Rightarrow> if c = CHR ''e'' \<or> c = CHR ''E'' then
           (let (sg, s'') = (case s' of [] \<Rightarrow> ([], s')
                | x # r \<Rightarrow> if x = CHR ''+'' \<or> x = CHR ''-'' then ([x], r) else ([], s'))
            in (case digits s'' of ([], _) \<Rightarrow> None | (ds, r) \<Rightarrow> Some (c # sg @ ds, r)))
         else Some ([], s))"

definition lex_number :: "string \<Rightarrow> (string \<times> string) option" where
  "lex_number s =
     (let (sg, s) = (if has_prefix s ''-'' then (''-'', drop 1 s) else ('''', s)) in
      (case lex_int s of None \<Rightarrow> None
       | Some (i, s) \<Rightarrow> (case lex_fraction s of None \<Rightarrow> None
           | Some (f, s) \<Rightarrow> (case lex_exponent s of None \<Rightarrow> None
               | Some (e, s) \<Rightarrow> Some (sg @ i @ f @ e, s)))))"

section \<open>Values\<close>

text \<open>
  The first argument is fuel, the second how many more objects and arrays may be opened: the
  decoder refuses to nest deeper than 10000.
\<close>

definition max_nesting :: nat where
  "max_nesting = 10000"

fun p_value :: "nat \<Rightarrow> nat \<Rightarrow> string \<Rightarrow> (jtree \<times> string) option"
  and p_elems :: "nat \<Rightarrow> nat \<Rightarrow> string \<Rightarrow> (jtree list \<times> string) option"
  and p_members :: "nat \<Rightarrow> nat \<Rightarrow> string \<Rightarrow> ((string \<times> jtree) list \<times> string) option" where
  "p_value 0 d s = None"
| "p_value (Suc n) d s = (case skip_ws s of [] \<Rightarrow> None
     | c # r \<Rightarrow>
         if c = CHR ''{'' then (if d = 0 then None
           else if take 1 (skip_ws r) = ''}'' then Some (TObj [], drop 1 (skip_ws r))
           else map_option (\<lambda>(kvs, r). (TObj kvs, r)) (p_members n (d - 1) r))
         else if c = CHR ''['' then (if d = 0 then None
           else if take 1 (skip_ws r) = '']'' then Some (TArr [], drop 1 (skip_ws r))
           else map_option (\<lambda>(vs, r). (TArr vs, r)) (p_elems n (d - 1) r))
         else if c = CHR 0x22 then map_option (\<lambda>(x, r). (TStr x, r)) (lex_string r)
         else if has_prefix (c # r) ''null'' then Some (TNull, drop 3 r)
         else if has_prefix (c # r) ''true'' then Some (TBool True, drop 3 r)
         else if has_prefix (c # r) ''false'' then Some (TBool False, drop 4 r)
         else map_option (\<lambda>(x, r). (TNum x, r)) (lex_number (c # r)))"
| "p_elems 0 d s = None"
| "p_elems (Suc n) d s = (case p_value n d s of None \<Rightarrow> None
     | Some (v, r) \<Rightarrow> (case skip_ws r of [] \<Rightarrow> None
         | c # r' \<Rightarrow> if c = CHR '','' then prepend [v] (p_elems n d r')
             else if c = CHR '']'' then Some ([v], r') else None))"
| "p_members 0 d s = None"
| "p_members (Suc n) d s = (case skip_ws s of [] \<Rightarrow> None
     | q # s' \<Rightarrow> if q \<noteq> CHR 0x22 then None
         else (case lex_string s' of None \<Rightarrow> None
           | Some (k, r) \<Rightarrow> if take 1 (skip_ws r) \<noteq> '':'' then None
               else (case p_value n d (drop 1 (skip_ws r)) of None \<Rightarrow> None
                 | Some (v, r) \<Rightarrow> (case skip_ws r of [] \<Rightarrow> None
                     | c # r' \<Rightarrow> if c = CHR '','' then prepend [(k, v)] (p_members n d r')
                         else if c = CHR ''}'' then Some ([(k, v)], r') else None))))"

definition json_fuel :: "string \<Rightarrow> nat" where
  "json_fuel s = 2 * length s + 2"

definition parse_json :: "string \<Rightarrow> jtree option" where
  "parse_json s = (case p_value (json_fuel s) max_nesting s of
     Some (v, r) \<Rightarrow> if skip_ws r = [] then Some v else None | None \<Rightarrow> None)"

section \<open>json.Unmarshal into a struct of one field\<close>

record json_lib =
  jl_error :: "string \<Rightarrow> string"
  jl_float :: "string \<Rightarrow> string option"

text \<open>
  A key names a field when they are equal up to simple case folding: beside the ASCII letters,
  U+017F folds to s and U+212A to k.
\<close>

definition upper :: "char \<Rightarrow> char" where
  "upper c = (if is_lower c then char_of (byte c - 32) else c)"

fun fold_name :: "string \<Rightarrow> string" where
  "fold_name [] = []"
| "fold_name (c # s) =
     (if byte c = 0xC5 \<and> take 1 s = [CHR 0xBF] then CHR ''S'' # fold_name (drop 1 s)
      else if byte c = 0xE2 \<and> take 2 s = [CHR 0x84, CHR 0xAA] then CHR ''K'' # fold_name (drop 2 s)
      else upper c # fold_name s)"

definition field_values :: "string \<Rightarrow> (string \<times> jtree) list \<Rightarrow> jtree list" where
  "field_values name kvs = map snd (filter (\<lambda>(k, v). fold_name k = fold_name name) kvs)"

fun set_string :: "string + string \<Rightarrow> jtree \<Rightarrow> string + string" where
  \<comment> \<open>storing a value in a field of type \<^verbatim>\<open>string\<close>; \<open>Inl\<close> once a value had another type\<close>
  "set_string (Inr x) (TStr s) = Inr s"
| "set_string (Inr x) TNull = Inr x"
| "set_string (Inr x) v = Inl x"
| "set_string (Inl x) v = Inl x"

definition unmarshal_string :: "json_lib \<Rightarrow> string \<Rightarrow> string \<Rightarrow> gerror + string" where
  "unmarshal_string J name data = (case parse_json data of
       Some TNull \<Rightarrow> Inr ''''
     | Some (TObj kvs) \<Rightarrow> (case foldl set_string (Inr '''') (field_values name kvs) of
           Inr x \<Rightarrow> Inr x | Inl _ \<Rightarrow> Inl (errorf (jl_error J data)))
     | _ \<Rightarrow> Inl (errorf (jl_error J data)))"

definition int64_literal :: "string \<Rightarrow> int option" where
  \<comment> \<open>\<^verbatim>\<open>strconv.ParseInt(s, 10, 64)\<close> of a JSON number\<close>
  "int64_literal s =
     (let (neg, ds) = (if has_prefix s ''-'' then (True, drop 1 s) else (False, s));
          n = foldl (\<lambda>n c. n * 10 + int (byte c - 48)) 0 ds;
          i = (if neg then - n else n)
      in if ds \<noteq> [] \<and> list_all is_digit ds \<and> - (2 ^ 63) \<le> i \<and> i < 2 ^ 63 then Some i else None)"

fun set_int :: "int + int \<Rightarrow> jtree \<Rightarrow> int + int" where
  "set_int (Inr x) (TNum s) = (case int64_literal s of Some i \<Rightarrow> Inr i | None \<Rightarrow> Inl x)"
| "set_int (Inr x) TNull = Inr x"
| "set_int (Inr x) v = Inl x"
| "set_int (Inl x) v = Inl x"

definition unmarshal_int :: "json_lib \<Rightarrow> string \<Rightarrow> string \<Rightarrow> gerror + int" where
  "unmarshal_int J name data = (case parse_json data of
       Some TNull \<Rightarrow> Inr 0
     | Some (TObj kvs) \<Rightarrow> (case foldl set_int (Inr 0) (field_values name kvs) of
           Inr x \<Rightarrow> Inr x | Inl _ \<Rightarrow> Inl (errorf (jl_error J data)))
     | _ \<Rightarrow> Inl (errorf (jl_error J data)))"

text \<open>A field of type \<^verbatim>\<open>any\<close>: numbers become \<^verbatim>\<open>float64\<close>, which some literals are too large for.\<close>

fun any_ok :: "json_lib \<Rightarrow> jtree \<Rightarrow> bool" where
  "any_ok J (TNum s) = (jl_float J s \<noteq> None)"
| "any_ok J (TArr vs) = list_all (any_ok J) vs"
| "any_ok J (TObj kvs) = list_all (\<lambda>(k, v). any_ok J v) kvs"
| "any_ok J _ = True"

definition unmarshal_any :: "json_lib \<Rightarrow> string \<Rightarrow> string \<Rightarrow> jtree option" where
  \<comment> \<open>the value of the field; \<open>None\<close> for an error and for nil, which the code treats alike\<close>
  "unmarshal_any J name data = (case parse_json data of
       Some (TObj kvs) \<Rightarrow>
         (let vs = field_values name kvs in
          if vs = [] \<or> \<not> list_all (any_ok J) vs \<or> last vs = TNull then None else Some (last vs))
     | _ \<Rightarrow> None)"

fun sprint :: "json_lib \<Rightarrow> jtree \<Rightarrow> string" where
  \<comment> \<open>\<^verbatim>\<open>fmt.Sprint\<close> of a decoded value: a map prints its keys sorted, of equal ones the last\<close>
  "sprint J TNull = ''<nil>''"
| "sprint J (TBool b) = (if b then ''true'' else ''false'')"
| "sprint J (TNum s) = (case jl_float J s of Some x \<Rightarrow> x | None \<Rightarrow> '''')"
| "sprint J (TStr s) = s"
| "sprint J (TArr vs) = ''['' @ join (map (sprint J) vs) '' '' @ '']''"
| "sprint J (TObj kvs) = (let shown = map (\<lambda>(k, v). (k, sprint J v)) kvs in
     ''map['' @ join (map (\<lambda>(k, x). k @ '':'' @ x)
       (sort_key fst (foldl (\<lambda>m (k, x). AList.update k x m) [] shown))) '' '' @ '']'')"

section \<open>The fuel suffices\<close>

text \<open>Every parser consumes input.\<close>

lemma skip_ws_length: "length (skip_ws s) \<le> length s"
  by (simp add: skip_ws_def length_dropWhile_le)

lemma skip_ws_Cons: "skip_ws s = c # r \<Longrightarrow> length r < length s"
  using skip_ws_length [of s] by simp

lemma lex_string_length: "lex_string s = Some (x, r) \<Longrightarrow> length r < length s"
  by (induction s arbitrary: x r rule: lex_string.induct)
    (force split: if_splits list.splits option.splits prod.splits simp: le_imp_less_Suc less_Suc_eq_le less_imp_le)+

lemma lex_int_length: "lex_int s = Some (x, r) \<Longrightarrow> length r < length s"
  using length_append [of "takeWhile is_digit s" "dropWhile is_digit s"]
  by (auto simp: lex_int_def digits_def split: list.splits if_splits)

lemma digits_length: "digits s = (ds, r) \<Longrightarrow> length r \<le> length s"
  by (auto simp: digits_def length_dropWhile_le)

lemma lex_fraction_length: "lex_fraction s = Some (x, r) \<Longrightarrow> length r \<le> length s"
  using digits_length by (auto simp: lex_fraction_def split: list.splits if_splits prod.splits) fastforce

lemma lex_exponent_length: "lex_exponent s = Some (x, r) \<Longrightarrow> length r \<le> length s"
  using digits_length by (auto simp: lex_exponent_def Let_def split: list.splits if_splits prod.splits) fastforce+

lemma lex_number_length: "lex_number s = Some (x, r) \<Longrightarrow> length r < length s"
  by (auto simp: lex_number_def Let_def split: option.splits if_splits prod.splits
      dest!: lex_int_length lex_fraction_length lex_exponent_length)

lemma p_length_all:
  "(\<forall>d s v r. p_value n d s = Some (v, r) \<longrightarrow> length r < length s)
   \<and> (\<forall>d s vs r. p_elems n d s = Some (vs, r) \<longrightarrow> length r < length s)
   \<and> (\<forall>d s kvs r. p_members n d s = Some (kvs, r) \<longrightarrow> length r < length s)"
proof (induction n)
  case (Suc n)
  then have vals: "\<And>d s v r. p_value n d s = Some (v, r) \<Longrightarrow> length r < length s"
    and elems: "\<And>d s vs r. p_elems n d s = Some (vs, r) \<Longrightarrow> length r < length s"
    and mems: "\<And>d s kvs r. p_members n d s = Some (kvs, r) \<Longrightarrow> length r < length s" by blast+
  have 1: "length r < length s" if p: "p_value (Suc n) d s = Some (v, r)" for d s v r
  proof -
    from p obtain c u where c: "skip_ws s = c # u" by (auto split: list.splits)
    have u: "length u < length s" by (rule skip_ws_Cons [OF c])
    have "length r \<le> length u"
      using p c skip_ws_length [of u] lex_number_length [of "c # u"]
      by (auto split: if_splits dest!: elems mems lex_string_length)
    with u show ?thesis by simp
  qed
  have 2: "length r < length s" if p: "p_elems (Suc n) d s = Some (vs, r)" for d s vs r
  proof -
    from p obtain w u where v: "p_value n d s = Some (w, u)" by (auto split: option.splits)
    with p obtain c u' where c: "skip_ws u = c # u'" by (auto split: list.splits)
    have "length u' < length s" using vals [OF v] skip_ws_Cons [OF c] by simp
    with p v c show ?thesis by (auto split: if_splits dest!: elems)
  qed
  have 3: "length r < length s" if p: "p_members (Suc n) d s = Some (kvs, r)" for d s kvs r
  proof -
    from p obtain q u where q: "skip_ws s = q # u" "q = CHR 0x22" by (auto split: list.splits if_splits)
    with p obtain k u1 where k: "lex_string u = Some (k, u1)" "take 1 (skip_ws u1) = '':''"
      by (auto split: option.splits if_splits)
    with q p obtain w u2 where v: "p_value n d (drop 1 (skip_ws u1)) = Some (w, u2)" by (auto split: option.splits)
    with q k p obtain c u3 where c: "skip_ws u2 = c # u3" by (auto split: list.splits)
    have "length u3 < length s"
      using skip_ws_Cons [OF q(1)] lex_string_length [OF k(1)] vals [OF v] skip_ws_length [of u1] skip_ws_Cons [OF c]
      by simp
    with p q k v c show ?thesis by (auto split: if_splits dest!: mems)
  qed
  from 1 2 3 show ?case by blast
qed simp

lemmas p_length = p_length_all [THEN conjunct1, rule_format] p_length_all [THEN conjunct2, THEN conjunct1, rule_format]
  p_length_all [THEN conjunct2, THEN conjunct2, rule_format]

text \<open>From \<open>json_fuel\<close> on, more fuel makes no difference.\<close>

lemma fuel_enough_all:
  "(\<forall>d s m. 2 * length s + 1 \<le> n \<longrightarrow> n \<le> m \<longrightarrow> p_value m d s = p_value n d s)
   \<and> (\<forall>d s m. 2 * length s + 2 \<le> n \<longrightarrow> n \<le> m \<longrightarrow> p_elems m d s = p_elems n d s)
   \<and> (\<forall>d s m. 2 * length s + 2 \<le> n \<longrightarrow> n \<le> m \<longrightarrow> p_members m d s = p_members n d s)"
proof (induction n)
  case (Suc n)
  then have vals: "\<And>d s m. 2 * length s + 1 \<le> n \<Longrightarrow> n \<le> m \<Longrightarrow> p_value m d s = p_value n d s"
    and elems: "\<And>d s m. 2 * length s + 2 \<le> n \<Longrightarrow> n \<le> m \<Longrightarrow> p_elems m d s = p_elems n d s"
    and mems: "\<And>d s m. 2 * length s + 2 \<le> n \<Longrightarrow> n \<le> m \<Longrightarrow> p_members m d s = p_members n d s" by blast+
  have 1: "p_value (Suc m) d s = p_value (Suc n) d s" if "2 * length s + 1 \<le> Suc n" "n \<le> m" for d s m
  proof (cases "skip_ws s")
    case (Cons c u)
    have "2 * length u + 2 \<le> n" using skip_ws_Cons [OF Cons] that(1) by simp
    then show ?thesis by (simp only: p_value.simps Cons list.case elems [OF _ that(2)] mems [OF _ that(2)])
  qed simp
  have 2: "p_elems (Suc m) d s = p_elems (Suc n) d s" if "2 * length s + 2 \<le> Suc n" "n \<le> m" for d s m
  proof -
    have v: "p_value m d s = p_value n d s" by (rule vals) (use that in simp_all)
    show ?thesis
    proof (cases "p_value n d s")
      case (Some wu)
      obtain w u where wu: "wu = (w, u)" by fastforce
      have "p_elems m d u' = p_elems n d u'" if "skip_ws u = c # u'" for c u'
        using skip_ws_Cons [OF that] p_length(1) [OF Some [unfolded wu]] \<open>2 * length s + 2 \<le> Suc n\<close> \<open>n \<le> m\<close>
        by (intro elems) simp_all
      then show ?thesis using v Some wu by (auto split: list.split)
    qed (simp add: v)
  qed
  have 3: "p_members (Suc m) d s = p_members (Suc n) d s" if "2 * length s + 2 \<le> Suc n" "n \<le> m" for d s m
  proof (cases "skip_ws s")
    case (Cons q u)
    have u: "length u < length s" by (rule skip_ws_Cons [OF Cons])
    show ?thesis
    proof (cases "lex_string u")
      case (Some ku)
      obtain k u1 where ku: "ku = (k, u1)" by fastforce
      let ?w = "drop 1 (skip_ws u1)"
      have w: "length ?w < length s" using u lex_string_length [OF Some [unfolded ku]] skip_ws_length [of u1] by simp
      have v: "p_value m d ?w = p_value n d ?w" by (rule vals) (use w that in simp_all)
      show ?thesis
      proof (cases "p_value n d ?w")
        case None
        then show ?thesis using v by (simp add: Cons Some ku)
      next
        case (Some wu)
        obtain x u2 where wu: "wu = (x, u2)" by fastforce
        have "p_members m d u' = p_members n d u'" if "skip_ws u2 = c # u'" for c u'
          using skip_ws_Cons [OF that] p_length(1) [OF Some [unfolded wu]] w \<open>2 * length s + 2 \<le> Suc n\<close> \<open>n \<le> m\<close>
          by (intro mems) simp_all
        then show ?thesis using v Some wu by (simp add: Cons \<open>lex_string u = Some ku\<close> ku split: list.split)
      qed
    qed (simp add: Cons)
  qed simp
  show ?case using 1 2 3 by (metis Suc_le_D Suc_le_mono)
qed simp

lemma fuel_enough: "json_fuel s \<le> m \<Longrightarrow> p_value m d s = p_value (json_fuel s) d s"
  using fuel_enough_all [of "json_fuel s"] by (simp add: json_fuel_def)

section \<open>Parsing what json.Marshal wrote\<close>

fun utf8_valid :: "string \<Rightarrow> bool" where
  "utf8_valid [] = True"
| "utf8_valid (c # s) = (rune_size (c # s) \<noteq> 0 \<and> utf8_valid (drop (rune_size (c # s) - 1) s))"

lemma byte_char_of [simp]: "n < 256 \<Longrightarrow> byte (char_of n) = n"
  by (simp add: byte_def)

lemma char_of_byte [simp]: "char_of (byte c) = c"
  by (simp add: byte_def)

declare lex_string.simps(2) [simp del]

lemma lex_string_cases:
  "lex_string (CHR 0x22 # s) = Some ([], s)"
  "lex_string (CHR 0x5C # CHR ''u'' # s) = (case unicode_escape s of None \<Rightarrow> None
     | Some (bs, n) \<Rightarrow> prepend bs (lex_string (drop n s)))"
  "e \<noteq> CHR ''u'' \<Longrightarrow> simple_escape e = Some bs \<Longrightarrow> lex_string (CHR 0x5C # e # s) = prepend bs (lex_string s)"
  "byte c \<notin> {34, 92} \<Longrightarrow> 32 \<le> byte c \<Longrightarrow> rune_size (c # s) = Suc k \<Longrightarrow>
     lex_string (c # s) = prepend (c # take k s) (lex_string (drop k s))"
  by (simp_all add: lex_string.simps(2) byte_def)

lemma hex_value_digit: "n < 16 \<Longrightarrow> hex_value (hex_digit n) = Some n"
proof -
  have "\<forall>n\<in>set [0..<16]. hex_value (hex_digit n) = Some n" by code_simp
  then show "n < 16 \<Longrightarrow> hex_value (hex_digit n) = Some n" by simp
qed

lemma rune_size_ascii: "byte c < 128 \<Longrightarrow> rune_size (c # s) = 1"
  by (simp add: rune_size_def Let_def)

lemma unicode_escape_low:
  assumes "n < 256"
  shows "unicode_escape (CHR ''0'' # CHR ''0'' # hex_digit (n div 16) # hex_digit (n mod 16) # t) = Some (utf8 n, 4)"
proof -
  have "n div 16 < 16" using assms by simp
  moreover have "hex_value CHR ''0'' = Some 0" by code_simp
  ultimately have "hex4 (CHR ''0'' # CHR ''0'' # hex_digit (n div 16) # hex_digit (n mod 16) # t) = Some n"
    by (simp add: hex_value_digit)
  with assms show ?thesis by (simp add: unicode_escape_def)
qed

lemma json_char_short:
  assumes "(n :: nat) \<in> {34, 92, 8, 12, 10, 13, 9}"
  obtains e where "json_char (char_of n) = [CHR 0x5C, e]" "e \<noteq> CHR ''u''" "simple_escape e = Some [char_of n]"
proof -
  have "\<forall>n\<in>set [34, 92, 8, 12, 10, 13, 9 :: nat]. case json_char (char_of n) of [b, e] \<Rightarrow>
      b = CHR 0x5C \<and> e \<noteq> CHR ''u'' \<and> simple_escape e = Some [char_of n] | _ \<Rightarrow> False" by code_simp
  from bspec [OF this, of n] assms have "case json_char (char_of n) of [b, e] \<Rightarrow>
      b = CHR 0x5C \<and> e \<noteq> CHR ''u'' \<and> simple_escape e = Some [char_of n] | _ \<Rightarrow> False" by simp
  then show thesis using that by (auto split: list.splits)
qed

lemma lex_json_char:
  assumes "byte c < 128"
  shows "lex_string (json_char c @ t) = prepend [c] (lex_string t)"
proof -
  define n where "n = byte c"
  have c: "c = char_of n" "n < 128" "of_char c = n" using assms by (simp_all add: n_def byte_def)
  consider (short) "n \<in> {34, 92, 8, 12, 10, 13, 9}"
    | (esc) "n \<notin> {34, 92, 8, 12, 10, 13, 9}" "n < 32 \<or> n \<in> {60, 62, 38}"
    | (plain) "n \<notin> {34, 92, 60, 62, 38}" "32 \<le> n" by force
  then show ?thesis
  proof cases
    case short
    from json_char_short [OF this] obtain e where
      "json_char c = [CHR 0x5C, e]" "e \<noteq> CHR ''u''" "simple_escape e = Some [c]" unfolding c(1) .
    then show ?thesis by (simp add: lex_string_cases(3))
  next
    case esc
    have "json_char c = CHR 0x5C # CHR ''u'' # CHR ''0'' # CHR ''0'' # hex_digit (n div 16) # hex_digit (n mod 16) # []"
      using esc c by (auto simp: json_char_def Let_def)
    moreover have "utf8 n = [c]" using c by (simp add: utf8_def)
    ultimately show ?thesis using unicode_escape_low [of n t] c(2) by (simp add: lex_string_cases(2))
  next
    case plain
    then have "json_char c = [c]" using c by (auto simp: json_char_def Let_def)
    moreover have "byte c \<notin> {34, 92}" "32 \<le> byte c" using plain by (simp_all add: n_def)
    moreover have "rune_size (c # t) = Suc 0" using rune_size_ascii [OF assms] by simp
    ultimately show ?thesis using lex_string_cases(4) [of c t 0] by simp
  qed
qed

lemma rune_size_multi:
  assumes "rune_size (c # s) = k" "2 \<le> k"
  obtains b s' where "s = b # s'" "128 \<le> byte c" "128 \<le> byte b" "k - 2 \<le> length s'"
    "list_all (\<lambda>x. 128 \<le> byte x) (take (k - 2) s')" "\<And>t. rune_size (c # b # take (k - 2) s' @ t) = k"
proof -
  from assms obtain b s' where s: "s = b # s'" by (auto simp: rune_size_def Let_def split: list.splits if_splits)
  have c: "128 \<le> byte c" using assms by (rule_tac ccontr) (simp add: rune_size_ascii)
  let ?k = "if byte c < 0x80 then 1 else if 0xC2 \<le> byte c \<and> byte c \<le> 0xDF then 2
           else if 0xE0 \<le> byte c \<and> byte c \<le> 0xEF then 3 else if 0xF0 \<le> byte c \<and> byte c \<le> 0xF4 then 4 else 0 :: nat"
  have size: "rune_size (c # b # u) = (if ?k \<le> 1 then ?k else
      if within (fst (second_range (byte c))) (snd (second_range (byte c))) b \<and> ?k - 2 \<le> length u
        \<and> list_all (within 0x80 0xBF) (take (?k - 2) u) then ?k else 0)" for u
    by (simp only: rune_size_def list.case Let_def)
  have k: "?k = k" "within (fst (second_range (byte c))) (snd (second_range (byte c))) b" "k - 2 \<le> length s'"
      "list_all (within 0x80 0xBF) (take (k - 2) s')"
    using assms size [of s'] by (simp_all only: s split: if_splits) linarith+
  have "0x80 \<le> fst (second_range (byte c))" by (simp add: second_range_def)
  then have "128 \<le> byte b" using k(2) unfolding within_def by linarith
  moreover have "list_all (\<lambda>x. 128 \<le> byte x) (take (k - 2) s')"
    using k(4) by (rule list.pred_mono_strong) (simp add: within_def)
  moreover have "rune_size (c # b # take (k - 2) s' @ t) = k" for t
    using size [of "take (k - 2) s' @ t"] k assms(2) by (simp only: k(1)) simp
  ultimately show thesis using that s c k(3) by blast
qed

lemma lex_separators:
  "lex_string (CHR 0x5C # ''u2028'' @ t) = prepend [CHR 0xE2, CHR 0x80, CHR 0xA8] (lex_string t)"
  "lex_string (CHR 0x5C # ''u2029'' @ t) = prepend [CHR 0xE2, CHR 0x80, CHR 0xA9] (lex_string t)"
proof -
  have v: "hex_value CHR ''2'' = Some 2" "hex_value CHR ''0'' = Some 0" "hex_value CHR ''8'' = Some 8" "hex_value CHR ''9'' = Some 9"
    by code_simp+
  have "utf8 0x2028 = [CHR 0xE2, CHR 0x80, CHR 0xA8]" "utf8 0x2029 = [CHR 0xE2, CHR 0x80, CHR 0xA9]"
    by (simp_all add: utf8_def char_of_eq_iff)
  with v have "unicode_escape (CHR ''2'' # CHR ''0'' # CHR ''2'' # CHR ''8'' # t) = Some ([CHR 0xE2, CHR 0x80, CHR 0xA8], 4)"
    "unicode_escape (CHR ''2'' # CHR ''0'' # CHR ''2'' # CHR ''9'' # t) = Some ([CHR 0xE2, CHR 0x80, CHR 0xA9], 4)"
    by (simp_all add: unicode_escape_def)
  then show "lex_string (CHR 0x5C # ''u2028'' @ t) = prepend [CHR 0xE2, CHR 0x80, CHR 0xA8] (lex_string t)"
    "lex_string (CHR 0x5C # ''u2029'' @ t) = prepend [CHR 0xE2, CHR 0x80, CHR 0xA9] (lex_string t)"
    by (simp_all add: lex_string_cases(2))
qed

text \<open>The bytes of a rune of several bytes are written as they are, or as an escape.\<close>

lemma json_runes_multi:
  assumes "128 \<le> byte c" "2 \<le> rune_size (c # s)"
  defines "k \<equiv> rune_size (c # s)"
  shows "lex_string (json_runes (Suc n) (c # s) @ CHR 0x22 # r) =
    prepend (take k (c # s)) (lex_string (json_runes n (drop k (c # s)) @ CHR 0x22 # r))"
proof -
  have sep: "k = 3" if "take 3 (c # s) = [CHR 0xE2, CHR 0x80, x]" for x
    using that assms(2) by (auto simp: k_def rune_size_def byte_def Let_def numeral_3_eq_3 split: list.splits)
  from assms(2) obtain b s' where s: "s = b # s'" and len: "k - 2 \<le> length s'"
      and size: "\<And>t. rune_size (c # b # take (k - 2) s' @ t) = k"
    using rune_size_multi [OF k_def [THEN meta_eq_to_obj_eq, symmetric]] unfolding k_def by metis
  obtain j where j: "k = Suc (Suc j)" using assms(2) unfolding k_def by (metis Suc_le_D numeral_2_eq_2 Suc_le_mono)
  have plain: "lex_string (take k (c # s) @ t) = prepend (take k (c # s)) (lex_string t)" for t
    using lex_string_cases(4) [of c "b # take j s' @ t" "Suc j"] assms(1) len size [of t] by (simp add: j s min_def)
  have wide: "\<not> byte c < 128" "\<not> rune_size (c # s) \<le> 1" using assms(1,2) by simp_all
  show ?thesis
    using sep plain [of "json_runes n (drop k (c # s)) @ CHR 0x22 # r"] wide
      lex_separators [of "json_runes n (drop 3 (c # s)) @ CHR 0x22 # r"]
    by (simp add: k_def [symmetric])
qed

lemma lex_json_runes:
  "length s \<le> n \<Longrightarrow> utf8_valid s \<Longrightarrow> lex_string (json_runes n s @ CHR 0x22 # r) = Some (s, r)"
proof (induction n arbitrary: s)
  case (Suc n)
  show ?case
  proof (cases s)
    case (Cons c u)
    show ?thesis
    proof (cases "byte c < 128")
      case True
      then have "rune_size (c # u) = 1" by (rule rune_size_ascii)
      with Suc Cons have "lex_string (json_runes n u @ CHR 0x22 # r) = Some (u, r)" by simp
      with lex_json_char [OF True] show ?thesis by (simp add: Cons True)
    next
      case False
      define k where "k = rune_size (c # u)"
      have "k \<noteq> 0" using Suc(3) by (simp add: k_def Cons)
      moreover have "k \<noteq> 1" using False by (auto simp: k_def rune_size_def Let_def split: list.splits if_splits)
      ultimately have k: "2 \<le> k" by simp
      then obtain j where j: "k = Suc j" by (cases k) simp_all
      have "utf8_valid (drop j u)" using Suc(3) by (simp add: Cons k_def [symmetric] j)
      with Suc(1) [of "drop j u"] Suc(2) have "lex_string (json_runes n (drop k s) @ CHR 0x22 # r) = Some (drop k s, r)"
        by (simp add: Cons j)
      with json_runes_multi [of c u n r] False k show ?thesis by (simp add: Cons k_def [symmetric] del: json_runes.simps)
    qed
  qed (simp add: lex_string_cases)
qed (simp add: lex_string_cases)

lemma lex_json_string: "utf8_valid s \<Longrightarrow> lex_string (json_runes (length s) s @ CHR 0x22 # r) = Some (s, r)"
  by (rule lex_json_runes) simp_all

text \<open>Numbers.\<close>

definition ends_value :: "string \<Rightarrow> bool" where
  "ends_value r \<longleftrightarrow> r = [] \<or> hd r \<in> set '',]}''"

lemma fmt_nat_digits: "list_all is_digit (fmt_nat n)"
proof (induction n rule: fmt_nat.induct)
  case (1 n)
  have dig: "is_digit (char_of (48 + k))" if "k < 10" for k :: nat
    using that by (simp add: is_digit_def less_eq_char_def)
  show ?case
    by (subst fmt_nat.simps) (use 1 dig [of "n mod 10"] dig [of n] in auto)
qed

lemma fmt_nat_head: "0 < n \<Longrightarrow> hd (fmt_nat n) \<noteq> CHR ''0''"
proof (induction n rule: fmt_nat.induct)
  case (1 n)
  have dig: "char_of (48 + k) \<noteq> CHR ''0''" if "0 < k" "k < 10" for k :: nat
  proof
    assume "char_of (48 + k) = CHR ''0''"
    then have "(of_char (char_of (48 + k) :: char) :: nat) = of_char CHR ''0''" by simp
    with that show False by simp
  qed
  show ?case
    by (subst fmt_nat.simps) (use 1 dig [of n] in \<open>auto simp: hd_append\<close>)
qed

lemma ends_value_not_digit: "ends_value r \<Longrightarrow> r = [] \<or> \<not> is_digit (hd r) \<and> hd r \<notin> set ''.eE''"
  by (auto simp: ends_value_def is_digit_def less_eq_char_def)

lemma digits_append: "list_all is_digit ds \<Longrightarrow> r = [] \<or> \<not> is_digit (hd r) \<Longrightarrow> digits (ds @ r) = (ds, r)"
  by (cases r) (auto simp: digits_def list_all_iff takeWhile_append dropWhile_append)

lemma lex_number_fmt_d:
  assumes "ends_value r"
  shows "lex_number (fmt_d i @ r) = Some (fmt_d i, r)"
proof -
  have r: "r = [] \<or> \<not> is_digit (hd r)" "r = [] \<or> hd r \<notin> set ''.eE''" using ends_value_not_digit [OF assms] by auto
  have nat: "lex_int (fmt_nat n @ r) = Some (fmt_nat n, r)" for n
  proof (cases "n = 0")
    case True
    have "fmt_nat 0 = ''0''" by code_simp
    then show ?thesis using digits_append [OF fmt_nat_digits r(1), of 0] by (simp add: True lex_int_def)
  next
    case False
    then have "hd (fmt_nat n) \<noteq> CHR ''0''" by (simp add: fmt_nat_head)
    then show ?thesis using digits_append [OF fmt_nat_digits r(1), of n] fmt_nat_nonempty [of n]
      by (cases "fmt_nat n") (simp_all add: lex_int_def)
  qed
  have rest: "lex_fraction r = Some ([], r)" "lex_exponent r = Some ([], r)"
    using r(2) by (cases r; simp add: lex_fraction_def lex_exponent_def)+
  have sign: "\<not> has_prefix (fmt_nat n @ r) ''-''" for n
    using fmt_nat_digits [of n] fmt_nat_nonempty [of n]
    by (cases "fmt_nat n") (auto simp: has_prefix_def is_digit_def less_eq_char_def)
  show ?thesis
    using sign by (auto simp: lex_number_def fmt_d_def Let_def nat rest)
qed

text \<open>The tree of a value, and what makes it readable.\<close>

fun tree_of :: "json \<Rightarrow> jtree" where
  "tree_of (JStr s) = TStr s"
| "tree_of (JBool b) = TBool b"
| "tree_of (JInt i) = TNum (fmt_d i)"
| "tree_of (JArr vs) = TArr (map tree_of vs)"
| "tree_of (JObj kvs) = TObj (map (\<lambda>(k, v). (k, tree_of v)) kvs)"

fun json_depth :: "json \<Rightarrow> nat" where
  "json_depth (JArr vs) = Suc (foldr max (map json_depth vs) 0)"
| "json_depth (JObj kvs) = Suc (foldr max (map (\<lambda>(k, v). json_depth v) kvs) 0)"
| "json_depth _ = 0"

fun json_utf8 :: "json \<Rightarrow> bool" where
  "json_utf8 (JStr s) = utf8_valid s"
| "json_utf8 (JArr vs) = list_all json_utf8 vs"
| "json_utf8 (JObj kvs) = list_all (\<lambda>(k, v). utf8_valid k \<and> json_utf8 v) kvs"
| "json_utf8 _ = True"

lemma foldr_max_le: "foldr max (map f xs) 0 \<le> d \<longleftrightarrow> (\<forall>x\<in>set xs. f x \<le> (d :: nat))"
  by (induction xs) auto

text \<open>A run of the parser that succeeds with every large enough fuel.\<close>

definition settles :: "(nat \<Rightarrow> 'a option) \<Rightarrow> 'a \<Rightarrow> bool" where
  "settles p x \<longleftrightarrow> (\<exists>n. \<forall>m\<ge>n. p m = Some x)"

lemma settlesI: "(\<And>m. m \<ge> n \<Longrightarrow> p m = Some x) \<Longrightarrow> settles p x"
  unfolding settles_def by blast

lemma settles_step:
  assumes "settles p x" "\<And>n. p n = Some x \<Longrightarrow> q (Suc n) = Some y"
  shows "settles q y"
proof -
  from assms(1) obtain n where "\<And>m. m \<ge> n \<Longrightarrow> p m = Some x" unfolding settles_def by blast
  with assms(2) have "q m = Some y" if "m \<ge> Suc n" for m
    using that by (cases m) auto
  then show ?thesis by (rule settlesI)
qed

lemma settles_step2:
  assumes "settles p x" "settles p' x'" "\<And>n. p n = Some x \<Longrightarrow> p' n = Some x' \<Longrightarrow> q (Suc n) = Some y"
  shows "settles q y"
proof -
  from assms(1,2) obtain n n' where "\<And>m. m \<ge> n \<Longrightarrow> p m = Some x" "\<And>m. m \<ge> n' \<Longrightarrow> p' m = Some x'"
    unfolding settles_def by blast
  with assms(3) have "q m = Some y" if "m \<ge> Suc (max n n')" for m
    using that by (cases m) auto
  then show ?thesis by (rule settlesI)
qed

lemma skip_ws_id: "byte c \<notin> {32, 9, 10, 13} \<Longrightarrow> skip_ws (c # s) = c # s"
  by (simp add: skip_ws_def)

lemma skip_ws_delims [simp]:
  "skip_ws (CHR '','' # s) = CHR '','' # s" "skip_ws (CHR '']'' # s) = CHR '']'' # s"
  "skip_ws (CHR ''}'' # s) = CHR ''}'' # s" "skip_ws (CHR '':'' # s) = CHR '':'' # s"
  "skip_ws (CHR ''['' # s) = CHR ''['' # s" "skip_ws (CHR ''{'' # s) = CHR ''{'' # s"
  "skip_ws (CHR 0x22 # s) = CHR 0x22 # s" "skip_ws (CHR ''t'' # s) = CHR ''t'' # s"
  "skip_ws (CHR ''f'' # s) = CHR ''f'' # s"
  by (simp_all add: skip_ws_id byte_def)

text \<open>A value starts with a byte that closes nothing.\<close>

lemma fmt_d_start: "\<exists>c s. fmt_d i = c # s \<and> (is_digit c \<or> c = CHR ''-'')"
proof (cases "i < 0")
  case False
  then show ?thesis using fmt_nat_digits [of "nat i"] fmt_nat_nonempty [of "nat i"]
    by (cases "fmt_nat (nat i)") (auto simp: fmt_d_def)
qed (simp add: fmt_d_def)

lemma digit_plain:
  assumes "is_digit c \<or> c = CHR ''-''"
  shows "byte c \<notin> {32, 9, 10, 13}" "c \<notin> set ''{[ntf]}''" "c \<noteq> CHR 0x22"
proof -
  have "c = CHR ''-'' \<or> (48 \<le> byte c \<and> byte c \<le> 57)" using assms by (auto simp: is_digit_def less_eq_char_def byte_def)
  then show "byte c \<notin> {32, 9, 10, 13}" "c \<notin> set ''{[ntf]}''" "c \<noteq> CHR 0x22" by (auto simp: byte_def)
qed

lemma json_bytes_start: "\<exists>c s. json_bytes v = c # s \<and> (\<forall>t. skip_ws (c # t) = c # t) \<and> c \<notin> set '']}''"
proof (cases v)
  case (JInt i)
  from fmt_d_start [of i] obtain c s where c: "fmt_d i = c # s" "is_digit c \<or> c = CHR ''-''" by blast
  with digit_plain [OF c(2)] skip_ws_id [of c] show ?thesis by (simp add: JInt)
qed (auto simp: json_string_def)

lemma p_number:
  assumes "ends_value r"
  shows "p_value (Suc n) d (fmt_d i @ r) = Some (TNum (fmt_d i), r)"
proof -
  from fmt_d_start [of i] obtain c s where c: "fmt_d i = c # s" "is_digit c \<or> c = CHR ''-''" by blast
  from digit_plain [OF c(2)] have ws: "skip_ws (fmt_d i @ r) = c # s @ r" and no: "c \<noteq> CHR ''{''" "c \<noteq> CHR ''[''"
      "c \<noteq> CHR 0x22" "\<not> has_prefix (c # s @ r) ''null''" "\<not> has_prefix (c # s @ r) ''true''"
      "\<not> has_prefix (c # s @ r) ''false''"
    by (simp_all add: c(1) skip_ws_id)
  have "lex_number (c # s @ r) = Some (fmt_d i, r)" using lex_number_fmt_d [OF assms, of i] by (simp add: c(1))
  then show ?thesis unfolding p_value.simps ws list.case if_not_P [OF no(1)] if_not_P [OF no(2)] if_not_P [OF no(3)]
      if_not_P [OF no(4)] if_not_P [OF no(5)] if_not_P [OF no(6)] by simp
qed

definition value_reads :: "json \<Rightarrow> bool" where
  "value_reads v \<longleftrightarrow> (\<forall>d r. json_utf8 v \<longrightarrow> json_depth v \<le> d \<longrightarrow> ends_value r \<longrightarrow>
     settles (\<lambda>n. p_value n d (json_bytes v @ r)) (tree_of v, r))"

lemma elems_read:
  assumes "\<forall>v\<in>set vs. value_reads v" "list_all json_utf8 vs" "\<forall>v\<in>set vs. json_depth v \<le> d" "vs \<noteq> []"
  shows "settles (\<lambda>n. p_elems n d (join (map json_bytes vs) '','' @ CHR '']'' # r)) (map tree_of vs, r)"
  using assms
proof (induction vs)
  case (Cons v vs)
  have v: "settles (\<lambda>n. p_value n d (json_bytes v @ u)) (tree_of v, u)" if "ends_value u" for u
    using Cons.prems that by (auto simp: value_reads_def)
  show ?case
  proof (cases vs)
    case Nil
    have "ends_value (CHR '']'' # r)" by (simp add: ends_value_def)
    from v [OF this] show ?thesis by (rule settles_step) (simp add: Nil)
  next
    case (Cons w ws)
    let ?u = "join (map json_bytes vs) '','' @ CHR '']'' # r"
    have "ends_value (CHR '','' # ?u)" by (simp add: ends_value_def)
    from v [OF this] have a: "settles (\<lambda>n. p_value n d (json_bytes v @ CHR '','' # ?u)) (tree_of v, CHR '','' # ?u)" .
    have b: "settles (\<lambda>n. p_elems n d ?u) (map tree_of vs, r)" using Cons Cons.IH Cons.prems by simp
    show ?thesis by (rule settles_step2 [OF a b]) (simp add: Cons)
  qed
qed simp


abbreviation member_bytes :: "string \<times> json \<Rightarrow> string" where
  "member_bytes \<equiv> \<lambda>(k, v). json_string k @ CHR '':'' # json_bytes v"

abbreviation member_tree :: "string \<times> json \<Rightarrow> string \<times> jtree" where
  "member_tree \<equiv> \<lambda>(k, v). (k, tree_of v)"

lemma members_read:
  assumes "\<forall>(k, v)\<in>set kvs. value_reads v" "list_all (\<lambda>(k, v). utf8_valid k \<and> json_utf8 v) kvs"
    and "\<forall>(k, v)\<in>set kvs. json_depth v \<le> d" "kvs \<noteq> []"
  shows "settles (\<lambda>n. p_members n d (join (map member_bytes kvs) '','' @ CHR ''}'' # r)) (map member_tree kvs, r)"
  using assms
proof (induction kvs)
  case (Cons kv kvs)
  obtain k v where kv: "kv = (k, v)" by fastforce
  have v: "settles (\<lambda>n. p_value n d (json_bytes v @ u)) (tree_of v, u)" if "ends_value u" for u
    using Cons.prems that by (auto simp: value_reads_def kv)
  have key: "lex_string (json_runes (length k) k @ CHR 0x22 # u) = Some (k, u)" for u
    by (rule lex_json_string) (use Cons.prems kv in simp)
  show ?case
  proof (cases kvs)
    case Nil
    have "ends_value (CHR ''}'' # r)" by (simp add: ends_value_def)
    from v [OF this] show ?thesis by (rule settles_step) (simp add: Nil kv json_string_def key)
  next
    case (Cons w ws)
    let ?u = "join (map member_bytes kvs) '','' @ CHR ''}'' # r"
    have "ends_value (CHR '','' # ?u)" by (simp add: ends_value_def)
    from v [OF this] have a: "settles (\<lambda>n. p_value n d (json_bytes v @ CHR '','' # ?u)) (tree_of v, CHR '','' # ?u)" .
    have b: "settles (\<lambda>n. p_members n d ?u) (map member_tree kvs, r)" using Cons Cons.IH Cons.prems by simp
    show ?thesis by (rule settles_step2 [OF a b]) (simp add: Cons kv json_string_def key)
  qed
qed simp

lemma value_reads: "value_reads v"
proof (induction v)
  case (JStr s)
  show ?case unfolding value_reads_def
    by (auto simp: json_string_def lex_json_string intro!: settlesI [of 1] dest!: Suc_le_D)
next
  case (JBool b)
  show ?case unfolding value_reads_def
    by (auto simp: has_prefix_def intro!: settlesI [of 1] dest!: Suc_le_D)
next
  case (JInt i)
  have "p_value m d (fmt_d i @ r) = Some (TNum (fmt_d i), r)" if "ends_value r" "m \<ge> 1" for m d r
    using p_number [OF that(1), of "m - 1"] that(2) by simp
  then show ?case unfolding value_reads_def by (auto intro: settlesI [of 1])
next
  case (JArr vs)
  show ?case
  proof (cases vs)
    case Nil
    show ?thesis unfolding value_reads_def Nil by (auto intro!: settlesI [of 1] dest!: Suc_le_D)
  next
    case (Cons w ws)
    have "settles (\<lambda>n. p_value n d (json_bytes (JArr vs) @ r)) (tree_of (JArr vs), r)"
      if u: "json_utf8 (JArr vs)" and d: "json_depth (JArr vs) \<le> d" for d r
    proof -
      have "foldr max (map json_depth vs) 0 \<le> d - 1" using d by simp
      then have "\<forall>v\<in>set vs. json_depth v \<le> d - 1" by (simp add: foldr_max_le)
      then have a: "settles (\<lambda>n. p_elems n (d - 1) (join (map json_bytes vs) '','' @ CHR '']'' # r)) (map tree_of vs, r)"
        using elems_read [of vs "d - 1" r] JArr u Cons by simp
      obtain c s where c: "json_bytes w = c # s" "\<And>t. skip_ws (c # t) = c # t" "c \<notin> set '']}''"
        using json_bytes_start [of w] by blast
      have "\<exists>t. join (map json_bytes vs) '','' @ CHR '']'' # r = c # t"
        using c(1) by (cases ws) (simp_all add: Cons)
      then obtain t where t: "join (map json_bytes vs) '','' @ CHR '']'' # r = c # t" by blast
      show ?thesis
        by (rule settles_step [OF a]) (use d c(2,3) in \<open>simp add: t\<close>)
    qed
    then show ?thesis by (simp add: value_reads_def)
  qed
next
  case (JObj kvs)
  show ?case
  proof (cases kvs)
    case Nil
    show ?thesis unfolding value_reads_def Nil by (auto intro!: settlesI [of 1] dest!: Suc_le_D)
  next
    case (Cons w ws)
    have "settles (\<lambda>n. p_value n d (json_bytes (JObj kvs) @ r)) (tree_of (JObj kvs), r)"
      if u: "json_utf8 (JObj kvs)" and d: "json_depth (JObj kvs) \<le> d" for d r
    proof -
      have "foldr max (map (\<lambda>(k, v). json_depth v) kvs) 0 \<le> d - 1" using d by simp
      then have "\<forall>(k, v)\<in>set kvs. json_depth v \<le> d - 1" by (simp add: foldr_max_le case_prod_unfold)
      moreover have "\<forall>(k, v)\<in>set kvs. value_reads v" using JObj by fastforce
      ultimately have a: "settles (\<lambda>n. p_members n (d - 1) (join (map member_bytes kvs) '','' @ CHR ''}'' # r))
          (map member_tree kvs, r)"
        using members_read [of kvs "d - 1" r] u Cons by simp
      have "\<exists>t. join (map member_bytes kvs) '','' @ CHR ''}'' # r = CHR 0x22 # t"
        by (cases w; cases ws) (simp_all add: Cons json_string_def)
      then obtain t where t: "join (map member_bytes kvs) '','' @ CHR ''}'' # r = CHR 0x22 # t" by blast
      show ?thesis
        by (rule settles_step [OF a]) (use d in \<open>simp add: t\<close>)
    qed
    then show ?thesis by (simp add: value_reads_def)
  qed
qed

text \<open>So the parser inverts \<open>json_bytes\<close>.\<close>

lemma parse_json_bytes:
  assumes "json_utf8 v" "json_depth v \<le> max_nesting"
  shows "parse_json (json_bytes v) = Some (tree_of v)"
proof -
  have "settles (\<lambda>n. p_value n max_nesting (json_bytes v)) (tree_of v, [])"
    using value_reads [of v] assms by (fastforce simp: value_reads_def ends_value_def)
  then obtain n where n: "\<And>m. m \<ge> n \<Longrightarrow> p_value m max_nesting (json_bytes v) = Some (tree_of v, [])"
    unfolding settles_def by blast
  have "p_value (json_fuel (json_bytes v)) max_nesting (json_bytes v) = Some (tree_of v, [])"
    using fuel_enough [of "json_bytes v" "max n (json_fuel (json_bytes v))"] n [of "max n (json_fuel (json_bytes v))"] by simp
  then show ?thesis by (simp add: parse_json_def skip_ws_def)
qed

section \<open>A receiver of a webhook reads the event back\<close>

definition ascii :: "char \<Rightarrow> bool" where
  "ascii c \<longleftrightarrow> byte c < 128"

lemma ascii_utf8: "list_all ascii s \<Longrightarrow> utf8_valid s"
  by (induction s) (simp_all add: rune_size_ascii ascii_def)

lemma ascii_consts [simp]: "ascii CHR ''-''" "ascii CHR '':''" "ascii CHR ''.''" "ascii CHR ''T''" "ascii CHR ''Z''"
  "ascii CHR ''0''"
  by code_simp+

lemma fmt_d_ascii: "list_all ascii (fmt_d i)"
proof -
  have "list_all ascii (fmt_nat n)" for n
    using fmt_nat_digits [of n]
    by (rule list.pred_mono_strong) (simp add: is_digit_def less_eq_char_def ascii_def byte_def)
  then show ?thesis by (simp add: fmt_d_def)
qed

lemma pad_left_ascii: "list_all ascii s \<Longrightarrow> list_all ascii (pad_left n s)"
  by (auto simp: pad_left_def list_all_iff)

lemma rfc3339_ascii: "list_all ascii (rfc3339_nano t)"
proof -
  have drop: "list_all ascii (dropWhile P (List.rev s))" if "list_all ascii s" for P s
    using that by (auto simp: list_all_iff dest!: set_dropWhileD)
  note parts = fmt_d_ascii pad_left_ascii drop
  have "list_all ascii (date_text t)" "list_all ascii (clock_text t)"
    by (auto simp: date_text_def clock_text_def Let_def parts split: prod.split)
  then show ?thesis by (auto simp: rfc3339_nano_def Let_def parts)
qed

definition event_utf8 :: "notify_event \<Rightarrow> bool" where
  "event_utf8 e \<longleftrightarrow> list_all utf8_valid [ne_id e, ne_kind e, ne_service e, ne_namespace e, ne_repo e, ne_revision e,
     ne_image e, ne_phase e, ne_message e]"

lemma event_keys:
  "fold_name ''id'' = ''ID''" "fold_name ''kind'' = ''KIND''" "fold_name ''service'' = ''SERVICE''"
  "fold_name ''namespace'' = ''NAMESPACE''" "fold_name ''repo'' = ''REPO''" "fold_name ''revision'' = ''REVISION''"
  "fold_name ''image'' = ''IMAGE''" "fold_name ''phase'' = ''PHASE''" "fold_name ''message'' = ''MESSAGE''"
  "fold_name ''severity'' = ''SEVERITY''" "fold_name ''time'' = ''TIME''"
  by code_simp+

lemma event_keys_utf8:
  "list_all utf8_valid [''id'', ''kind'', ''service'', ''namespace'', ''repo'', ''revision'', ''image'', ''phase'',
     ''message'', ''severity'', ''time'', ''info'', ''success'', ''error'']"
  by code_simp

lemma event_tree:
  assumes "event_utf8 e"
  shows "parse_json (json_bytes (event_json e)) = Some (tree_of (event_json e))"
proof (rule parse_json_bytes)
  have keys: "utf8_valid ''id''" "utf8_valid ''kind''" "utf8_valid ''service''" "utf8_valid ''namespace''" "utf8_valid ''repo''"
      "utf8_valid ''revision''" "utf8_valid ''image''" "utf8_valid ''phase''" "utf8_valid ''message''" "utf8_valid ''severity''"
      "utf8_valid ''time''" "utf8_valid ''info''" "utf8_valid ''success''" "utf8_valid ''error''"
    using event_keys_utf8 by (simp_all only: list.pred_inject)
  have sev: "utf8_valid (severity_string (ne_severity e))"
    by (cases "ne_severity e") (simp_all only: severity_string.simps keys utf8_valid.simps(1))
  show "json_utf8 (event_json e)"
    using assms ascii_utf8 [OF rfc3339_ascii] sev
    by (simp del: utf8_valid.simps(2) add: event_json_def omit_empty_def event_utf8_def keys)
  show "json_depth (event_json e) \<le> max_nesting"
    by (simp add: event_json_def omit_empty_def max_nesting_def)
qed

text \<open>C37: The body a webhook posts, and signs, gives the event back: decoding it as \<^verbatim>\<open>encoding/json\<close> does yields each field
  of the event as it was, whatever characters it holds (quotes, control characters, the escaped U+2028 and U+2029 too),
  as long as the fields are valid UTF-8. Escaping can neither
  corrupt a field nor let one field's text show up as another.\<close>

theorem webhook_body_roundtrip:
  assumes "event_utf8 e"
  shows "list_all (\<lambda>(name, x). unmarshal_string J name (json_bytes (event_json e)) = Inr x)
     [(''id'', ne_id e), (''kind'', ne_kind e), (''service'', ne_service e), (''namespace'', ne_namespace e),
      (''repo'', ne_repo e), (''revision'', ne_revision e), (''image'', ne_image e), (''phase'', ne_phase e),
      (''message'', ne_message e), (''severity'', severity_string (ne_severity e)), (''time'', rfc3339_nano (ne_time e))]"
  unfolding unmarshal_string_def event_tree [OF assms]
  by (simp add: event_json_def omit_empty_def field_values_def event_keys del: fold_name.simps)

theorem webhook_body_roundtrip_witness:
  "let e = \<lparr>ne_id = ''1'', ne_kind = ''Push'', ne_service = ''api'', ne_namespace = ''shop'', ne_repo = '''', ne_revision = '''',
       ne_image = '''', ne_phase = '''', ne_message = ''<b> '' @ [CHR 0x22, CHR 0x0A, CHR 0xC3, CHR 0xA9, CHR 0xE2, CHR 0x80, CHR 0xA8], ne_severity = SeverityInfo,
       ne_time = 0\<rparr> in
   unmarshal_string \<lparr>jl_error = id, jl_float = Some\<rparr> ''message'' (json_bytes (event_json e)) = Inr (ne_message e)"
proof -
  let ?e = "\<lparr>ne_id = ''1'', ne_kind = ''Push'', ne_service = ''api'', ne_namespace = ''shop'', ne_repo = '''', ne_revision = '''',
       ne_image = '''', ne_phase = '''', ne_message = ''<b> '' @ [CHR 0x22, CHR 0x0A, CHR 0xC3, CHR 0xA9, CHR 0xE2, CHR 0x80, CHR 0xA8], ne_severity = SeverityInfo,
       ne_time = 0\<rparr>"
  have "event_utf8 ?e" by code_simp
  from webhook_body_roundtrip [OF this] show ?thesis unfolding Let_def by (simp only: list.pred_inject prod.case)
qed

end
