(* ===== verification/GitProvider.thy ===== *)
theory GitProvider
  imports Json
begin

text \<open>
  Package \<^verbatim>\<open>internal/gitprovider\<close>: the clients that create a repository on GitHub
  (\<^verbatim>\<open>github.go\<close>) or GitLab (\<^verbatim>\<open>gitlab.go\<close>) over the shared HTTP client of
  \<^verbatim>\<open>provider.go\<close>. Both ask for the repository first and create it only when the host says it
  does not exist; each exchange is one event \<open>EvHttp\<close>. The interface \<^verbatim>\<open>Provider\<close> is the
  datatype \<open>provider\<close>. The lemmas describe every run: where its requests go and with which
  credentials, and that the one request that creates comes after a 404 for the same
  repository.
\<close>

section \<open>provider.go\<close>

record repo_spec =
  rp_owner :: string
  rp_name :: string
  rp_private :: bool
  rp_description :: string

record api_client =
  api_base :: string
  api_token :: string
  api_header :: string

datatype provider = GitHub api_client | GitLab api_client

fun firstNonEmpty :: "string list \<Rightarrow> string" where
  "firstNonEmpty [] = ''''"
| "firstNonEmpty (v # vs) = (if v \<noteq> '''' then v else firstNonEmpty vs)"

definition new_provider :: "string \<Rightarrow> string \<Rightarrow> string \<Rightarrow> gerror + provider" where
  "new_provider kind baseURL token =
     (if token = '''' then Inl (errorf ''a token is required to create repositories'')
      else let api = \<lparr>api_base = '''', api_token = token, api_header = ''''\<rparr> in
        if kind = ''github'' then
          Inr (GitHub (api\<lparr>api_base := trim_suffix (firstNonEmpty [baseURL, ''https://api.github.com'']) ''/''\<rparr>))
        else if kind = ''gitlab'' then
          Inr (GitLab (api\<lparr>api_base := trim_suffix (firstNonEmpty [baseURL, ''https://gitlab.com'']) ''/'' @ ''/api/v4''\<rparr>))
        else Inl (errorf (''unknown git provider '' @ fmt_q kind)))"

text \<open>The sentinel \<^verbatim>\<open>errNotFound\<close> is told apart from every other error.\<close>

datatype api_error = ErrRepoNotFound | ApiError gerror

fun api_gerror :: "api_error \<Rightarrow> gerror" where
  "api_gerror ErrRepoNotFound = errorf ''not found''"
| "api_gerror (ApiError e) = e"

definition apiMessage :: "json_lib \<Rightarrow> string \<Rightarrow> string" where
  "apiMessage J data = (case unmarshal_any J ''message'' data of
       Some v \<Rightarrow> sprint J v
     | None \<Rightarrow> trim_space (if length data > 200 then take 200 data else data))"

definition body_limit :: nat where
  "body_limit = 1048576"

definition api_request :: "api_client \<Rightarrow> string \<Rightarrow> string \<Rightarrow> json option \<Rightarrow> http_request" where
  "api_request a method path body = \<lparr>hq_method = method, hq_url = api_base a @ path,
     hq_headers = [(''Accept'', ''application/json''), (''Content-Type'', ''application/json''),
       (''User-Agent'', ''koptan-operator''),
       (if api_header a \<noteq> '''' then (api_header a, api_token a) else (''Authorization'', ''Bearer '' @ api_token a))],
     hq_body = body\<rparr>"

definition api_answer :: "json_lib \<Rightarrow> string \<Rightarrow> string \<Rightarrow> (string \<Rightarrow> gerror + 'r) \<Rightarrow> gerror + http_response
    \<Rightarrow> api_error + 'r" where
  \<comment> \<open>what \<^verbatim>\<open>do\<close> makes of the answer; \<open>decode\<close> is \<^verbatim>\<open>json.Unmarshal\<close> into \<^verbatim>\<open>out\<close>\<close>
  "api_answer J method path decode r = (case r of
       Inl err \<Rightarrow> Inl (ApiError (wrapf (method @ '' '' @ path @ '': '') err))
     | Inr resp \<Rightarrow>
         let data = take body_limit (hr_body resp) in
         if hr_status resp = 404 then Inl ErrRepoNotFound
         else if hr_status resp \<ge> 300 then Inl (ApiError (errorf (method @ '' '' @ path @ '' answered ''
           @ fmt_d (hr_status resp) @ '': '' @ apiMessage J data)))
         else (case decode data of Inl err \<Rightarrow> Inl (ApiError err) | Inr x \<Rightarrow> Inr x))"

definition api_do :: "env \<Rightarrow> klib \<Rightarrow> json_lib \<Rightarrow> api_client \<Rightarrow> string \<Rightarrow> string \<Rightarrow> json option
    \<Rightarrow> (string \<Rightarrow> gerror + 'r) \<Rightarrow> (api_error + 'r) io" where
  "api_do E L J a method path body decode =
     (case lib_url_parse L (api_base a @ path) of
        Inl err \<Rightarrow> ret (Inl (ApiError err))
      | Inr _ \<Rightarrow> do {
          r \<leftarrow> perform (\<lambda>t. env_http E t (api_request a method path body)) (EvHttp (api_request a method path body));
          ret (api_answer J method path decode r)
        })"

section \<open>Escaping path segments\<close>

definition upper_hex :: "nat \<Rightarrow> char" where
  "upper_hex n = char_of (if n < 10 then 48 + n else 55 + n)"

definition path_char :: "char \<Rightarrow> bool" where
  \<comment> \<open>what \<^verbatim>\<open>url.PathEscape\<close> leaves alone\<close>
  "path_char c \<longleftrightarrow> is_alnum c \<or> c \<in> set ''-_.~$&+=:@''"

definition path_escape :: "string \<Rightarrow> string" where
  "path_escape s = concat (map (\<lambda>c. if path_char c then [c]
     else [CHR ''%'', upper_hex (byte c div 16), upper_hex (byte c mod 16)]) s)"

section \<open>github.go\<close>

definition github_create_body :: "repo_spec \<Rightarrow> json" where
  \<comment> \<open>a Go map: \<^verbatim>\<open>json.Marshal\<close> sorts its keys\<close>
  "github_create_body spec = JObj [(''description'', JStr (rp_description spec)), (''name'', JStr (rp_name spec)),
     (''private'', JBool (rp_private spec))]"

definition github_repo_path :: "string \<Rightarrow> string \<Rightarrow> string" where
  "github_repo_path owner name = ''/repos/'' @ path_escape owner @ ''/'' @ path_escape name"

definition github_create_path :: "string \<Rightarrow> string \<Rightarrow> string" where
  "github_create_path owner login = (if owner \<noteq> login then ''/orgs/'' @ path_escape owner @ ''/repos'' else ''/user/repos'')"

definition github_ensure :: "env \<Rightarrow> klib \<Rightarrow> json_lib \<Rightarrow> api_client \<Rightarrow> repo_spec \<Rightarrow> (gerror + string) io" where
  "github_ensure E L J a spec = do {
     user \<leftarrow> api_do E L J a ''GET'' ''/user'' None (unmarshal_string J ''login'');
     (case user of
        Inl err \<Rightarrow> ret (Inl (api_gerror err))
      | Inr login \<Rightarrow>
          let owner = firstNonEmpty [rp_owner spec, login] in do {
            found \<leftarrow> api_do E L J a ''GET'' (github_repo_path owner (rp_name spec)) None (unmarshal_string J ''clone_url'');
            (case found of
               Inr url \<Rightarrow> ret (Inr url)
             | Inl (ApiError err) \<Rightarrow> ret (Inl err)
             | Inl ErrRepoNotFound \<Rightarrow> do {
                 created \<leftarrow> api_do E L J a ''POST'' (github_create_path owner login) (Some (github_create_body spec))
                   (unmarshal_string J ''clone_url'');
                 ret (case created of Inl err \<Rightarrow> Inl (api_gerror err) | Inr url \<Rightarrow> Inr url)
               })
          })
   }"

section \<open>gitlab.go\<close>

definition gitlab_create_body :: "repo_spec \<Rightarrow> int option \<Rightarrow> json" where
  "gitlab_create_body spec ns = JObj ([(''description'', JStr (rp_description spec)), (''name'', JStr (rp_name spec))]
     @ (case ns of None \<Rightarrow> [] | Some i \<Rightarrow> [(''namespace_id'', JInt i)])
     @ [(''path'', JStr (rp_name spec)), (''visibility'', JStr (if rp_private spec then ''private'' else ''public''))])"

definition gitlab_project_path :: "string \<Rightarrow> string \<Rightarrow> string" where
  "gitlab_project_path owner name = ''/projects/'' @ path_escape (owner @ ''/'' @ name)"

definition gitlab_create :: "env \<Rightarrow> klib \<Rightarrow> json_lib \<Rightarrow> api_client \<Rightarrow> repo_spec \<Rightarrow> int option \<Rightarrow> (gerror + string) io" where
  \<comment> \<open>the request that creates the project\<close>
  "gitlab_create E L J a spec ns = do {
     created \<leftarrow> api_do E L J a ''POST'' ''/projects'' (Some (gitlab_create_body spec ns)) (unmarshal_string J ''http_url_to_repo'');
     ret (case created of Inl err \<Rightarrow> Inl (api_gerror err) | Inr url \<Rightarrow> Inr url)
   }"

definition gitlab_find :: "env \<Rightarrow> klib \<Rightarrow> json_lib \<Rightarrow> api_client \<Rightarrow> repo_spec \<Rightarrow> string \<Rightarrow> (gerror + string) io" where
  \<comment> \<open>\<^verbatim>\<open>EnsureRepo\<close> once the owner is known\<close>
  "gitlab_find E L J a spec owner = do {
     found \<leftarrow> api_do E L J a ''GET'' (gitlab_project_path owner (rp_name spec)) None (unmarshal_string J ''http_url_to_repo'');
     (case found of
        Inr url \<Rightarrow> ret (Inr url)
      | Inl (ApiError err) \<Rightarrow> ret (Inl err)
      | Inl ErrRepoNotFound \<Rightarrow>
          if rp_owner spec \<noteq> '''' then do {
            ns \<leftarrow> api_do E L J a ''GET'' (''/namespaces/'' @ path_escape (rp_owner spec)) None (unmarshal_int J ''id'');
            (case ns of Inl err \<Rightarrow> ret (Inl (api_gerror err)) | Inr i \<Rightarrow> gitlab_create E L J a spec (Some i))
          } else gitlab_create E L J a spec None)
   }"

definition gitlab_ensure :: "env \<Rightarrow> klib \<Rightarrow> json_lib \<Rightarrow> api_client \<Rightarrow> repo_spec \<Rightarrow> (gerror + string) io" where
  "gitlab_ensure E L J api spec =
     (let a = api\<lparr>api_header := ''PRIVATE-TOKEN''\<rparr> in
      if rp_owner spec = '''' then do {
        user \<leftarrow> api_do E L J a ''GET'' ''/user'' None (unmarshal_string J ''username'');
        (case user of Inl err \<Rightarrow> ret (Inl (api_gerror err)) | Inr name \<Rightarrow> gitlab_find E L J a spec name)
      } else gitlab_find E L J a spec (rp_owner spec))"

section \<open>The interface\<close>

fun EnsureRepo :: "env \<Rightarrow> klib \<Rightarrow> json_lib \<Rightarrow> provider \<Rightarrow> repo_spec \<Rightarrow> (gerror + string) io" where
  "EnsureRepo E L J (GitHub a) spec = github_ensure E L J a spec"
| "EnsureRepo E L J (GitLab a) spec = gitlab_ensure E L J a spec"

section \<open>Every run asks before it creates\<close>

fun provider_client :: "provider \<Rightarrow> api_client" where
  "provider_client (GitHub a) = a"
| "provider_client (GitLab a) = a"

fun repo_path :: "provider \<Rightarrow> string \<Rightarrow> string \<Rightarrow> string" where
  "repo_path (GitHub a) owner name = github_repo_path owner name"
| "repo_path (GitLab a) owner name = gitlab_project_path owner name"

definition looks_up :: "provider \<Rightarrow> repo_spec \<Rightarrow> http_request \<Rightarrow> bool" where
  \<comment> \<open>the request for the repository itself, under the owner of the spec or, without one, the account's\<close>
  "looks_up p spec q \<longleftrightarrow> hq_method q = ''GET'' \<and> (\<exists>owner. (rp_owner spec \<noteq> '''' \<longrightarrow> owner = rp_owner spec)
     \<and> hq_url q = api_base (provider_client p) @ repo_path p owner (rp_name spec))"

definition missing :: "gerror + http_response \<Rightarrow> bool" where
  "missing r = (case r of Inl _ \<Rightarrow> False | Inr resp \<Rightarrow> hr_status resp = 404)"

lemma missing_iff: "missing r \<longleftrightarrow> (\<exists>resp. r = Inr resp \<and> hr_status resp = 404)"
  by (auto simp: missing_def split: sum.splits)

fun asks_first :: "provider \<Rightarrow> repo_spec \<Rightarrow> bool \<Rightarrow> trace \<Rightarrow> bool" where
  \<comment> \<open>the flag: the host has said that the repository does not exist\<close>
  "asks_first p spec seen [] = True"
| "asks_first p spec seen (EvHttp q r # es) =
     (has_prefix (hq_url q) (api_base (provider_client p)) \<and> (hq_method q = ''POST'' \<longrightarrow> seen \<and> es = [])
      \<and> asks_first p spec (seen \<or> (looks_up p spec q \<and> missing r)) es)"
| "asks_first p spec seen (e # es) = False"

lemma wp_api_do:
  assumes "\<And>err. Q (Inl (ApiError err)) t"
    and "\<And>r. Q (api_answer J method path decode r) (t @ [EvHttp (api_request a method path body) r])"
  shows "wp (api_do E L J a method path body decode) Q t"
  unfolding api_do_def using assms by (auto simp: wp_perform intro!: wp_intros)

lemma api_answer_missing [simp]: "api_answer J method path decode r = Inl ErrRepoNotFound \<longleftrightarrow> missing r"
  by (auto simp: api_answer_def missing_def Let_def split: sum.splits)

lemma api_request_simps [simp]:
  "hq_method (api_request a method path body) = method" "hq_url (api_request a method path body) = api_base a @ path"
  "hq_body (api_request a method path body) = body"
  by (simp_all add: api_request_def)

lemma wpI_api_error:
  "(e = ErrRepoNotFound \<Longrightarrow> wp h Q t) \<Longrightarrow> (\<And>g. e = ApiError g \<Longrightarrow> wp (f g) Q t) \<Longrightarrow>
   wp (case e of ErrRepoNotFound \<Rightarrow> h | ApiError g \<Rightarrow> f g) Q t"
  by (simp split: api_error.split)

lemma wp_github_ensure:
  assumes Q: "\<And>r es. asks_first (GitHub a) spec False es \<Longrightarrow> Q r (t @ es)"
  shows "wp (github_ensure E L J a spec) Q t"
proof -
  have none: "Q r t" for r using Q [of "[]" r] by simp
  have look: "looks_up (GitHub a) spec (api_request a ''GET'' (github_repo_path (firstNonEmpty [rp_owner spec, login]) (rp_name spec)) None)"
    for login by (auto simp: looks_up_def)
  show ?thesis
    unfolding github_ensure_def Let_def
    by (intro wp_intros wp_api_do wpI_api_error; (simp only: append_assoc)?; (rule none | rule Q)?; simp add: look del: firstNonEmpty.simps)
qed

lemma wp_gitlab_create:
  assumes "\<And>r es. es = [] \<or> (\<exists>x. es = [EvHttp (api_request a ''POST'' ''/projects'' (Some (gitlab_create_body spec ns))) x]) \<Longrightarrow>
    Q r (t @ es)"
  shows "wp (gitlab_create E L J a spec ns) Q t"
proof -
  have none: "Q r t" for r using assms [of "[]" r] by simp
  show ?thesis unfolding gitlab_create_def by (intro wp_intros wp_api_do; (rule none | rule assms); simp)
qed

lemma wp_gitlab_find:
  assumes Q: "\<And>r es. asks_first (GitLab a) spec False es \<Longrightarrow> Q r (t @ es)"
    and owner: "rp_owner spec \<noteq> '''' \<Longrightarrow> owner = rp_owner spec" and a: "api_base a' = api_base a"
  shows "wp (gitlab_find E L J a' spec owner) Q t"
proof -
  have none: "Q r t" for r using Q [of "[]" r] by simp
  have look: "looks_up (GitLab a) spec (api_request a' ''GET'' (gitlab_project_path owner (rp_name spec)) None)"
    using owner by (auto simp: looks_up_def a)
  show ?thesis
    unfolding gitlab_find_def
    by (intro wp_intros wp_api_do wpI_api_error wp_gitlab_create; (elim disjE exE)?; (simp only: append_assoc append_Nil2)?;
        (rule none | rule Q)?; simp add: look a)
qed

lemma asks_first_get:
  assumes "\<And>es. asks_first p spec False es \<Longrightarrow> Q (t @ es)" "hq_method q \<noteq> ''POST''"
    "has_prefix (hq_url q) (api_base (provider_client p))" "\<not> looks_up p spec q" "asks_first p spec False es"
  shows "Q ((t @ [EvHttp q r]) @ es)"
  using assms(1) [of "EvHttp q r # es"] assms(2-) by simp

lemma wp_gitlab_ensure:
  assumes Q: "\<And>r es. asks_first (GitLab a) spec False es \<Longrightarrow> Q r (t @ es)"
  shows "wp (gitlab_ensure E L J a spec) Q t"
proof -
  have none: "Q r t" for r using Q [of "[]" r] by simp
  let ?a = "a\<lparr>api_header := ''PRIVATE-TOKEN''\<rparr>"
  let ?user = "api_request ?a ''GET'' ''/user'' None"
  have user: "Q x ((t @ [EvHttp ?user r]) @ es)" if "asks_first (GitLab a) spec False es" for x r es
  proof -
    have "\<not> looks_up (GitLab a) spec ?user"
      by (simp add: looks_up_def gitlab_project_path_def)
    with Q [of "EvHttp ?user r # es" x] that show ?thesis by simp
  qed
  show ?thesis
    unfolding gitlab_ensure_def Let_def
    by (intro wp_intros wp_api_do wp_gitlab_find; (rule none | rule user | rule Q | simp); (simp add: none)?)
qed

lemma wp_EnsureRepo:
  assumes Q: "\<And>r es. asks_first p spec False es \<Longrightarrow> Q r (t @ es)"
  shows "wp (EnsureRepo E L J p spec) Q t"
  by (cases p) (use Q wp_github_ensure wp_gitlab_ensure in \<open>auto\<close>)

lemma asks_first_post:
  assumes "asks_first p spec seen (pre @ [EvHttp q r] @ suf)" "hq_method q = ''POST''"
  shows "suf = [] \<and> (seen \<or> (\<exists>q0 r0. EvHttp q0 r0 \<in> set pre \<and> looks_up p spec q0 \<and> missing r0))"
  using assms
proof (induction pre arbitrary: seen)
  case (Cons e pre)
  then obtain q1 r1 where e: "e = EvHttp q1 r1" by (cases e) simp_all
  with Cons.IH [of "seen \<or> (looks_up p spec q1 \<and> missing r1)"] Cons.prems show ?case by auto
qed simp

lemma asks_first_requests:
  "asks_first p spec seen es \<Longrightarrow> e \<in> set es \<Longrightarrow> \<exists>q r. e = EvHttp q r \<and> has_prefix (hq_url q) (api_base (provider_client p))"
  by (induction p spec seen es rule: asks_first.induct) auto

text \<open>An escaped segment is one segment, and it can be read back.\<close>

fun path_unescape :: "string \<Rightarrow> string" where
  "path_unescape (c # a # b # s) = (if c = CHR ''%'' then (case (hex_value a, hex_value b) of
       (Some x, Some y) \<Rightarrow> char_of (x * 16 + y) # path_unescape s | _ \<Rightarrow> c # path_unescape (a # b # s))
     else c # path_unescape (a # b # s))"
| "path_unescape s = s"

lemma path_unescape_plain: "c \<noteq> CHR ''%'' \<Longrightarrow> path_unescape (c # s) = c # path_unescape s"
  by (cases s; cases "tl s") auto

lemma path_escape_Cons:
  "path_escape (c # s) = (if path_char c then [c] else [CHR ''%'', upper_hex (byte c div 16), upper_hex (byte c mod 16)])
     @ path_escape s"
  by (simp add: path_escape_def)

lemma path_escape_slash: "CHR 0x2F \<notin> set (path_escape s)"
proof (induction s)
  case (Cons c s)
  have hex: "CHR 0x2F \<noteq> upper_hex k" if "k < 16" for k
  proof -
    have "\<forall>k\<in>set [0..<16]. CHR 0x2F \<noteq> upper_hex k" by code_simp
    then show ?thesis using that by simp
  qed
  have "\<not> path_char CHR 0x2F" by code_simp
  then have "path_char c \<Longrightarrow> c \<noteq> CHR 0x2F" by blast
  moreover have "byte c div 16 < 16" "byte c mod 16 < 16" by (simp_all add: byte_def less_mult_imp_div_less)
  ultimately show ?case using Cons hex by (auto simp: path_escape_Cons)
qed (simp add: path_escape_def)

lemma path_escape_unescape: "path_unescape (path_escape s) = s"
proof (induction s)
  case (Cons c s)
  have hex: "hex_value (upper_hex k) = Some k" if "k < 16" for k
  proof -
    have "\<forall>k\<in>set [0..<16]. hex_value (upper_hex k) = Some k" by code_simp
    then show ?thesis using that by simp
  qed
  have "\<not> path_char CHR ''%''" by code_simp
  then have "path_char c \<Longrightarrow> c \<noteq> CHR ''%''" by blast
  moreover have "byte c div 16 * 16 + byte c mod 16 = byte c" by simp
  moreover have "byte c div 16 < 16" "byte c mod 16 < 16" by (simp_all add: byte_def less_mult_imp_div_less)
  ultimately show ?case
    using Cons by (auto simp: path_escape_Cons path_unescape_plain hex)
qed (simp add: path_escape_def)

section \<open>Properties\<close>


definition demo_hub :: env where
  \<comment> \<open>a GitHub without the repository, on which creating it succeeds\<close>
  "demo_hub = env_ref\<lparr>env_http := (\<lambda>t q. Inr
     (if hq_method q = ''POST'' then \<lparr>hr_status = 201,
        hr_body = json_bytes (JObj [(''clone_url'', JStr ''https://github.com/me/app.git'')])\<rparr>
      else if hq_url q = ''https://api.github.com/user'' then \<lparr>hr_status = 200,
        hr_body = json_bytes (JObj [(''login'', JStr ''me'')])\<rparr>
      else \<lparr>hr_status = 404, hr_body = []\<rparr>))\<rparr>"

definition demo_json :: json_lib where
  "demo_json = \<lparr>jl_error = id, jl_float = Some\<rparr>"

definition demo_client :: api_client where
  "demo_client = \<lparr>api_base = ''https://api.github.com'', api_token = ''t'', api_header = []\<rparr>"

definition demo_repo :: repo_spec where
  "demo_repo = \<lparr>rp_owner = [], rp_name = ''app'', rp_private = True, rp_description = []\<rparr>"

lemma unmarshal_member:
  assumes "utf8_valid k" "utf8_valid x"
  shows "unmarshal_string J k (json_bytes (JObj [(k, JStr x)])) = Inr x"
proof -
  have "parse_json (json_bytes (JObj [(k, JStr x)])) = Some (tree_of (JObj [(k, JStr x)]))"
    by (rule parse_json_bytes) (use assms in \<open>simp_all add: max_nesting_def\<close>)
  then show ?thesis unfolding unmarshal_string_def by (simp add: field_values_def del: json_bytes.simps)
qed

lemma demo_create:
  "\<exists>r1 r3. run_state (EnsureRepo demo_hub klib_ref demo_json (GitHub demo_client) demo_repo) [] =
     (Inr ''https://github.com/me/app.git'', [] @
      [EvHttp (api_request demo_client ''GET'' ''/user'' None) r1,
       EvHttp (api_request demo_client ''GET'' ''/repos/me/app'' None) (Inr \<lparr>hr_status = 404, hr_body = []\<rparr>)] @
      [EvHttp (api_request demo_client ''POST'' ''/user/repos'' (Some (github_create_body demo_repo))) r3] @ [])"
proof -
  have url: "\<exists>u. lib_url_parse klib_ref (api_base demo_client @ p) = Inr u" if "p \<in> set [''/user'', ''/repos/me/app'', ''/user/repos'']" for p
  proof -
    have "list_all (\<lambda>p. \<not> isl (lib_url_parse klib_ref (api_base demo_client @ p))) [''/user'', ''/repos/me/app'', ''/user/repos'']"
      by code_simp
    with that show ?thesis by (auto simp: list_all_iff isl_def) (metis sum.exhaust)+
  qed
  have run_do: "run_state (api_do demo_hub klib_ref demo_json demo_client m p body decode) t =
      (api_answer demo_json m p decode (env_http demo_hub t (api_request demo_client m p body)),
       t @ [EvHttp (api_request demo_client m p body) (env_http demo_hub t (api_request demo_client m p body))])"
    if "p \<in> set [''/user'', ''/repos/me/app'', ''/user/repos'']" for m p body t and decode :: "string \<Rightarrow> gerror + string"
    using url [OF that] by (auto simp: api_do_def perform_def)
  have http: "env_http demo_hub t (api_request demo_client m p b) = Inr
     (if m = ''POST'' then \<lparr>hr_status = 201,
        hr_body = json_bytes (JObj [(''clone_url'', JStr ''https://github.com/me/app.git'')])\<rparr>
      else if p = ''/user'' then \<lparr>hr_status = 200,
        hr_body = json_bytes (JObj [(''login'', JStr ''me'')])\<rparr>
      else \<lparr>hr_status = 404, hr_body = []\<rparr>)" for t m p b
    by (simp add: demo_hub_def demo_client_def del: json_bytes.simps)
  have api_answer_404: "api_answer demo_json m p (unmarshal_string demo_json k) (Inr \<lparr>hr_status = 404, hr_body = []\<rparr>)
      = Inl ErrRepoNotFound" for m p k by (simp add: api_answer_def)
  have paths: "github_repo_path ''me'' ''app'' = ''/repos/me/app''" by code_simp
  have member: "api_answer demo_json m p (unmarshal_string demo_json k) (Inr \<lparr>hr_status = st, hr_body = json_bytes (JObj [(k, JStr x)])\<rparr>)
      = Inr x" if "utf8_valid k" "utf8_valid x" "st < 300" "length (json_bytes (JObj [(k, JStr x)])) \<le> body_limit" for m p k x st
    using that unmarshal_member [OF that(1,2)] by (simp add: api_answer_def Let_def del: json_bytes.simps)
  have short: "utf8_valid ''login''" "utf8_valid ''me''" "utf8_valid ''clone_url''" "utf8_valid ''https://github.com/me/app.git''"
      "length (json_bytes (JObj [(''login'', JStr ''me'')])) < 100"
      "length (json_bytes (JObj [(''clone_url'', JStr ''https://github.com/me/app.git'')])) < 100" by code_simp+
  have login: "api_answer demo_json m p (unmarshal_string demo_json ''login'') (Inr \<lparr>hr_status = 200,
      hr_body = json_bytes (JObj [(''login'', JStr ''me'')])\<rparr>) = Inr ''me''" for m p
    by (rule member) (use short in \<open>simp_all add: body_limit_def del: utf8_valid.simps json_bytes.simps\<close>)
  have clone: "api_answer demo_json m p (unmarshal_string demo_json ''clone_url'') (Inr \<lparr>hr_status = 201,
      hr_body = json_bytes (JObj [(''clone_url'', JStr ''https://github.com/me/app.git'')])\<rparr>) = Inr ''https://github.com/me/app.git''" for m p
    by (rule member) (use short in \<open>simp_all add: body_limit_def del: utf8_valid.simps json_bytes.simps\<close>)
  show ?thesis
    using login clone
    by (auto simp: github_ensure_def run_do http paths demo_repo_def api_answer_404 github_create_path_def
        simp del: json_bytes.simps)
qed


text \<open>Owner and repository name reach the host as they are, each as one path segment (for GitLab, both as one): what
  \<^verbatim>\<open>url.PathEscape\<close> writes holds no slash, so a name cannot address another resource of the API, and unescaping it
  gives the name back.\<close>

lemma path_escape_roundtrip:
  "path_unescape (path_escape s) = s \<and> CHR 0x2F \<notin> set (path_escape s)"
  using path_escape_unescape path_escape_slash by blast

end
