(* ===== verification/SelfServiceCtrl.thy ===== *)
theory SelfServiceCtrl
  imports CDCtrl CIBuild GitProvider
begin

text \<open>
  \<^verbatim>\<open>internal/controller/selfservice_controller.go\<close> and \<^verbatim>\<open>selfservice_resources.go\<close>: the
  SelfService reconciler. It makes the repository exist, runs the agent (a Secret with its API
  token, a Deployment, a Kubernetes Service) and creates the koptan Service that deploys what
  the agent pushes. Where the code changes \<^verbatim>\<open>ss.Status\<close> in place, the definitions return the
  changed SelfService. A spec that sets neither \<^verbatim>\<open>existing\<close> nor \<^verbatim>\<open>create\<close> makes
  \<^verbatim>\<open>gitSecretRef\<close> dereference nil: its result is the panic \<open>nil_dereference\<close>, which ends the
  run without writing the status.
\<close>

section \<open>selfservice\_resources.go\<close>

record selfservice_reconciler =
  ssr_agent_image :: string
  ssr_agent_key :: string
  ssr_policy :: secret_policy

definition labelSelfService :: string where "labelSelfService = ''koptan.felukka.org/selfservice''"
definition agentPort :: int where "agentPort = 8080"
definition agentTokenKey :: string where "agentTokenKey = ''token''"
definition agentWorkspace :: string where "agentWorkspace = ''/workspace''"

definition AgentToken :: "klib \<Rightarrow> string \<Rightarrow> string \<Rightarrow> string \<Rightarrow> string" where
  "AgentToken L key namespace name = fmt_x (hmac_sha256 L key (namespace @ ''/'' @ name))"

definition agentName :: "selfservice \<Rightarrow> string" where
  "agentName ss = m_name (self_meta ss) @ ''-agent''"

definition gitSecretRef :: "selfservice \<Rightarrow> gerror + secret_key_ref" where
  "gitSecretRef ss = (case sr_create (sss_repo (self_spec_of ss)) of
       Some c \<Rightarrow> Inr (cr_token_secret_ref c)
     | None \<Rightarrow> (case sr_existing (sss_repo (self_spec_of ss)) of
         Some e \<Rightarrow> Inr (er_secret_ref e) | None \<Rightarrow> Inl nil_dereference))"

definition validateHTTPSRepo :: "klib \<Rightarrow> string \<Rightarrow> gerror option" where
  "validateHTTPSRepo L url = (case validate_git_url L url of
       Some err \<Rightarrow> Some err
     | None \<Rightarrow> if \<not> has_prefix url ''https://''
         then Some (errorf (''repository URL '' @ fmt_q url @ '' must use https'')) else None)"

definition checked_url :: "klib \<Rightarrow> string \<Rightarrow> gerror + string" where
  \<comment> \<open>\<^verbatim>\<open>return url, validateHTTPSRepo(url)\<close>\<close>
  "checked_url L url = (case validateHTTPSRepo L url of Some err \<Rightarrow> Inl err | None \<Rightarrow> Inr url)"

definition secretValue :: "env \<Rightarrow> selfservice_reconciler \<Rightarrow> string \<Rightarrow> secret_key_ref \<Rightarrow> (gerror + string) io" where
  "secretValue E R ns ref = do {
     r \<leftarrow> get_secret (ssr_policy R) (k_get E secrets) ns (sk_name ref);
     ret (case r of
         Inl err \<Rightarrow> Inl err
       | Inr s \<Rightarrow> (case sec_data s (sk_key ref) of
           None \<Rightarrow> Inl (errorf (''secret '' @ fmt_q (sk_name ref) @ '' has no key '' @ fmt_q (sk_key ref)))
         | Some v \<Rightarrow> if v = '''' then Inl (errorf (''secret '' @ fmt_q (sk_name ref) @ '' has no key '' @ fmt_q (sk_key ref)))
                     else Inr v))
   }"

definition repoSpec :: "selfservice \<Rightarrow> create_repo \<Rightarrow> repo_spec" where
  "repoSpec ss c = \<lparr>rp_owner = cr_owner c, rp_name = CIBuild.firstNonEmpty [cr_name c, m_name (self_meta ss)],
     rp_private = (case cr_private c of None \<Rightarrow> True | Some b \<Rightarrow> b),
     rp_description = ''Created by Koptan for SelfService '' @ m_namespace (self_meta ss) @ ''/'' @ m_name (self_meta ss)\<rparr>"

definition createRepo :: "env \<Rightarrow> klib \<Rightarrow> json_lib \<Rightarrow> selfservice_reconciler \<Rightarrow> selfservice \<Rightarrow> create_repo \<Rightarrow> (gerror + string) io" where
  \<comment> \<open>\<^verbatim>\<open>ensureRepo\<close> when the host has to be asked\<close>
  "createRepo E L J R ss c = do {
     tok \<leftarrow> secretValue E R (m_namespace (self_meta ss)) (cr_token_secret_ref c);
     (case tok of
        Inl err \<Rightarrow> ret (Inl err)
      | Inr token \<Rightarrow> (case new_provider (cr_provider c) (cr_base_url c) token of
          Inl err \<Rightarrow> ret (Inl err)
        | Inr p \<Rightarrow> do {
            r \<leftarrow> EnsureRepo E L J p (repoSpec ss c);
            ret (case r of
                Inl err \<Rightarrow> Inl (wrapf (''create repository on '' @ cr_provider c @ '': '') err)
              | Inr url \<Rightarrow> checked_url L url)
          }))
   }"

definition ensureRepo :: "env \<Rightarrow> klib \<Rightarrow> json_lib \<Rightarrow> selfservice_reconciler \<Rightarrow> selfservice \<Rightarrow> (gerror + string) io" where
  "ensureRepo E L J R ss = (case sr_existing (sss_repo (self_spec_of ss)) of
       Some e \<Rightarrow> ret (checked_url L (er_url e))
     | None \<Rightarrow> (case sr_create (sss_repo (self_spec_of ss)) of
         None \<Rightarrow> ret (Inl (errorf ''spec.repo needs existing or create''))
       | Some c \<Rightarrow>
           if ssst_repo_url (self_status_of ss) \<noteq> ''''
              \<and> ssst_observed_generation (self_status_of ss) = m_generation (self_meta ss)
           then ret (Inr (ssst_repo_url (self_status_of ss)))
           else createRepo E L J R ss c))"

fun check_refs :: "env \<Rightarrow> selfservice_reconciler \<Rightarrow> string \<Rightarrow> secret_key_ref list \<Rightarrow> gerror option io" where
  \<comment> \<open>the loop of \<^verbatim>\<open>checkSecrets\<close>\<close>
  "check_refs E R ns [] = ret None"
| "check_refs E R ns (ref # refs) = do {
     r \<leftarrow> get_secret (ssr_policy R) (k_get E secrets) ns (sk_name ref);
     (case r of Inl err \<Rightarrow> ret (Some err) | Inr _ \<Rightarrow> check_refs E R ns refs)
   }"

definition checkSecrets :: "env \<Rightarrow> selfservice_reconciler \<Rightarrow> selfservice \<Rightarrow> gerror option io" where
  "checkSecrets E R ss = (case gitSecretRef ss of
       Inl err \<Rightarrow> ret (Some err)
     | Inr ref \<Rightarrow> check_refs E R (m_namespace (self_meta ss)) (ref #
         (case ai_api_key_secret_ref (sss_ai (self_spec_of ss)) of None \<Rightarrow> [] | Some k \<Rightarrow> [k])))"

definition self_owner :: "selfservice \<Rightarrow> owner_ref" where
  "self_owner ss = \<lparr>or_kind = ''SelfService'', or_name = m_name (self_meta ss), or_uid = m_uid (self_meta ss)\<rparr>"

definition secret_object :: "klib \<Rightarrow> selfservice_reconciler \<Rightarrow> selfservice \<Rightarrow> secret \<Rightarrow> gerror + secret" where
  \<comment> \<open>the mutate function of \<^verbatim>\<open>ensureAgentSecret\<close>\<close>
  "secret_object L R ss s =
     (let s = s\<lparr>sec_meta := (sec_meta s)\<lparr>m_labels := [labelSelfService \<mapsto> m_name (self_meta ss)]\<rparr>,
            sec_data := [agentTokenKey \<mapsto> AgentToken L (ssr_agent_key R) (m_namespace (self_meta ss)) (m_name (self_meta ss))]\<rparr>
      in (case lib_set_controller L (self_owner ss) (sec_meta s) of
            Inl err \<Rightarrow> Inl err | Inr m \<Rightarrow> Inr (s\<lparr>sec_meta := m\<rparr>)))"

definition ensureAgentSecret :: "env \<Rightarrow> klib \<Rightarrow> selfservice_reconciler \<Rightarrow> selfservice \<Rightarrow> gerror option io" where
  "ensureAgentSecret E L R ss = do {
     r \<leftarrow> create_or_update E secrets \<lparr>sec_meta = fresh_meta (agentName ss) (m_namespace (self_meta ss)), sec_type = '''',
         sec_data = Map.empty\<rparr> (secret_object L R ss);
     ret (err_of r)
   }"

definition templatePort :: "selfservice \<Rightarrow> int" where
  "templatePort ss = (if st_port (sss_service (self_spec_of ss)) \<noteq> 0 then st_port (sss_service (self_spec_of ss)) else defaultPort)"

definition agentEnv :: "selfservice \<Rightarrow> string \<Rightarrow> gerror + env_var list" where
  "agentEnv ss repoURL =
     (let spec = self_spec_of ss; ai = sss_ai spec in
      (case gitSecretRef ss of
         Inl err \<Rightarrow> Inl err
       | Inr ref \<Rightarrow> Inr (
           [env_value ''KOPTAN_AGENT_REPO'' repoURL,
            env_value ''KOPTAN_AGENT_BRANCH'' (CIBuild.firstNonEmpty [sss_branch spec, ''main'']),
            env_value ''KOPTAN_AGENT_PORT'' (fmt_d agentPort),
            env_value ''KOPTAN_AGENT_WORKSPACE'' (agentWorkspace @ ''/repo''),
            env_value ''KOPTAN_AGENT_SERVICE'' (m_name (self_meta ss)),
            env_value ''KOPTAN_AGENT_APP_PORT'' (fmt_d (templatePort ss)),
            env_value ''KOPTAN_AGENT_ALLOW_COMMANDS'' (if sss_allow_commands spec then ''true'' else ''false''),
            env_value ''KOPTAN_AI_PROVIDER'' (ai_provider ai),
            env_value ''KOPTAN_AI_MODEL'' (ai_model ai),
            env_value ''KOPTAN_AI_BASE_URL'' (ai_base_url ai),
            env_from_secret ''KOPTAN_AGENT_TOKEN'' \<lparr>sk_name = agentName ss, sk_key = agentTokenKey, sk_optional = None\<rparr>,
            env_from_secret ''KOPTAN_GIT_TOKEN'' ref]
           @ (case ai_api_key_secret_ref ai of None \<Rightarrow> [] | Some k \<Rightarrow> [env_from_secret ''KOPTAN_AI_API_KEY'' k]))))"

definition agentPodSpec :: "selfservice_reconciler \<Rightarrow> selfservice \<Rightarrow> string \<Rightarrow> gerror + pod_spec" where
  "agentPodSpec R ss repoURL = (case agentEnv ss repoURL of
       Inl err \<Rightarrow> Inl err
     | Inr env \<Rightarrow> Inr (empty_pod_spec\<lparr>
         ps_automount := Some False,
         ps_security := Some \<lparr>psc_non_root = True, psc_user = 1000, psc_group = 1000, psc_fs_group = 1000,
           psc_seccomp = ''RuntimeDefault''\<rparr>,
         ps_containers := [empty_container\<lparr>
           k_name := ''agent'',
           k_image := CIBuild.firstNonEmpty [sss_agent_image (self_spec_of ss), ssr_agent_image R],
           k_args := [''serve''],
           k_ports := [\<lparr>cp_name = ''http'', cp_port = agentPort, cp_protocol = ''''\<rparr>],
           k_env := env,
           k_mounts := [mount ''workspace'' agentWorkspace, mount ''tmp'' ''/tmp''],
           k_probe := Some (HTTPGetProbe ''/healthz'' agentPort),
           k_security := Some \<lparr>sc_allow_escalation = False, sc_read_only_root = True, sc_drop = [''ALL'']\<rparr>,
           k_resources := resource_requirements ''100m'' ''256Mi'' ''1'' ''1Gi''\<rparr>],
         ps_volumes := [empty_dir_volume ''workspace'', empty_dir_volume ''tmp'']\<rparr>))"

definition agent_labels :: "selfservice \<Rightarrow> labels" where
  "agent_labels ss = [labelSelfService \<mapsto> m_name (self_meta ss), ''app.kubernetes.io/name'' \<mapsto> ''koptan-agent'']"

definition agent_object :: "klib \<Rightarrow> selfservice_reconciler \<Rightarrow> selfservice \<Rightarrow> string \<Rightarrow> deployment \<Rightarrow> gerror + deployment" where
  \<comment> \<open>the mutate function of \<^verbatim>\<open>ensureAgent\<close>\<close>
  "agent_object L R ss repoURL d = (case agentPodSpec R ss repoURL of
       Inl err \<Rightarrow> Inl err
     | Inr spec \<Rightarrow>
         let d = d\<lparr>d_meta := (d_meta d)\<lparr>m_labels := agent_labels ss\<rparr>,
               d_replicas := Some (if sss_suspend (self_spec_of ss) then 0 else 1),
               d_selector := Some (agent_labels ss),
               d_strategy := ''Recreate'',
               d_template_labels := agent_labels ss,
               d_template_spec := spec\<rparr>
         in (case lib_set_controller L (self_owner ss) (d_meta d) of
               Inl err \<Rightarrow> Inl err | Inr m \<Rightarrow> Inr (d\<lparr>d_meta := m\<rparr>)))"

definition ensureAgent :: "env \<Rightarrow> klib \<Rightarrow> selfservice_reconciler \<Rightarrow> selfservice \<Rightarrow> string \<Rightarrow> (gerror + deployment) io" where
  "ensureAgent E L R ss repoURL = create_or_update E deployments
     (empty_deployment (agentName ss) (m_namespace (self_meta ss))) (agent_object L R ss repoURL)"

definition agent_service_object :: "klib \<Rightarrow> selfservice \<Rightarrow> kube_service \<Rightarrow> gerror + kube_service" where
  \<comment> \<open>the mutate function of \<^verbatim>\<open>ensureAgentService\<close>\<close>
  "agent_service_object L ss s =
     (let s = s\<lparr>ks_meta := (ks_meta s)\<lparr>m_labels := [labelSelfService \<mapsto> m_name (self_meta ss)]\<rparr>,
            ks_selector := agent_labels ss,
            ks_ports := [\<lparr>sp_name = ''http'', sp_port = agentPort, sp_target = agentPort, sp_protocol = ''''\<rparr>]\<rparr>
      in (case lib_set_controller L (self_owner ss) (ks_meta s) of
            Inl err \<Rightarrow> Inl err | Inr m \<Rightarrow> Inr (s\<lparr>ks_meta := m\<rparr>)))"

definition ensureAgentService :: "env \<Rightarrow> klib \<Rightarrow> selfservice \<Rightarrow> gerror option io" where
  "ensureAgentService E L ss = do {
     r \<leftarrow> create_or_update E kube_services (empty_kube_service (agentName ss) (m_namespace (self_meta ss)))
       (agent_service_object L ss);
     ret (err_of r)
   }"

definition blank_service :: "string \<Rightarrow> string \<Rightarrow> service" where
  "blank_service name ns = \<lparr>sv_meta = fresh_meta name ns,
     sv_spec_of = \<lparr>svs_source = \<lparr>src_repo = '''', src_revision = '''', src_secret_ref = None\<rparr>,
       svs_env = [], svs_image = None, svs_replicas = None, svs_build = None, svs_plugins = [], svs_port = 0\<rparr>,
     sv_status_of = \<lparr>svst_phase = ServicePhaseUnset, svst_service_type = '''', svst_latest_revision = '''',
       svst_last_push_detected = None, svst_ci_ref = '''', svst_cd_ref = '''', svst_dockerfile_config_map = '''',
       svst_dockerfile_source = '''', svst_detected = None, svst_observed_generation = 0, svst_error = '''',
       svst_message = '''', svst_conditions = []\<rparr>\<rparr>"

definition service_of :: "klib \<Rightarrow> selfservice \<Rightarrow> string \<Rightarrow> service \<Rightarrow> gerror + service" where
  \<comment> \<open>the mutate function of \<^verbatim>\<open>ensureService\<close>\<close>
  "service_of L ss repoURL svc =
     (if m_created (sv_meta svc) \<noteq> None \<and> \<not> lib_controlled_by L (self_meta ss) (sv_meta svc)
      then Inl (errorf (''a Service named '' @ m_name (self_meta ss)
        @ '' already exists and does not belong to this SelfService''))
      else (case gitSecretRef ss of
          Inl err \<Rightarrow> Inl err
        | Inr ref \<Rightarrow>
            let t = sss_service (self_spec_of ss);
                svc = svc\<lparr>sv_meta := (sv_meta svc)\<lparr>m_labels := (m_labels (sv_meta svc))(labelSelfService \<mapsto> m_name (self_meta ss))\<rparr>,
                  sv_spec_of := (sv_spec_of svc)\<lparr>
                    svs_source := \<lparr>src_repo = repoURL, src_revision = CIBuild.firstNonEmpty [sss_branch (self_spec_of ss), ''main''],
                      src_secret_ref = Some ref\<rparr>,
                    svs_image := st_image t, svs_replicas := st_replicas t, svs_port := st_port t,
                    svs_env := st_env t, svs_plugins := st_plugins t\<rparr>\<rparr>
            in (case lib_set_controller L (self_owner ss) (sv_meta svc) of
                  Inl err \<Rightarrow> Inl err | Inr m \<Rightarrow> Inr (svc\<lparr>sv_meta := m\<rparr>))))"

definition ensureService :: "env \<Rightarrow> klib \<Rightarrow> selfservice \<Rightarrow> string \<Rightarrow> gerror option io" where
  "ensureService E L ss repoURL = do {
     r \<leftarrow> create_or_update E services (blank_service (m_name (self_meta ss)) (m_namespace (self_meta ss)))
       (service_of L ss repoURL);
     ret (err_of r)
   }"

section \<open>selfservice\_controller.go\<close>

definition selfServiceFinalizer :: string where "selfServiceFinalizer = ''felukka.org/selfservice-cleanup''"

definition setSelfServiceCondition :: "klib \<Rightarrow> time \<Rightarrow> string \<Rightarrow> cond_status \<Rightarrow> string \<Rightarrow> string \<Rightarrow> selfservice \<Rightarrow> selfservice" where
  "setSelfServiceCondition L t ty status reason msg ss = ss\<lparr>self_status_of := (self_status_of ss)\<lparr>
     ssst_conditions := lib_set_condition L t ((new_condition ty status reason msg)\<lparr>c_observed := m_generation (self_meta ss)\<rparr>)
       (ssst_conditions (self_status_of ss))\<rparr>\<rparr>"

definition setSelfServicePhase :: "klib \<Rightarrow> time \<Rightarrow> selfservice_phase \<Rightarrow> string \<Rightarrow> string \<Rightarrow> selfservice \<Rightarrow> selfservice" where
  "setSelfServicePhase L t phase reason msg ss =
     setSelfServiceCondition L t ''Ready'' (if phase = SelfServicePhaseReady then ConditionTrue else ConditionFalse) reason msg
       (ss\<lparr>self_status_of := (self_status_of ss)\<lparr>ssst_phase := phase, ssst_message := msg\<rparr>\<rparr>)"

definition markSelfServiceFailed :: "klib \<Rightarrow> time \<Rightarrow> gerror \<Rightarrow> selfservice \<Rightarrow> selfservice" where
  "markSelfServiceFailed L t err = setSelfServicePhase L t SelfServicePhaseFailed ''Failed'' (err_msg err)"

definition session_state :: "klib \<Rightarrow> time \<Rightarrow> selfservice \<Rightarrow> deployment \<Rightarrow> selfservice \<times> ctrl_result" where
  \<comment> \<open>the final switch of \<^verbatim>\<open>provision\<close>\<close>
  "session_state L t ss d =
     (if sss_suspend (self_spec_of ss) then
        (setSelfServicePhase L t SelfServicePhaseReady ''Suspended'' ''Suspended; the Service keeps running''
           (setSelfServiceCondition L t ''AgentReady'' ConditionFalse ''Suspended'' ''The agent is scaled to zero'' ss), no_requeue)
      else if d_available_replicas d > 0 then
        (setSelfServicePhase L t SelfServicePhaseReady ''Ready'' ''The agent accepts prompts''
           (setSelfServiceCondition L t ''AgentReady'' ConditionTrue ''Available'' ''The agent accepts prompts'' ss), no_requeue)
      else
        (setSelfServicePhase L t SelfServicePhaseProvisioning ''Starting'' ''Waiting for the agent pod''
           (setSelfServiceCondition L t ''AgentReady'' ConditionFalse ''Starting'' ''Waiting for the agent pod'' ss),
         requeue_after (seconds 15)))"

text \<open>\<^verbatim>\<open>provision\<close>, cut after the repository: the SelfService as changed so far comes back with the result.\<close>

definition run_session :: "env \<Rightarrow> klib \<Rightarrow> selfservice_reconciler \<Rightarrow> selfservice \<Rightarrow> string
    \<Rightarrow> (selfservice \<times> (gerror + ctrl_result)) io" where
  "run_session E L R ss repoURL = do {
     err \<leftarrow> ensureAgentSecret E L R ss;
     (case err of
        Some err \<Rightarrow> ret (ss, Inl err)
      | None \<Rightarrow> do {
          r \<leftarrow> ensureAgent E L R ss repoURL;
          (case r of
             Inl err \<Rightarrow> ret (ss, Inl err)
           | Inr d \<Rightarrow> do {
               err \<leftarrow> ensureAgentService E L ss;
               (case err of
                  Some err \<Rightarrow> ret (ss, Inl err)
                | None \<Rightarrow>
                    let ss = ss\<lparr>self_status_of := (self_status_of ss)\<lparr>ssst_agent_service := agentName ss\<rparr>\<rparr> in do {
                      err \<leftarrow> ensureService E L ss repoURL;
                      t \<leftarrow> now E;
                      ret (case err of
                          Some err \<Rightarrow> (ss, Inl err)
                        | None \<Rightarrow>
                            let ss = ss\<lparr>self_status_of := (self_status_of ss)\<lparr>ssst_service_ref := m_name (self_meta ss)\<rparr>\<rparr> in
                            (case session_state L t ss d of (ss, res) \<Rightarrow> (ss, Inr res)))
                    })
             })
        })
   }"

definition provision :: "env \<Rightarrow> klib \<Rightarrow> json_lib \<Rightarrow> selfservice_reconciler \<Rightarrow> selfservice
    \<Rightarrow> (selfservice \<times> (gerror + ctrl_result)) io" where
  "provision E L J R ss =
     (if ssr_agent_key R = '''' then
        ret (ss, Inl (errorf ''the operator has no agent key (KOPTAN_AGENT_KEY); SelfServices are disabled''))
      else do {
        err \<leftarrow> checkSecrets E R ss;
        (case err of
           Some err \<Rightarrow> ret (ss, Inl err)
         | None \<Rightarrow> do {
             r \<leftarrow> ensureRepo E L J R ss;
             t \<leftarrow> now E;
             (case r of
                Inl err \<Rightarrow> ret (setSelfServiceCondition L t ''RepoReady'' ConditionFalse ''RepoUnavailable'' (err_msg err) ss, Inl err)
              | Inr repoURL \<Rightarrow> run_session E L R
                  (setSelfServiceCondition L t ''RepoReady'' ConditionTrue ''Ready'' (''Repository '' @ repoURL)
                    (ss\<lparr>self_status_of := (self_status_of ss)\<lparr>ssst_repo_url := repoURL\<rparr>\<rparr>)) repoURL)
           })
      })"

definition observed :: "selfservice \<Rightarrow> selfservice" where
  \<comment> \<open>\<^verbatim>\<open>ss.Status.ObservedGeneration = ss.Generation\<close>\<close>
  "observed ss = ss\<lparr>self_status_of := (self_status_of ss)\<lparr>ssst_observed_generation := m_generation (self_meta ss)\<rparr>\<rparr>"

definition selfservice_body :: "env \<Rightarrow> klib \<Rightarrow> json_lib \<Rightarrow> selfservice_reconciler \<Rightarrow> selfservice \<Rightarrow> outcome io" where
  \<comment> \<open>\<^verbatim>\<open>Reconcile\<close> after the finalizer; a panic leaves it at once\<close>
  "selfservice_body E L J R orig = do {
     (ss, r) \<leftarrow> provision E L J R orig;
     t \<leftarrow> now E;
     (case r of
        Inl err \<Rightarrow>
          if err_class err = ErrPanic then ret (no_requeue, Some err)
          else do {
            p \<leftarrow> k_patch_status E selfservices False orig (observed (markSelfServiceFailed L t err ss));
            ret (case p of Inl perr \<Rightarrow> (no_requeue, Some perr) | Inr _ \<Rightarrow> (requeue_after failedRetryInterval, None))
          }
      | Inr res \<Rightarrow> do {
          p \<leftarrow> k_patch_status E selfservices False orig (observed ss);
          ret (case p of Inl perr \<Rightarrow> (no_requeue, Some perr) | Inr _ \<Rightarrow> (res, None))
        })
   }"

definition selfservice_reconcile :: "env \<Rightarrow> klib \<Rightarrow> json_lib \<Rightarrow> selfservice_reconciler \<Rightarrow> nsname \<Rightarrow> outcome io" where
  "selfservice_reconcile E L J R key = finalizer_step E L selfservices self_meta
     (\<lambda>f s. s\<lparr>self_meta := f (self_meta s)\<rparr>) selfServiceFinalizer key (selfservice_body E L J R)"

interpretation selfservice_kind: finalized_kind selfservices self_meta "\<lambda>f s. s\<lparr>self_meta := f (self_meta s)\<rparr>"
  by unfold_locales simp

end
