(* ===== verification/SelfServiceProofs.thy ===== *)
theory SelfServiceProofs
  imports SelfServiceCtrl Demo
begin

text \<open>
  What a run of the SelfService reconciler may do (theory \<open>SelfServiceCtrl\<close>): \<open>self_flow\<close> gives
  the shape of every run, and the properties about the Secrets the agent gets, the phase Ready
  and the repository follow from it.
\<close>

section \<open>What the setters keep\<close>

definition same_self :: "selfservice \<Rightarrow> selfservice \<Rightarrow> bool" where
  "same_self ss s \<longleftrightarrow> self_meta s = self_meta ss \<and> self_spec_of s = self_spec_of ss"

lemma same_self_refl [simp]: "same_self ss ss"
  by (simp add: same_self_def)

lemma same_self_setters [simp]:
  "same_self ss (s\<lparr>self_status_of := st\<rparr>) = same_self ss s"
  "same_self ss (setSelfServiceCondition L t ty status reason msg s) = same_self ss s"
  "same_self ss (setSelfServicePhase L t ph reason msg s) = same_self ss s"
  "same_self ss (markSelfServiceFailed L t err s) = same_self ss s"
  "same_self ss (observed s) = same_self ss s"
  by (simp_all add: same_self_def setSelfServiceCondition_def setSelfServicePhase_def markSelfServiceFailed_def observed_def)

lemma self_status_setters [simp]:
  "ssst_phase (self_status_of (setSelfServiceCondition L t ty status reason msg s)) = ssst_phase (self_status_of s)"
  "ssst_phase (self_status_of (setSelfServicePhase L t ph reason msg s)) = ph"
  "ssst_phase (self_status_of (markSelfServiceFailed L t err s)) = SelfServicePhaseFailed"
  "ssst_phase (self_status_of (observed s)) = ssst_phase (self_status_of s)"
  "ssst_repo_url (self_status_of (setSelfServiceCondition L t ty status reason msg s)) = ssst_repo_url (self_status_of s)"
  "ssst_repo_url (self_status_of (setSelfServicePhase L t ph reason msg s)) = ssst_repo_url (self_status_of s)"
  "ssst_repo_url (self_status_of (markSelfServiceFailed L t err s)) = ssst_repo_url (self_status_of s)"
  "ssst_repo_url (self_status_of (observed s)) = ssst_repo_url (self_status_of s)"
  by (simp_all add: setSelfServiceCondition_def setSelfServicePhase_def markSelfServiceFailed_def observed_def)

lemma observed_generation [simp]:
  "ssst_observed_generation (self_status_of (observed s)) = m_generation (self_meta s)"
  by (simp add: observed_def)

lemma same_self_names:
  assumes "same_self ss s"
  shows "agentName s = agentName ss" and "m_name (self_meta s) = m_name (self_meta ss)"
    and "m_namespace (self_meta s) = m_namespace (self_meta ss)" and "m_generation (self_meta s) = m_generation (self_meta ss)"
  using assms by (simp_all add: same_self_def agentName_def)

lemma same_self_objects:
  assumes "same_self ss s"
  shows "secret_object L R s = secret_object L R ss"
    and "agent_object L R s = agent_object L R ss"
    and "agent_service_object L s = agent_service_object L ss"
    and "service_of L s = service_of L ss"
proof -
  have eq: "self_meta s = self_meta ss" "self_spec_of s = self_spec_of ss" using assms by (simp_all add: same_self_def)
  show "secret_object L R s = secret_object L R ss"
    by (rule ext) (simp only: secret_object_def self_owner_def eq)
  show "agent_object L R s = agent_object L R ss"
    by (intro ext) (simp only: agent_object_def agentPodSpec_def agentEnv_def gitSecretRef_def agent_labels_def
        templatePort_def agentName_def self_owner_def eq)
  show "agent_service_object L s = agent_service_object L ss"
    by (rule ext) (simp only: agent_service_object_def self_owner_def agent_labels_def eq)
  show "service_of L s = service_of L ss"
    by (intro ext) (simp only: service_of_def gitSecretRef_def self_owner_def eq)
qed

section \<open>The requests of a run\<close>

text \<open>
  \<open>prepares\<close>: reading Secrets and asking the git host. \<open>session L R ss url\<close>: storing the parts of the
  session.
\<close>

fun prepares :: "event \<Rightarrow> bool" where
  "prepares (EvSecret (VGet k r)) = True"
| "prepares (EvHttp q r) = True"
| "prepares _ = False"

fun session :: "klib \<Rightarrow> selfservice_reconciler \<Rightarrow> selfservice \<Rightarrow> string \<Rightarrow> event \<Rightarrow> bool" where
  "session L R ss url (EvSecret (VFetch s r)) = True"
| "session L R ss url (EvSecret (VStore s r)) = (\<exists>s0. secret_object L R ss s0 = Inr s)"
| "session L R ss url (EvDeployment (VFetch d r)) = True"
| "session L R ss url (EvDeployment (VStore d r)) = (\<exists>d0. agent_object L R ss url d0 = Inr d)"
| "session L R ss url (EvKubeService (VFetch s r)) = True"
| "session L R ss url (EvKubeService (VStore s r)) = (\<exists>s0. agent_service_object L ss s0 = Inr s)"
| "session L R ss url (EvService (VFetch s r)) = True"
| "session L R ss url (EvService (VStore s r)) = (\<exists>s0. service_of L ss url s0 = Inr s)"
| "session L R ss url _ = False"

definition agent_refs :: "selfservice \<Rightarrow> secret_key_ref list" where
  "agent_refs ss = (case gitSecretRef ss of Inl _ \<Rightarrow> [] | Inr ref \<Rightarrow>
     ref # (case ai_api_key_secret_ref (sss_ai (self_spec_of ss)) of None \<Rightarrow> [] | Some k \<Rightarrow> [k]))"

definition refs_checked :: "selfservice_reconciler \<Rightarrow> string \<Rightarrow> secret_key_ref list \<Rightarrow> trace \<Rightarrow> bool" where
  "refs_checked R ns refs es \<longleftrightarrow> (\<forall>ref\<in>set refs. \<exists>s. EvSecret (VGet (ns, sk_name ref) (Inr s)) \<in> set es
     \<and> check_secret (ssr_policy R) s = None)"

lemma refs_checked_append: "refs_checked R ns refs es \<Longrightarrow> refs_checked R ns refs (pre @ es @ suf)"
  unfolding refs_checked_def by auto

lemma allowed_secret:
  assumes "(case r of Inl err \<Rightarrow> Inl (f err) | Inr s \<Rightarrow> (case check_secret p s of None \<Rightarrow> Inr s | Some err \<Rightarrow> Inl err)) = Inr x"
  shows "r = Inr x \<and> check_secret p x = None"
proof (cases r)
  case (Inr s)
  with assms show ?thesis by (cases "check_secret p s") (simp_all del: check_secret_None)
qed (use assms in simp)

lemma wp_check_refs:
  assumes "\<And>(r :: gerror option) es. list_all prepares es \<Longrightarrow> (r = None \<Longrightarrow> refs_checked R ns refs es) \<Longrightarrow> Q r (t @ es)"
  shows "wp (check_refs E R ns refs) Q t"
  using assms
proof (induction refs arbitrary: t Q)
  case Nil
  from Nil [of "[]" None] show ?case by (simp add: wp_ret refs_checked_def)
next
  case (Cons ref refs)
  have step: "wp (check_refs E R ns refs) Q (t @ [EvSecret (VGet (ns, sk_name ref) (Inr s))])"
    if "check_secret (ssr_policy R) s = None" for s
  proof (rule Cons.IH)
    fix r :: "gerror option" and es
    assume es: "list_all prepares es" "r = None \<Longrightarrow> refs_checked R ns refs es"
    have "Q r (t @ EvSecret (VGet (ns, sk_name ref) (Inr s)) # es)"
      by (rule Cons.prems) (use es that in \<open>auto simp: refs_checked_def\<close>)
    then show "Q r ((t @ [EvSecret (VGet (ns, sk_name ref) (Inr s))]) @ es)" by simp
  qed
  have stop: "Q (Some err) (t @ [EvSecret (VGet (ns, sk_name ref) a)])" for err a
    by (rule Cons.prems) simp_all
  show ?case
    unfolding check_refs.simps get_secret_def
  proof (intro wp_intros, simp_all only: kind_simps, goal_cases)
    case (1 r err)
    show ?case by (rule stop)
  next
    case (2 r x)
    from allowed_secret [OF 2] have "r = Inr x" "check_secret (ssr_policy R) x = None" by simp_all
    with step [of x] show ?case by simp
  qed
qed

lemma emits_prepares_secret: "emits (get_secret p (k_get E secrets) ns name) prepares"
  by (rule emits_weaken [OF emits_get_secret]) (auto elim: is_secret_read.elims)

lemma emits_EnsureRepo: "emits (EnsureRepo E L J p spec) prepares"
proof (rule emits_wpI, rule wp_EnsureRepo)
  fix t r es
  assume "asks_first p spec False es"
  then have "list_all prepares es" by (auto simp: list_all_iff dest!: asks_first_requests)
  then show "\<exists>es'. t @ es = t @ es' \<and> list_all prepares es'" by blast
qed

lemma emits_self_secretValue: "emits (secretValue E R ns ref) prepares"
  unfolding secretValue_def by (intro emits_intros emits_prepares_secret)

lemma emits_createRepo: "emits (createRepo E L J R ss c) prepares"
  unfolding createRepo_def by (intro emits_intros emits_self_secretValue emits_EnsureRepo)

text \<open>
  The repository URL a run goes on with: a valid https URL, or the one the status recorded for this generation.
\<close>

definition recorded_url :: "selfservice \<Rightarrow> string \<Rightarrow> bool" where
  "recorded_url ss url \<longleftrightarrow> sr_existing (sss_repo (self_spec_of ss)) = None \<and> sr_create (sss_repo (self_spec_of ss)) \<noteq> None
     \<and> url = ssst_repo_url (self_status_of ss) \<and> url \<noteq> ''''
     \<and> ssst_observed_generation (self_status_of ss) = m_generation (self_meta ss)"

definition repo_ok :: "klib \<Rightarrow> selfservice \<Rightarrow> string \<Rightarrow> bool" where
  "repo_ok L ss url \<longleftrightarrow> validateHTTPSRepo L url = None \<or> recorded_url ss url"

lemma checked_url_Inr: "checked_url L url = Inr u \<Longrightarrow> u = url \<and> validateHTTPSRepo L u = None"
  by (auto simp: checked_url_def split: option.splits)

lemma wp_createRepo:
  assumes Q: "\<And>r es. list_all prepares es \<Longrightarrow> (\<And>u. r = Inr u \<Longrightarrow> validateHTTPSRepo L u = None) \<Longrightarrow> Q r (t @ es)"
  shows "wp (createRepo E L J R ss c) Q t"
proof (rule wp_both [OF emits_createRepo])
  show "wp (createRepo E L J R ss c) (\<lambda>r _. \<forall>u. r = Inr u \<longrightarrow> validateHTTPSRepo L u = None) t" for t
    unfolding createRepo_def
    by (intro wp_intros wp_frame [OF emits_EnsureRepo] wp_frame [OF emits_self_secretValue])
      (auto split: sum.splits dest!: checked_url_Inr)
qed (use Q in blast)

lemma wp_ensureRepo:
  assumes Q: "\<And>r es. list_all prepares es \<Longrightarrow> (\<And>u. r = Inr u \<Longrightarrow> repo_ok L ss u) \<Longrightarrow> Q r (t @ es)"
  shows "wp (ensureRepo E L J R ss) Q t"
proof -
  have still: "Q r t" if "\<And>u. r = Inr u \<Longrightarrow> repo_ok L ss u" for r
    using Q [of "[]" r] that by simp
  show ?thesis
    unfolding ensureRepo_def
    by (intro wp_intros wp_createRepo; (rule still | rule Q); (auto simp: repo_ok_def recorded_url_def dest!: checked_url_Inr)?)
qed

text \<open>What a session that was set up leaves behind.\<close>

definition session_up :: "selfservice \<Rightarrow> trace \<Rightarrow> selfservice \<Rightarrow> bool" where
  "session_up ss es s' \<longleftrightarrow> (\<exists>w d v v'. EvDeployment (VStore w (Inr d)) \<in> set es \<and> EvService (VStore v (Inr v')) \<in> set es
     \<and> (ssst_phase (self_status_of s') = SelfServicePhaseReady \<longrightarrow> sss_suspend (self_spec_of ss) \<or> d_available_replicas d > 0))"

lemma session_state_cases:
  assumes "session_state L t s d = (s', res)"
  shows "same_self s s'" "ssst_repo_url (self_status_of s') = ssst_repo_url (self_status_of s)"
    "ssst_phase (self_status_of s') = SelfServicePhaseReady \<longleftrightarrow> sss_suspend (self_spec_of s) \<or> d_available_replicas d > 0"
  using assms by (auto simp: session_state_def split: if_splits)

lemma wp_run_session:
  assumes same: "same_self ss s"
    and Q: "\<And>s' r es. list_all (session L R ss url) es \<Longrightarrow> same_self ss s'
      \<Longrightarrow> ssst_repo_url (self_status_of s') = ssst_repo_url (self_status_of s)
      \<Longrightarrow> (\<And>res. r = Inr res \<Longrightarrow> session_up ss es s') \<Longrightarrow> Q (s', r) (t @ es)"
  shows "wp (run_session E L R s url) Q t"
proof -
  have mut: "service_of L (s\<lparr>self_status_of := st\<rparr>) = service_of L ss" for st
    by (rule same_self_objects(4)) (use same in simp)
  show ?thesis
    unfolding run_session_def ensureAgentSecret_def ensureAgent_def ensureAgentService_def ensureService_def Let_def
      same_self_objects [OF same] mut
  proof (intro wp_intros wp_stored [where P = "session L R ss url"], simp_all only: append_assoc kind_simps, goal_cases)
    case (10 r1 es1 r2 es2 d r3 es3 r4 es4 n)
    show ?case
    proof (cases r4)
      case (Inl err)
      show ?thesis unfolding Inl by simp (rule Q, use 10 same in auto)
    next
      case (Inr v)
      let ?s = "s\<lparr>self_status_of := (self_status_of s)\<lparr>ssst_agent_service := agentName s, ssst_service_ref := m_name (self_meta s)\<rparr>\<rparr>"
      obtain s' res where st: "session_state L n ?s d = (s', res)" by fastforce
      from session_state_cases [OF st] same have "same_self ss s'"
        "ssst_repo_url (self_status_of s') = ssst_repo_url (self_status_of s)"
        "ssst_phase (self_status_of s') = SelfServicePhaseReady \<longleftrightarrow> sss_suspend (self_spec_of ss) \<or> d_available_replicas d > 0"
        by (auto simp: same_self_def)
      moreover obtain w v0 where "EvDeployment (VStore w (Inr d)) \<in> set es2" "EvService (VStore v0 (Inr v)) \<in> set es4"
        using 10 Inr by blast
      ultimately have "session_up ss (es1 @ es2 @ es3 @ es4) s'" unfolding session_up_def by auto
      with Q [of "es1 @ es2 @ es3 @ es4" s' "Inr res"] 10 st \<open>same_self ss s'\<close>
        \<open>ssst_repo_url (self_status_of s') = ssst_repo_url (self_status_of s)\<close>
      show ?thesis by (simp add: Inr)
    qed
  next
    case 5
    show ?case by (rule Q) (use 5 same in auto)
  next
    case 11
    show ?case by (rule Q) (use 11 same in auto)
  next
    case 12
    show ?case by (rule Q) (use 12 same in auto)
  qed auto
qed

section \<open>The shape of every run\<close>

text \<open>
  \<open>set_up L R ss url pre mid\<close>: the requests \<open>pre\<close> checked every Secret the agent gets, \<open>url\<close> is the
  repository they settled on, and \<open>mid\<close> stores the parts of the session.
\<close>

definition set_up :: "klib \<Rightarrow> selfservice_reconciler \<Rightarrow> selfservice \<Rightarrow> string \<Rightarrow> trace \<Rightarrow> trace \<Rightarrow> bool" where
  "set_up L R ss url pre mid \<longleftrightarrow> ssr_agent_key R \<noteq> '''' \<and> repo_ok L ss url
     \<and> refs_checked R (m_namespace (self_meta ss)) (agent_refs ss) pre \<and> list_all (session L R ss url) mid"

lemma wp_provision:
  assumes Q: "\<And>s' r pre mid. list_all prepares pre \<Longrightarrow> same_self ss s'
      \<Longrightarrow> mid = [] \<and> (\<exists>err. r = Inl err) \<or> (\<exists>url. set_up L R ss url pre mid \<and> (\<forall>res. r = Inr res \<longrightarrow> session_up ss mid s'))
      \<Longrightarrow> Q (s', r) (t @ pre @ mid)"
  shows "wp (provision E L J R ss) Q t"
proof -
  have none: "Q (s', Inl err) (t @ es)" if "list_all prepares es" "same_self ss s'" for s' err es
    using Q [OF that, of "[]" "Inl err"] by simp
  have run: "wp (run_session E L R (setSelfServiceCondition L n ty st re ms (ss\<lparr>self_status_of := x\<rparr>)) url) Q (t @ es @ es')"
    if "ssr_agent_key R \<noteq> ''''" "list_all prepares es" "list_all prepares es'"
      "refs_checked R (m_namespace (self_meta ss)) (agent_refs ss) es" "repo_ok L ss url" for n ty st re ms x url es es'
  proof (rule wp_run_session)
    show "same_self ss (setSelfServiceCondition L n ty st re ms (ss\<lparr>self_status_of := x\<rparr>))" by simp
    fix s' and r :: "gerror + ctrl_result" and mid
    assume mid: "list_all (session L R ss url) mid" "same_self ss s'" "\<And>res. r = Inr res \<Longrightarrow> session_up ss mid s'"
    have "set_up L R ss url (es @ es') mid"
      using that mid(1) refs_checked_append [OF that(4), of "[]" es'] by (simp add: set_up_def)
    then show "Q (s', r) ((t @ es @ es') @ mid)"
      using Q [of "es @ es'" s' mid r] that mid by auto
  qed
  have check: "wp (checkSecrets E R ss) Q' t"
    if "\<And>r es. list_all prepares es \<Longrightarrow> (r = None \<Longrightarrow> refs_checked R (m_namespace (self_meta ss)) (agent_refs ss) es) \<Longrightarrow> Q' r (t @ es)"
    for Q'
    unfolding checkSecrets_def agent_refs_def
    by (intro wp_intros wp_check_refs) (use that [of "[]"] that in \<open>auto simp: agent_refs_def\<close>)
  show ?thesis
    unfolding provision_def
  proof (intro wp_intros check wp_ensureRepo, goal_cases)
    case 1
    show ?case using none [of "[]"] by simp
  next
    case (2 r es ra esa n err)
    then show ?case using none [of "es @ esa"] by simp
  next
    case (3 r es ra esa n repoURL)
    then show ?case using run by simp
  next
    case (4 r es err)
    then show ?case using none by simp
  qed
qed

text \<open>
  A run ends with at most one write of the status. Either that reports a failure before anything was
  stored, or the session was set up (and the status reports a failure or how far it is).
\<close>

definition last_word :: "selfservice \<Rightarrow> (selfservice \<Rightarrow> bool) \<Rightarrow> trace \<Rightarrow> bool" where
  "last_word ss P fin \<longleftrightarrow> fin = [] \<or> (\<exists>s' a. fin = [EvSelf (VPatchStatus False ss (observed s') a)] \<and> same_self ss s' \<and> P s')"

inductive self_flow :: "klib \<Rightarrow> selfservice_reconciler \<Rightarrow> selfservice \<Rightarrow> trace \<Rightarrow> bool" for L R ss where
  failed: "list_all prepares pre \<Longrightarrow> last_word ss (\<lambda>s'. ssst_phase (self_status_of s') = SelfServicePhaseFailed) fin
    \<Longrightarrow> self_flow L R ss (pre @ fin)"
| session: "list_all prepares pre \<Longrightarrow> set_up L R ss url pre mid
    \<Longrightarrow> last_word ss (\<lambda>s'. ssst_phase (self_status_of s') = SelfServicePhaseFailed \<or> session_up ss mid s') fin
    \<Longrightarrow> self_flow L R ss (pre @ mid @ fin)"

lemma wp_selfservice_body:
  assumes Q: "\<And>out es. self_flow L R ss es \<Longrightarrow> Q out (t @ es)"
  shows "wp (selfservice_body E L J R ss) Q t"
proof -
  have fin: "Q out (t @ pre @ mid @ fin)"
    if "list_all prepares pre" "last_word ss (\<lambda>s'. ssst_phase (self_status_of s') = SelfServicePhaseFailed \<or> (\<exists>res. r = Inr res) \<and> s' = s0) fin"
      "mid = [] \<and> (\<exists>err. r = Inl err) \<or> (\<exists>url. set_up L R ss url pre mid \<and> (\<forall>res. r = Inr res \<longrightarrow> session_up ss mid s0))"
    for out pre mid fin s0 and r :: "gerror + ctrl_result"
    using that(3)
  proof (elim disjE exE conjE)
    fix err assume "mid = []" "r = Inl err"
    then show ?thesis using Q [OF self_flow.failed [OF that(1)], of fin] that(2) by (simp add: last_word_def)
  next
    fix url assume "set_up L R ss url pre mid" "\<forall>res. r = Inr res \<longrightarrow> session_up ss mid s0"
    then show ?thesis
      using Q [OF self_flow.session [OF that(1)], of url mid fin] that(2) unfolding last_word_def by blast
  qed
  show ?thesis
    unfolding selfservice_body_def
  proof (intro wp_intros wp_provision, simp_all only: append_assoc kind_simps, goal_cases)
    case (1 s' r pre mid s1 r1 n err)
    then show ?case using fin [of pre r s' "[]" mid] by (simp add: last_word_def)
  next
    case (2 s' r pre mid s1 r1 n err a)
    then have "last_word ss (\<lambda>x. ssst_phase (self_status_of x) = SelfServicePhaseFailed \<or> (\<exists>res. r = Inr res) \<and> x = s')
        [EvSelf (VPatchStatus False ss (observed (markSelfServiceFailed L n err s1)) a)]"
      unfolding last_word_def by (auto intro: exI [of _ "markSelfServiceFailed L n err s1"])
    from fin [OF 2(1) this 2(3)] show ?case .
  next
    case (3 s' r pre mid s1 r1 n res a)
    then have "last_word ss (\<lambda>x. ssst_phase (self_status_of x) = SelfServicePhaseFailed \<or> (\<exists>res. r = Inr res) \<and> x = s')
        [EvSelf (VPatchStatus False ss (observed s1) a)]"
      unfolding last_word_def by auto
    from fin [OF 3(1) this 3(3)] show ?case .
  qed
qed

definition live_self :: "klib \<Rightarrow> selfservice \<Rightarrow> bool" where
  "live_self L ss \<longleftrightarrow> m_deletion (self_meta ss) = None \<and> lib_contains_finalizer L selfServiceFinalizer (self_meta ss)"

lemma run_selfservice_reconcile:
  assumes "run_state (selfservice_reconcile E L J R key) t = (out, t')"
  obtains (read) r where "t' = t @ [EvSelf (VGet key r)]"
  | (finalizer) s s' u where "t' = t @ [EvSelf (VGet key (Inr s)), EvSelf (VUpdate s' u)]" "\<not> live_self L s"
  | (body) s es where "live_self L s" "t' = t @ EvSelf (VGet key (Inr s)) # es" "self_flow L R s es"
  using assms unfolding selfservice_reconcile_def
proof (cases rule: selfservice_kind.step_run)
  case (failed err)
  then show thesis using read by simp
next
  case (finalizer s s' u)
  then show thesis using that(2) by (auto simp: live_self_def)
next
  case (gone s)
  then show thesis using read by simp
next
  case (body s)
  have "wp (selfservice_body E L J R s) (\<lambda>out t'. \<exists>es. self_flow L R s es \<and> t' = (t @ [EvSelf (VGet key (Inr s))]) @ es)
      (t @ [EvSelf (VGet key (Inr s))])"
    by (rule wp_selfservice_body) blast
  from wpD [OF this] body(3) obtain es where
    "self_flow L R s es" "t' = (t @ [EvSelf (VGet key (Inr s))]) @ es" by auto
  with body(1,2) that(3) show thesis by (simp add: live_self_def)
qed

fun stores_agent :: "event \<Rightarrow> bool" where
  "stores_agent (EvDeployment (VStore d r)) = True"
| "stores_agent _ = False"

lemma last_word_events: "last_word ss P fin \<Longrightarrow> e \<in> set fin \<Longrightarrow>
    \<exists>s' a. e = EvSelf (VPatchStatus False ss (observed s') a) \<and> same_self ss s' \<and> P s'"
  by (auto simp: last_word_def)

lemma snoc_split: "xs @ [a] = pre @ e # suf \<Longrightarrow> e \<notin> set xs \<Longrightarrow> xs = pre \<and> a = e \<and> suf = []"
  by (cases suf rule: rev_cases) auto

lemma fresh_split: "xs @ ys = pre @ e # suf \<Longrightarrow> e \<notin> set xs \<Longrightarrow> \<exists>zs. pre = xs @ zs"
  by (auto simp: append_eq_append_conv2 append_eq_Cons_conv)

lemma self_flow_store:
  assumes "self_flow L R ss es" "es = pre @ [EvDeployment (VStore d r)] @ suf"
  shows "\<exists>url pre0 more mid d0. pre = pre0 @ more \<and> list_all prepares pre0 \<and> set_up L R ss url pre0 mid \<and> agent_object L R ss url d0 = Inr d"
  using assms(1)
proof cases
  case (failed pre0 fin)
  have "EvDeployment (VStore d r) \<in> set (pre0 @ fin)" unfolding failed(1) [symmetric] assms(2) by simp
  with failed(2,3) show ?thesis by (auto simp: list_all_iff dest: last_word_events)
next
  case (session pre0 url mid fin)
  have d: "EvDeployment (VStore d r) \<in> set (mid @ fin)"
  proof -
    have "EvDeployment (VStore d r) \<in> set (pre0 @ mid @ fin)" unfolding session(1) [symmetric] assms(2) by simp
    with session(2) show ?thesis by (auto simp: list_all_iff)
  qed
  then have "EvDeployment (VStore d r) \<in> set mid" using session(4) by (auto dest: last_word_events)
  with session(3) obtain d0 where "agent_object L R ss url d0 = Inr d"
    unfolding set_up_def list_all_iff by fastforce
  moreover have "\<exists>more. pre = pre0 @ more"
  proof (rule fresh_split)
    show "pre0 @ (mid @ fin) = pre @ EvDeployment (VStore d r) # suf" using session(1) assms(2) by simp
  qed (use session(2) in \<open>auto simp: list_all_iff\<close>)
  ultimately show ?thesis using session(2,3) by blast
qed

lemma self_flow_status:
  assumes "self_flow L R ss es" "es = pre @ [EvSelf (VPatchStatus lock orig y r)] @ suf"
  shows "\<not> lock \<and> orig = ss \<and> suf = [] \<and> (\<exists>s'. y = observed s' \<and> same_self ss s'
    \<and> (ssst_phase (self_status_of s') = SelfServicePhaseFailed \<or>
        (\<exists>url pre0 mid. pre = pre0 @ mid \<and> set_up L R ss url pre0 mid \<and> session_up ss mid s')))"
  using assms(1)
proof cases
  case (failed pre0 fin)
  have no: "EvSelf (VPatchStatus lock orig y r) \<notin> set pre0" using failed(2) by (auto simp: list_all_iff)
  moreover have "EvSelf (VPatchStatus lock orig y r) \<in> set (pre0 @ fin)" unfolding failed(1) [symmetric] assms(2) by simp
  ultimately obtain s' a where "fin = [EvSelf (VPatchStatus False ss (observed s') a)]" "same_self ss s'"
    "ssst_phase (self_status_of s') = SelfServicePhaseFailed"
    using failed(3) by (auto simp: last_word_def)
  with snoc_split [OF _ no, of "EvSelf (VPatchStatus False ss (observed s') a)" pre suf] failed(1) assms(2)
  show ?thesis by auto
next
  case (session pre0 url mid fin)
  have no: "EvSelf (VPatchStatus lock orig y r) \<notin> set (pre0 @ mid)"
    using session(2,3) by (auto simp: list_all_iff set_up_def)
  moreover have "EvSelf (VPatchStatus lock orig y r) \<in> set ((pre0 @ mid) @ fin)" using arg_cong [OF session(1), of set] unfolding assms(2) by auto
  ultimately obtain s' a where s': "fin = [EvSelf (VPatchStatus False ss (observed s') a)]" "same_self ss s'"
    "ssst_phase (self_status_of s') = SelfServicePhaseFailed \<or> session_up ss mid s'"
    using session(4) by (auto simp: last_word_def)
  then have "(pre0 @ mid) @ [EvSelf (VPatchStatus False ss (observed s') a)] = pre @ EvSelf (VPatchStatus lock orig y r) # suf"
    using session(1) assms(2) by simp
  from snoc_split [OF this no] have "pre = pre0 @ mid \<and> suf = [] \<and> \<not> lock \<and> orig = ss \<and> y = observed s'"
    by auto
  with s' session(3) show ?thesis by blast
qed

section \<open>A session that comes up\<close>

lemma refs_agentPodSpec:
  assumes "agentPodSpec R ss url = Inr spec"
  shows "pod_secret_refs spec = (agentName ss, None) # map (\<lambda>r. (sk_name r, sk_optional r)) (agent_refs ss)"
  using assms
  by (auto simp: agentPodSpec_def agentEnv_def agent_refs_def Let_def pod_secret_refs_def container_refs_def empty_pod_spec_def
      empty_container_def env_value_def env_from_secret_def env_refs_def env_from_refs_def volume_refs_def empty_dir_volume_def
      split: sum.splits option.splits)

text \<open>
  An environment in which nothing is refused: the SelfService names an existing repository, its Secrets are
  allowed, and the API server stores what it is sent.
\<close>

definition session_answers :: "env \<Rightarrow> klib \<Rightarrow> selfservice_reconciler \<Rightarrow> nsname \<Rightarrow> selfservice \<Rightarrow> existing_repo \<Rightarrow> deployment \<Rightarrow> bool" where
  "session_answers E L R key ss e dep \<longleftrightarrow>
     (\<forall>t. ka_get (env_self E) t key = Inr ss)
   \<and> sr_create (sss_repo (self_spec_of ss)) = None \<and> sr_existing (sss_repo (self_spec_of ss)) = Some e
   \<and> validateHTTPSRepo L (er_url e) = None \<and> ssr_agent_key R \<noteq> ''''
   \<and> (\<forall>t. \<forall>ref\<in>set (agent_refs ss). \<exists>s. ka_get (env_secret E) t (m_namespace (self_meta ss), sk_name ref) = Inr s
        \<and> check_secret (ssr_policy R) s = None)
   \<and> (\<forall>t a. \<exists>b. ka_fetch (env_secret E) t a = Inr b) \<and> (\<forall>t a. \<exists>b. ka_store (env_secret E) t a = Inr b)
   \<and> (\<forall>t a. \<exists>b. ka_fetch (env_deployment E) t a = Inr b) \<and> (\<forall>t a. ka_store (env_deployment E) t a = Inr dep)
   \<and> (\<forall>t a. \<exists>b. ka_fetch (env_kube_service E) t a = Inr b) \<and> (\<forall>t a. \<exists>b. ka_store (env_kube_service E) t a = Inr b)
   \<and> (\<forall>t a. \<exists>b. ka_fetch (env_service E) t a = Inr b \<and> (m_created (sv_meta b) = None \<or> lib_controlled_by L (self_meta ss) (sv_meta b)))
   \<and> (\<forall>t a. \<exists>b. ka_store (env_service E) t a = Inr b)
   \<and> (\<forall>t l a b. \<exists>c. ka_patch_status (env_self E) t l a b = Inr c)
   \<and> (\<forall>o' m. \<exists>m'. lib_set_controller L o' m = Inr m')"

lemma session_answersD:
  assumes "session_answers E L R key ss e dep"
  shows "ka_get (env_self E) t key = Inr ss" "sr_create (sss_repo (self_spec_of ss)) = None"
    "sr_existing (sss_repo (self_spec_of ss)) = Some e" "validateHTTPSRepo L (er_url e) = None" "ssr_agent_key R \<noteq> []"
    "ref \<in> set (agent_refs ss) \<Longrightarrow> \<exists>s. ka_get (env_secret E) t (m_namespace (self_meta ss), sk_name ref) = Inr s
        \<and> check_secret (ssr_policy R) s = None"
    "\<exists>m'. lib_set_controller L o' m = Inr m'" "\<exists>c. ka_patch_status (env_self E) t l ss y = Inr c"
    "\<exists>b. ka_fetch (env_secret E) t a1 = Inr b" "\<exists>b. ka_store (env_secret E) t a1 = Inr b"
    "\<exists>b. ka_fetch (env_kube_service E) t a2 = Inr b" "\<exists>b. ka_store (env_kube_service E) t a2 = Inr b"
    "\<exists>b. ka_fetch (env_service E) t a3 = Inr b \<and> (m_created (sv_meta b) = None \<or> lib_controlled_by L (self_meta ss) (sv_meta b))"
    "\<exists>b. ka_store (env_service E) t a3 = Inr b" "\<exists>b. ka_fetch (env_deployment E) t a4 = Inr b"
    "ka_store (env_deployment E) t a4 = Inr dep"
  using assms by (simp_all add: session_answers_def del: check_secret_None)

lemma run_create_or_update:
  assumes "\<exists>b w. ka_fetch (kd_api K E) t obj = Inr b \<and> mutate b = Inr w"
    and "\<And>t w. \<exists>b. ka_store (kd_api K E) t w = Inr b"
  shows "\<exists>b w r. run_state (create_or_update E K obj mutate) t =
    (Inr r, t @ [kd_event K (VFetch obj (Inr b)), kd_event K (VStore w (Inr r))])
    \<and> (\<exists>t. ka_store (kd_api K E) t w = Inr r) \<and> mutate b = Inr w"
proof -
  from assms(1) obtain b w where b: "ka_fetch (kd_api K E) t obj = Inr b" "mutate b = Inr w" by blast
  from assms(2) obtain r where "ka_store (kd_api K E) (t @ [kd_event K (VFetch obj (Inr b))]) w = Inr r" by blast
  with b show ?thesis unfolding create_or_update_def by (auto simp: k_defs)
qed

lemma run_ends:
  assumes "\<And>t a. \<exists>b. ka_fetch (kd_api K E) t a = Inr b \<and> (\<exists>w. mutate b = Inr w)"
    and "\<And>t a. \<exists>b. ka_store (kd_api K E) t a = Inr b"
  shows "\<exists>es. run_state (create_or_update E K obj mutate \<bind> (\<lambda>r. ret (err_of r))) t = (None, t @ es)"
  using run_create_or_update [of K E t obj mutate] assms by auto

lemma run_check_refs:
  assumes "\<And>t ref. ref \<in> set refs \<Longrightarrow> \<exists>s. ka_get (env_secret E) t (ns, sk_name ref) = Inr s \<and> check_secret (ssr_policy R) s = None"
  shows "\<exists>es. run_state (check_refs E R ns refs) t = (None, t @ es)"
  using assms
proof (induction refs arbitrary: t)
  case (Cons ref refs)
  from Cons.prems [of ref t] obtain s where s: "ka_get (env_secret E) t (ns, sk_name ref) = Inr s" "check_secret (ssr_policy R) s = None"
    by auto
  have "\<exists>es. run_state (check_refs E R ns refs) (t @ [EvSecret (VGet (ns, sk_name ref) (Inr s))])
      = (None, (t @ [EvSecret (VGet (ns, sk_name ref) (Inr s))]) @ es)"
    by (rule Cons.IH) (use Cons.prems in simp)
  with s show ?case by (auto simp: get_secret_def k_defs simp del: check_secret_None)
qed simp

lemma run_ensures:
  assumes E: "session_answers E L R key ss e dep" and same: "same_self ss s"
  shows "\<exists>es. run_state (ensureAgentSecret E L R s) t = (None, t @ es)"
    and "\<exists>es w. run_state (ensureAgent E L R s url) t = (Inr dep, t @ es @ [EvDeployment (VStore w (Inr dep))])"
    and "\<exists>es. run_state (ensureAgentService E L s) t = (None, t @ es)"
    and "\<exists>es. run_state (ensureService E L s url) t = (None, t @ es)"
proof -
  have ref: "gitSecretRef ss = Inr (er_secret_ref e)" using session_answersD(2,3) [OF E] by (simp add: gitSecretRef_def)
  note owner = session_answersD(7) [OF E]
  have ok: "\<exists>w. secret_object L R ss a1 = Inr w" "\<exists>w. agent_object L R ss url a2 = Inr w"
      "\<exists>w. agent_service_object L ss a3 = Inr w" for a1 a2 a3
    using owner by (auto simp: secret_object_def agent_object_def agent_service_object_def agentPodSpec_def agentEnv_def ref Let_def
        split: sum.splits) (metis sum.distinct(1))+
  have ok4: "\<exists>w. service_of L ss url b = Inr w"
    if "m_created (sv_meta b) = None \<or> lib_controlled_by L (self_meta ss) (sv_meta b)" for b
    using owner that by (auto simp: service_of_def ref Let_def split: sum.splits) (metis sum.distinct(1))+
  note eqs = same_self_objects [OF same]
  note parts = session_answersD(9-16) [OF E]
  show "\<exists>es. run_state (ensureAgentSecret E L R s) t = (None, t @ es)"
    unfolding ensureAgentSecret_def eqs by (rule run_ends; simp only: kind_simps; metis parts(1,2) ok(1))
  show "\<exists>es. run_state (ensureAgentService E L s) t = (None, t @ es)"
    unfolding ensureAgentService_def eqs by (rule run_ends; simp only: kind_simps; metis parts(3,4) ok(3))
  show "\<exists>es. run_state (ensureService E L s url) t = (None, t @ es)"
    unfolding ensureService_def eqs by (rule run_ends; simp only: kind_simps; metis parts(5,6) ok4)
  show "\<exists>es w. run_state (ensureAgent E L R s url) t = (Inr dep, t @ es @ [EvDeployment (VStore w (Inr dep))])"
    using run_create_or_update [of deployments E t "empty_deployment (agentName s) (m_namespace (self_meta s))"
        "agent_object L R ss url"] parts(7,8) ok(2)
    unfolding ensureAgent_def eqs by (simp only: kind_simps) (metis append_Cons append_Nil sum.inject(2))
qed

text \<open>What the status says after such a run.\<close>

definition session_outcome :: "selfservice \<Rightarrow> deployment \<Rightarrow> selfservice_phase \<times> ctrl_result" where
  "session_outcome ss d = (if sss_suspend (self_spec_of ss) \<or> d_available_replicas d > 0
     then (SelfServicePhaseReady, no_requeue) else (SelfServicePhaseProvisioning, requeue_after (seconds 15)))"

lemma session_state_outcome:
  assumes "session_state L t s d = (s', res)"
  shows "session_outcome s d = (ssst_phase (self_status_of s'), res)"
  using assms by (auto simp: session_state_def session_outcome_def split: if_splits)

lemma run_session_up:
  assumes E: "session_answers E L R key ss e dep" and same: "same_self ss s"
  shows "\<exists>es w mid s' res. run_state (run_session E L R s url) t =
      ((s', Inr res), t @ es @ [EvDeployment (VStore w (Inr dep))] @ mid)
    \<and> same_self ss s' \<and> session_outcome ss dep = (ssst_phase (self_status_of s'), res)
    \<and> ssst_repo_url (self_status_of s') = ssst_repo_url (self_status_of s)"
proof -
  obtain e1 where e1: "run_state (ensureAgentSecret E L R s) t = (None, t @ e1)" using run_ensures(1) [OF assms] by blast
  obtain e2 w where e2: "run_state (ensureAgent E L R s url) (t @ e1) = (Inr dep, (t @ e1) @ e2 @ [EvDeployment (VStore w (Inr dep))])"
    using run_ensures(2) [OF assms] by blast
  let ?t2 = "(t @ e1) @ e2 @ [EvDeployment (VStore w (Inr dep))]"
  obtain e3 where e3: "run_state (ensureAgentService E L s) ?t2 = (None, ?t2 @ e3)"
    using run_ensures(3) [OF assms] by blast
  let ?s = "s\<lparr>self_status_of := (self_status_of s)\<lparr>ssst_agent_service := agentName s\<rparr>\<rparr>"
  obtain e4 where e4: "run_state (ensureService E L ?s url) (?t2 @ e3) = (None, (?t2 @ e3) @ e4)"
    using run_ensures(4) [OF E, of ?s url "?t2 @ e3"] same by auto
  let ?s2 = "?s\<lparr>self_status_of := (self_status_of ?s)\<lparr>ssst_service_ref := m_name (self_meta ?s)\<rparr>\<rparr>"
  obtain s' res where st: "session_state L (env_now E ((?t2 @ e3) @ e4)) ?s2 dep = (s', res)" by fastforce
  have "run_state (run_session E L R s url) t = ((s', Inr res), t @ (e1 @ e2) @ [EvDeployment (VStore w (Inr dep))] @ e3 @ e4)"
    using e1 e2 e3 e4 st unfolding run_session_def Let_def by simp
  moreover have "same_self ss s'" "session_outcome ss dep = (ssst_phase (self_status_of s'), res)"
    "ssst_repo_url (self_status_of s') = ssst_repo_url (self_status_of s)"
    using session_state_cases [OF st] session_state_outcome [OF st] same by (auto simp: same_self_def session_outcome_def)
  ultimately show ?thesis by blast
qed

lemma run_self_up:
  assumes E: "session_answers E L R key ss e dep" and live: "live_self L ss"
  shows "\<exists>es w mid y r res. run_state (selfservice_reconcile E L J R key) t = ((res, None),
      t @ (EvSelf (VGet key (Inr ss)) # es) @ [EvDeployment (VStore w (Inr dep))] @ mid @ [EvSelf (VPatchStatus False ss y r)])
    \<and> session_outcome ss dep = (ssst_phase (self_status_of y), res)
    \<and> ssst_repo_url (self_status_of y) = er_url e \<and> ssst_observed_generation (self_status_of y) = m_generation (self_meta ss)"
proof -
  let ?t = "t @ [EvSelf (VGet key (Inr ss))]"
  have ref: "gitSecretRef ss = Inr (er_secret_ref e)" using session_answersD(2,3) [OF E] by (simp add: gitSecretRef_def)
  have "\<exists>es. run_state (check_refs E R (m_namespace (self_meta ss)) (agent_refs ss)) ?t = (None, ?t @ es)"
    by (rule run_check_refs) (rule session_answersD(6) [OF E])
  then obtain e1 where e1: "run_state (checkSecrets E R ss) ?t = (None, ?t @ e1)"
    unfolding checkSecrets_def agent_refs_def ref by auto
  have repo: "ensureRepo E L J R ss = ret (Inr (er_url e))"
    using session_answersD(3,4) [OF E] by (simp add: ensureRepo_def checked_url_def)
  let ?s = "setSelfServiceCondition L (env_now E (?t @ e1)) ''RepoReady'' ConditionTrue ''Ready'' (''Repository '' @ er_url e)
     (ss\<lparr>self_status_of := (self_status_of ss)\<lparr>ssst_repo_url := er_url e\<rparr>\<rparr>)"
  obtain es w mid s' res where up: "run_state (run_session E L R ?s (er_url e)) (?t @ e1) =
      ((s', Inr res), (?t @ e1) @ es @ [EvDeployment (VStore w (Inr dep))] @ mid)"
    "same_self ss s'" "session_outcome ss dep = (ssst_phase (self_status_of s'), res)"
    "ssst_repo_url (self_status_of s') = er_url e"
    using run_session_up [OF E, of ?s "er_url e" "?t @ e1"] by auto
  note key = session_answersD(5) [OF E] and get = session_answersD(1) [OF E]
  have "run_state (provision E L J R ss) ?t = ((s', Inr res), (?t @ e1) @ es @ [EvDeployment (VStore w (Inr dep))] @ mid)"
    using e1 up(1) key unfolding provision_def repo by simp
  moreover obtain c where "ka_patch_status (env_self E) ((?t @ e1) @ es @ [EvDeployment (VStore w (Inr dep))] @ mid) False ss (observed s') = Inr c"
    using session_answersD(8) [OF E] by blast
  ultimately have "run_state (selfservice_reconcile E L J R key) t = ((res, None),
      t @ (EvSelf (VGet key (Inr ss)) # e1 @ es) @ [EvDeployment (VStore w (Inr dep))] @ mid @ [EvSelf (VPatchStatus False ss (observed s') (Inr c))])"
    using live get unfolding selfservice_reconcile_def finalizer_step_def selfservice_body_def live_self_def
    by (simp add: k_defs)
  moreover have "session_outcome ss dep = (ssst_phase (self_status_of (observed s')), res)"
    "ssst_repo_url (self_status_of (observed s')) = er_url e"
    "ssst_observed_generation (self_status_of (observed s')) = m_generation (self_meta ss)"
    using up same_self_names(4) [OF up(2)] by simp_all
  ultimately show ?thesis by blast
qed

section \<open>Concrete objects\<close>

definition demo_self :: selfservice where
  "demo_self = \<lparr>self_meta = (fresh_meta ''bot'' ''shop'')\<lparr>m_uid := ''u9'', m_generation := 2, m_finalizers := [selfServiceFinalizer]\<rparr>,
     self_spec_of = \<lparr>sss_repo = \<lparr>sr_existing = Some \<lparr>er_url = ''https://git.example/shop/bot'',
         er_secret_ref = \<lparr>sk_name = ''git'', sk_key = ''token'', sk_optional = None\<rparr>\<rparr>, sr_create = None\<rparr>,
       sss_branch = [], sss_ai = \<lparr>ai_provider = ''anthropic'', ai_model = ''m'', ai_base_url = [], ai_api_key_secret_ref = None\<rparr>,
       sss_service = \<lparr>st_image = None, st_replicas = None, st_port = 0, st_env = [], st_plugins = []\<rparr>,
       sss_allow_commands = False, sss_agent_image = [], sss_suspend = False\<rparr>,
     self_status_of = \<lparr>ssst_phase = SelfServicePhaseUnset, ssst_repo_url = [], ssst_agent_service = [], ssst_service_ref = [],
       ssst_message = [], ssst_observed_generation = 0, ssst_conditions = []\<rparr>\<rparr>"

definition demo_credentials :: secret where
  "demo_credentials = \<lparr>sec_meta = (fresh_meta ''git'' ''shop'')\<lparr>m_labels := [label_credentials \<mapsto> ''true'']\<rparr>,
     sec_type = ''Opaque'', sec_data = Map.empty\<rparr>"

definition demo_agent :: deployment where
  "demo_agent = (empty_deployment ''bot-agent'' ''shop'')\<lparr>d_replicas := Some 1, d_available_replicas := 1\<rparr>"

definition demo_self_env :: env where
  "demo_self_env = env_ref\<lparr>env_self := kapi_ref\<lparr>ka_get := (\<lambda>t key. Inr demo_self)\<rparr>,
     env_secret := kapi_ref\<lparr>ka_get := (\<lambda>t key. Inr demo_credentials)\<rparr>,
     env_deployment := kapi_ref\<lparr>ka_store := (\<lambda>t d. Inr demo_agent)\<rparr>,
     env_service := kapi_ref\<lparr>ka_fetch := (\<lambda>t s. Inr (blank_service ''bot'' ''shop''))\<rparr>\<rparr>"

definition demo_self_reconciler :: selfservice_reconciler where
  "demo_self_reconciler = \<lparr>ssr_agent_image = ''agent:1'', ssr_agent_key = ''k'', ssr_policy = \<lparr>sp_allow_unlabeled = False\<rparr>\<rparr>"

lemma demo_session:
  "session_answers demo_self_env demo_owner_lib demo_self_reconciler (''shop'', ''bot'') demo_self
     \<lparr>er_url = ''https://git.example/shop/bot'', er_secret_ref = \<lparr>sk_name = ''git'', sk_key = ''token'', sk_optional = None\<rparr>\<rparr> demo_agent"
  "live_self demo_owner_lib demo_self"
proof -
  have "validateHTTPSRepo demo_owner_lib ''https://git.example/shop/bot'' = None" by code_simp
  moreover have "check_secret \<lparr>sp_allow_unlabeled = False\<rparr> demo_credentials = None"
    by (simp add: demo_credentials_def label_def)
  ultimately show "session_answers demo_self_env demo_owner_lib demo_self_reconciler (''shop'', ''bot'') demo_self
     \<lparr>er_url = ''https://git.example/shop/bot'', er_secret_ref = \<lparr>sk_name = ''git'', sk_key = ''token'', sk_optional = None\<rparr>\<rparr> demo_agent"
    by (simp add: session_answers_def demo_self_env_def env_ref_def kapi_ref_def demo_owner_lib_def demo_self_reconciler_def
        demo_self_def blank_service_def fresh_meta_def del: check_secret_None)
  show "live_self demo_owner_lib demo_self"
    by (simp add: live_self_def demo_owner_lib_def klib_ref_def demo_self_def fresh_meta_def)
qed

lemma demo_session_run:
  obtains es w mid y r where "run_state (selfservice_reconcile demo_self_env demo_owner_lib demo_json demo_self_reconciler (''shop'', ''bot'')) []
      = ((no_requeue, None), [] @ (EvSelf (VGet (''shop'', ''bot'') (Inr demo_self)) # es) @ [EvDeployment (VStore w (Inr demo_agent))]
         @ mid @ [EvSelf (VPatchStatus False demo_self y r)])"
    and "ssst_phase (self_status_of y) = SelfServicePhaseReady"
proof -
  have out: "session_outcome demo_self demo_agent = (SelfServicePhaseReady, no_requeue)"
    by (simp add: session_outcome_def demo_agent_def)
  show thesis using run_self_up [OF demo_session, of demo_json "[]"] that unfolding out by auto
qed

section \<open>Properties\<close>

text \<open>C31: A run of the SelfService reconciler stores the agent's Deployment only for a live SelfService, with
  the pod spec \<open>agentPodSpec\<close> makes of it, when the operator has an agent key and the repository URL is a valid https
  URL or the one recorded for this generation; and before that the same run read every Secret the pod references,
  besides the agent's own token, with an answer the Secret policy allows.\<close>

theorem selfservice_agent_checked:
  assumes "run_state (selfservice_reconcile E L J R key) t = (out, t @ pre @ [EvDeployment (VStore d r)] @ suf)"
  shows "\<exists>ss url rest. pre = EvSelf (VGet key (Inr ss)) # rest \<and> live_self L ss \<and> ssr_agent_key R \<noteq> ''''
     \<and> repo_ok L ss url \<and> agentPodSpec R ss url = Inr (d_template_spec d)
     \<and> (\<forall>n\<in>fst ` set (pod_secret_refs (d_template_spec d)). n = agentName ss
          \<or> (\<exists>s. EvSecret (VGet (m_namespace (self_meta ss), n) (Inr s)) \<in> set rest \<and> check_secret (ssr_policy R) s = None))"
  using assms
proof (cases rule: run_selfservice_reconcile)
  case (read r')
  then show ?thesis by (auto simp: append_eq_Cons_conv Cons_eq_append_conv)
next
  case (finalizer s s' u)
  then show ?thesis by (auto simp: append_eq_Cons_conv Cons_eq_append_conv)
next
  case (body ss es)
  then obtain rest where rest: "pre = EvSelf (VGet key (Inr ss)) # rest" "es = rest @ [EvDeployment (VStore d r)] @ suf"
    by (cases pre) auto
  from self_flow_store [OF body(3) rest(2)] obtain url pre0 more mid d0 where
    up: "rest = pre0 @ more" "set_up L R ss url pre0 mid" "agent_object L R ss url d0 = Inr d" by blast
  from up(3) have spec: "agentPodSpec R ss url = Inr (d_template_spec d)"
    by (auto simp: agent_object_def Let_def split: sum.splits)
  from up(1,2) refs_checked_append [of R "m_namespace (self_meta ss)" "agent_refs ss" pre0 "[]" more]
  have "refs_checked R (m_namespace (self_meta ss)) (agent_refs ss) rest" by (simp add: set_up_def)
  then show ?thesis
    using up(2) spec rest(1) body(1) unfolding refs_agentPodSpec [OF spec] refs_checked_def set_up_def by force
qed

theorem selfservice_agent_checked_witness:
  "\<exists>w r d0 ss url rest. run_state (selfservice_reconcile demo_self_env demo_owner_lib demo_json demo_self_reconciler (''shop'', ''bot'')) []
       = ((no_requeue, None), EvSelf (VGet (''shop'', ''bot'') (Inr ss)) # rest @ [EvDeployment (VStore w r)] @ d0)
     \<and> agentPodSpec demo_self_reconciler ss url = Inr (d_template_spec w)"
proof -
  obtain es w mid y r where run: "run_state (selfservice_reconcile demo_self_env demo_owner_lib demo_json demo_self_reconciler (''shop'', ''bot'')) []
      = ((no_requeue, None), [] @ (EvSelf (VGet (''shop'', ''bot'') (Inr demo_self)) # es) @ [EvDeployment (VStore w (Inr demo_agent))]
         @ (mid @ [EvSelf (VPatchStatus False demo_self y r)]))"
    using demo_session_run by metis
  from selfservice_agent_checked [OF run] obtain url where "agentPodSpec demo_self_reconciler demo_self url = Inr (d_template_spec w)"
    by auto
  with run show ?thesis by auto
qed

text \<open>C32: A run of the SelfService reconciler that gets as far as a status writes it once, at the end, from the copy it
  read and for the generation it read. It writes the phase Ready only when the same run stored the agent's Deployment and the koptan
  Service, and the agent is suspended or the answer to the Deployment shows an available replica.\<close>

theorem selfservice_ready_evidence:
  assumes "run_state (selfservice_reconcile E L J R key) t = (out, t @ pre @ [EvSelf (VPatchStatus lock orig y r)] @ suf)"
  shows "\<exists>rest. pre = EvSelf (VGet key (Inr orig)) # rest \<and> \<not> lock \<and> suf = []
     \<and> ssst_observed_generation (self_status_of y) = m_generation (self_meta orig)
     \<and> (ssst_phase (self_status_of y) = SelfServicePhaseReady \<longrightarrow>
          (\<exists>w d v v'. EvDeployment (VStore w (Inr d)) \<in> set rest \<and> EvService (VStore v (Inr v')) \<in> set rest
             \<and> (sss_suspend (self_spec_of orig) \<or> d_available_replicas d > 0)))"
  using assms
proof (cases rule: run_selfservice_reconcile)
  case (read r')
  then show ?thesis by (auto simp: append_eq_Cons_conv Cons_eq_append_conv)
next
  case (finalizer s s' u)
  then show ?thesis by (auto simp: append_eq_Cons_conv Cons_eq_append_conv)
next
  case (body ss es)
  then obtain rest where rest: "pre = EvSelf (VGet key (Inr ss)) # rest" "es = rest @ [EvSelf (VPatchStatus lock orig y r)] @ suf"
    by (cases pre) auto
  from self_flow_status [OF body(3) rest(2)] obtain s' where
    s': "\<not> lock" "orig = ss" "suf = []" "y = observed s'" "same_self ss s'"
    "ssst_phase (self_status_of s') = SelfServicePhaseFailed \<or>
        (\<exists>url pre0 mid. rest = pre0 @ mid \<and> set_up L R ss url pre0 mid \<and> session_up ss mid s')" by blast
  have "ssst_observed_generation (self_status_of y) = m_generation (self_meta orig)"
    using s' same_self_names(4) [OF s'(5)] by simp
  moreover have "ssst_phase (self_status_of y) = SelfServicePhaseReady \<longrightarrow>
      (\<exists>w d v v'. EvDeployment (VStore w (Inr d)) \<in> set rest \<and> EvService (VStore v (Inr v')) \<in> set rest
         \<and> (sss_suspend (self_spec_of orig) \<or> d_available_replicas d > 0))"
  proof
    assume "ssst_phase (self_status_of y) = SelfServicePhaseReady"
    with s'(4,6) obtain pre0 mid where "rest = pre0 @ mid" "session_up ss mid s'" "ssst_phase (self_status_of s') = SelfServicePhaseReady"
      by auto
    then obtain w d v v' where "EvDeployment (VStore w (Inr d)) \<in> set rest" "EvService (VStore v (Inr v')) \<in> set rest"
      "sss_suspend (self_spec_of ss) \<or> d_available_replicas d > 0" unfolding session_up_def by auto
    then show "\<exists>w d v v'. EvDeployment (VStore w (Inr d)) \<in> set rest \<and> EvService (VStore v (Inr v')) \<in> set rest
       \<and> (sss_suspend (self_spec_of orig) \<or> d_available_replicas d > 0)"
      unfolding s'(2) by blast
  qed
  ultimately show ?thesis using s' rest(1) by simp
qed

theorem selfservice_ready_evidence_witness:
  "\<exists>pre y r w d. snd (run_state (selfservice_reconcile demo_self_env demo_owner_lib demo_json demo_self_reconciler (''shop'', ''bot'')) [])
       = pre @ [EvSelf (VPatchStatus False demo_self y r)] \<and> EvDeployment (VStore w (Inr d)) \<in> set pre \<and> d_available_replicas d > 0"
proof -
  obtain es w mid y r where run: "run_state (selfservice_reconcile demo_self_env demo_owner_lib demo_json demo_self_reconciler (''shop'', ''bot'')) []
      = ((no_requeue, None), [] @ (EvSelf (VGet (''shop'', ''bot'') (Inr demo_self)) # es @ [EvDeployment (VStore w (Inr demo_agent))] @ mid)
         @ [EvSelf (VPatchStatus False demo_self y r)] @ [])" and ready: "ssst_phase (self_status_of y) = SelfServicePhaseReady"
    by (rule demo_session_run) (simp add: that)
  have "\<not> sss_suspend (self_spec_of demo_self)" by (simp add: demo_self_def)
  with selfservice_ready_evidence [OF run] ready obtain w' d where
    "EvDeployment (VStore w' (Inr d)) \<in> set (es @ [EvDeployment (VStore w (Inr demo_agent))] @ mid)" "d_available_replicas d > 0"
    by auto
  then show ?thesis unfolding run by (intro exI conjI) auto
qed



text \<open>C34: When creating the repository of a changed spec fails, the status keeps the URL of the repository used so far and
  still records the new generation as observed. So the next run, which \<^verbatim>\<open>ensureRepo\<close> takes for a repository already
  created, goes on with the old repository without asking the host.\<close>

theorem failed_creation_falls_back:
  assumes key: "ssr_agent_key R \<noteq> ''''"
    and create: "sr_existing (sss_repo (self_spec_of ss)) = None" "sr_create (sss_repo (self_spec_of ss)) = Some c"
    and used: "ssst_repo_url (self_status_of ss) = old" "old \<noteq> ''''"
    and checked: "run_state (checkSecrets E R ss) t = (None, t1)"
    and failed: "run_state (createRepo E L J R ss c) t1 = (Inl err, t2)" "err_class err \<noteq> ErrPanic"
    and changed: "ssst_observed_generation (self_status_of ss) \<noteq> m_generation (self_meta ss)"
  shows "\<exists>out y r. run_state (selfservice_body E L J R ss) t = (out, t2 @ [EvSelf (VPatchStatus False ss y r)])
     \<and> ssst_phase (self_status_of y) = SelfServicePhaseFailed \<and> (\<forall>E J. ensureRepo E L J R y = ret (Inr old))"
proof -
  have repo: "ensureRepo E L J R ss = createRepo E L J R ss c"
    using create used changed by (simp add: ensureRepo_def)
  let ?s = "setSelfServiceCondition L (env_now E t2) ''RepoReady'' ConditionFalse ''RepoUnavailable'' (err_msg err) ss"
  have prov: "run_state (provision E L J R ss) t = ((?s, Inl err), t2)"
    using key checked failed(1) unfolding provision_def repo by simp
  let ?y = "observed (markSelfServiceFailed L (env_now E t2) err ?s)"
  have "ensureRepo E' L J' R ?y = ret (Inr old)" for E' J'
    unfolding ensureRepo_def observed_def setSelfServicePhase_def markSelfServiceFailed_def setSelfServiceCondition_def
    using create used by simp
  moreover have "ssst_phase (self_status_of ?y) = SelfServicePhaseFailed" by simp
  moreover have "\<exists>out r. run_state (selfservice_body E L J R ss) t = (out, t2 @ [EvSelf (VPatchStatus False ss ?y r)])"
    using prov failed(2) unfolding selfservice_body_def by (simp add: k_defs)
  ultimately show ?thesis by blast
qed

definition demo_renamed :: selfservice where
  \<comment> \<open>the spec now asks for a new repository\<close>
  "demo_renamed = demo_self\<lparr>self_spec_of := (self_spec_of demo_self)\<lparr>sss_repo := \<lparr>sr_existing = None,
       sr_create = Some \<lparr>cr_provider = ''github'', cr_owner = [], cr_name = ''bot2'', cr_private = None, cr_base_url = [],
         cr_token_secret_ref = \<lparr>sk_name = ''git'', sk_key = ''token'', sk_optional = None\<rparr>\<rparr>\<rparr>\<rparr>,
     self_status_of := (self_status_of demo_self)\<lparr>ssst_repo_url := ''https://git.example/shop/bot'', ssst_observed_generation := 1\<rparr>\<rparr>"

theorem failed_creation_falls_back_witness:
  "\<exists>y. ssst_phase (self_status_of y) = SelfServicePhaseFailed
     \<and> (\<forall>E J. ensureRepo E demo_owner_lib J demo_self_reconciler y = ret (Inr ''https://git.example/shop/bot''))"
proof -
  let ?c = "\<lparr>cr_provider = ''github'', cr_owner = [], cr_name = ''bot2'', cr_private = None, cr_base_url = [],
     cr_token_secret_ref = \<lparr>sk_name = ''git'', sk_key = ''token'', sk_optional = None\<rparr>\<rparr>"
  let ?read = "EvSecret (VGet (''shop'', ''git'') (Inr demo_credentials))"
  have allowed: "check_secret \<lparr>sp_allow_unlabeled = False\<rparr> demo_credentials = None"
    by (simp add: demo_credentials_def label_def)
  have "run_state (get_secret \<lparr>sp_allow_unlabeled = False\<rparr> (k_get demo_self_env secrets) ''shop'' ''git'') t
      = (Inr demo_credentials, t @ [?read])" for t
    using allowed by (simp add: get_secret_def k_defs demo_self_env_def env_ref_def kapi_ref_def del: check_secret_None)
  note runs = this
  have checked: "run_state (checkSecrets demo_self_env demo_self_reconciler demo_renamed) [] = (None, [?read])"
    using runs by (simp add: checkSecrets_def gitSecretRef_def demo_renamed_def demo_self_def fresh_meta_def demo_self_reconciler_def)
  have failed: "\<exists>err. run_state (createRepo demo_self_env demo_owner_lib demo_json demo_self_reconciler demo_renamed ?c) [?read]
      = (Inl err, [?read, ?read]) \<and> err_class err \<noteq> ErrPanic"
    using runs by (simp add: createRepo_def SelfServiceCtrl.secretValue_def demo_renamed_def demo_self_def fresh_meta_def
        demo_self_reconciler_def demo_credentials_def errorf_def)
  then obtain err where "run_state (createRepo demo_self_env demo_owner_lib demo_json demo_self_reconciler demo_renamed ?c) [?read]
      = (Inl err, [?read, ?read])" "err_class err \<noteq> ErrPanic" by blast
  note f = this
  have "ssr_agent_key demo_self_reconciler \<noteq> []" "sr_existing (sss_repo (self_spec_of demo_renamed)) = None"
    "sr_create (sss_repo (self_spec_of demo_renamed)) = Some ?c"
    "ssst_repo_url (self_status_of demo_renamed) = ''https://git.example/shop/bot''" "''https://git.example/shop/bot'' \<noteq> []"
    "ssst_observed_generation (self_status_of demo_renamed) \<noteq> m_generation (self_meta demo_renamed)"
    by (simp_all add: demo_renamed_def demo_self_def demo_self_reconciler_def fresh_meta_def)
  from failed_creation_falls_back [OF this(1-5) checked f this(6)] show ?thesis by blast
qed

end
