(* ===== verification/Search.thy ===== *)
theory Search
  imports Regexps
begin

text \<open>
  Searching with the unanchored regular expressions of \<^verbatim>\<open>internal/service/languages\<close>: Go's package
  \<^verbatim>\<open>regexp\<close> returns the leftmost match, of those the one a backtracking matcher finds first, and the
  texts its groups matched. \<open>ways\<close> lists the matches at a position in that order; \<open>find_submatch\<close>
  takes the first one at the first position that has any. Every class of the patterns holds either
  all bytes from 128 up or none, so matching bytes and matching runes agree. The lemmas relate the
  matches to the language of the pattern (theory \<open>Regexps\<close>) and say what the groups can hold.
\<close>

section \<open>Patterns and positions\<close>

datatype pat =
    PCls "char \<Rightarrow> bool"
  | PSeq pat pat
  | PAlt pat pat
  | PStar bool pat  \<comment> \<open>\<open>r*\<close>, or \<open>r*?\<close> for \<open>False\<close>\<close>
  | PEmpty
  | PGroup pat
  | PBol  \<comment> \<open>\<open>^\<close> under the flag \<open>m\<close>\<close>
  | PWord  \<comment> \<open>\<open>\\b\<close>\<close>

text \<open>A position: the character before it, if any, and the text after it.\<close>

type_synonym pos = "char option \<times> string"

definition word_char :: "char \<Rightarrow> bool" where
  "word_char c \<longleftrightarrow> is_alnum c \<or> c = CHR ''_''"

fun line_start :: "pos \<Rightarrow> bool" where
  "line_start (None, s) = True"
| "line_start (Some c, s) = (c = CHR 0x0A)"

definition word_boundary :: "pos \<Rightarrow> bool" where
  "word_boundary p = ((case fst p of None \<Rightarrow> False | Some c \<Rightarrow> word_char c)
     \<noteq> (case snd p of [] \<Rightarrow> False | c # _ \<Rightarrow> word_char c))"

section \<open>All matches at a position\<close>

type_synonym way = "pos \<times> string list"

definition chain :: "(pos \<Rightarrow> way list) \<Rightarrow> way list \<Rightarrow> way list" where
  \<comment> \<open>each way continued by \<open>f\<close>; the groups of the first part come first\<close>
  "chain f ws = concat (map (\<lambda>(q, cs). map (\<lambda>(q', cs'). (q', cs @ cs')) (f q)) ws)"

primrec iterations :: "bool \<Rightarrow> (pos \<Rightarrow> way list) \<Rightarrow> nat \<Rightarrow> pos \<Rightarrow> way list" where
  \<comment> \<open>a loop ends when its body matches nothing more; \<open>n\<close> bounds the rounds by the length of the text\<close>
  "iterations greedy f 0 p = [(p, [])]"
| "iterations greedy f (Suc n) p =
     (let more = chain (iterations greedy f n) (filter (\<lambda>(q, cs). length (snd q) < length (snd p)) (f p))
      in if greedy then more @ [(p, [])] else (p, []) # more)"

primrec ways :: "pat \<Rightarrow> pos \<Rightarrow> way list" where
  "ways (PCls c) p = (case snd p of [] \<Rightarrow> [] | x # s \<Rightarrow> if c x then [((Some x, s), [])] else [])"
| "ways (PSeq r q) p = chain (ways q) (ways r p)"
| "ways (PAlt r q) p = ways r p @ ways q p"
| "ways (PStar greedy r) p = iterations greedy (ways r) (length (snd p)) p"
| "ways PEmpty p = [(p, [])]"
| "ways (PGroup r) p = map (\<lambda>(q, cs). (q, take (length (snd p) - length (snd q)) (snd p) # cs)) (ways r p)"
| "ways PBol p = (if line_start p then [(p, [])] else [])"
| "ways PWord p = (if word_boundary p then [(p, [])] else [])"

section \<open>The first match\<close>

fun search :: "pat \<Rightarrow> char option \<Rightarrow> string \<Rightarrow> (string \<times> string list) option" where
  "search r b s = (case ways r (b, s) of
       (q, cs) # _ \<Rightarrow> Some (take (length s - length (snd q)) s, cs)
     | [] \<Rightarrow> (case s of [] \<Rightarrow> None | c # s' \<Rightarrow> search r (Some c) s'))"

declare search.simps [simp del]

definition find_submatch :: "pat \<Rightarrow> string \<Rightarrow> (string \<times> string list) option" where
  \<comment> \<open>\<^verbatim>\<open>FindStringSubmatch\<close>: the match and its groups\<close>
  "find_submatch r s = search r None s"

definition match_string :: "pat \<Rightarrow> string \<Rightarrow> bool" where
  "match_string r s \<longleftrightarrow> find_submatch r s \<noteq> None"

definition find_string :: "pat \<Rightarrow> string \<Rightarrow> string" where
  "find_string r s = (case find_submatch r s of None \<Rightarrow> '''' | Some (m, _) \<Rightarrow> m)"

section \<open>Notation of the patterns\<close>

abbreviation PSome :: "pat \<Rightarrow> pat" where "PSome r \<equiv> PSeq r (PStar True r)"  \<comment> \<open>\<open>r+\<close>\<close>
abbreviation PMany :: "pat \<Rightarrow> pat" where "PMany r \<equiv> PStar True r"
abbreviation POpt :: "pat \<Rightarrow> pat" where "POpt r \<equiv> PAlt r PEmpty"  \<comment> \<open>\<open>r?\<close>\<close>

fun lit :: "string \<Rightarrow> pat" where
  "lit [] = PEmpty"
| "lit (c # s) = PSeq (PCls (\<lambda>x. x = c)) (lit s)"

fun seq :: "pat list \<Rightarrow> pat" where
  "seq [] = PEmpty"
| "seq (r # rs) = PSeq r (seq rs)"

definition re_space :: "char \<Rightarrow> bool" where
  \<comment> \<open>\<open>\\s\<close>\<close>
  "re_space c \<longleftrightarrow> c \<in> {CHR 0x09, CHR 0x0A, CHR 0x0C, CHR 0x0D, CHR '' ''}"

definition PSpaces :: pat where "PSpaces = PMany (PCls re_space)"  \<comment> \<open>\<open>\\s*\<close>\<close>

section \<open>The language of a pattern\<close>

primrec plain :: "pat \<Rightarrow> rexp" where
  \<comment> \<open>without groups and assertions\<close>
  "plain (PCls c) = Cls c"
| "plain (PSeq r q) = Sq (plain r) (plain q)"
| "plain (PAlt r q) = Alt (plain r) (plain q)"
| "plain (PStar g r) = Many (plain r)"
| "plain PEmpty = Blank"
| "plain (PGroup r) = plain r"
| "plain PBol = Blank"
| "plain PWord = Blank"

primrec assertion_free :: "pat \<Rightarrow> bool" where
  "assertion_free (PCls c) = True"
| "assertion_free (PSeq r q) = (assertion_free r \<and> assertion_free q)"
| "assertion_free (PAlt r q) = (assertion_free r \<and> assertion_free q)"
| "assertion_free (PStar g r) = assertion_free r"
| "assertion_free PEmpty = True"
| "assertion_free (PGroup r) = assertion_free r"
| "assertion_free PBol = False"
| "assertion_free PWord = False"

definition reads_lang :: "string set \<Rightarrow> (pos \<Rightarrow> way list) \<Rightarrow> bool" where
  "reads_lang A f \<longleftrightarrow> (\<forall>p q cs. (q, cs) \<in> set (f p) \<longrightarrow> (\<exists>w\<in>A. snd p = w @ snd q))"

lemma reads_langD: "reads_lang A f \<Longrightarrow> (q, cs) \<in> set (f p) \<Longrightarrow> \<exists>w\<in>A. snd p = w @ snd q"
  unfolding reads_lang_def by blast

lemma in_chain: "(q', cs') \<in> set (chain f ws) \<longleftrightarrow> (\<exists>q cs ds. (q, cs) \<in> set ws \<and> (q', ds) \<in> set (f q) \<and> cs' = cs @ ds)"
  by (force simp: chain_def)

lemma reads_iterations: "reads_lang A f \<Longrightarrow> reads_lang (repeats A) (iterations g f n)"
proof (induction n)
  case 0
  show ?case by (auto simp: reads_lang_def intro: repeats.none)
next
  case (Suc n)
  have "\<exists>w\<in>repeats A. snd p = w @ snd q" if way: "(q, cs) \<in> set (iterations g f (Suc n) p)" for p q cs
  proof (cases "q = p \<and> cs = []")
    case True
    then show ?thesis using repeats.none by auto
  next
    case False
    with way obtain q1 cs1 ds where "(q1, cs1) \<in> set (f p)" "(q, ds) \<in> set (iterations g f n q1)"
      by (auto simp: Let_def in_chain split: if_splits)
    from reads_langD [OF Suc.prems this(1)] reads_langD [OF Suc.IH [OF Suc.prems] this(2)]
    obtain u v where "u \<in> A" "v \<in> repeats A" "snd p = u @ snd q1" "snd q1 = v @ snd q" by blast
    then have "u @ v \<in> repeats A" "snd p = (u @ v) @ snd q" by (auto intro: repeats.more)
    then show ?thesis by blast
  qed
  then show ?case unfolding reads_lang_def by blast
qed

lemma ways_language: "reads_lang (language (plain r)) (ways r)"
proof (induction r)
  case (PSeq r q)
  show ?case unfolding reads_lang_def
  proof (intro allI impI)
    fix p q' cs assume "(q', cs) \<in> set (ways (PSeq r q) p)"
    then obtain q1 cs1 ds where "(q1, cs1) \<in> set (ways r p)" "(q', ds) \<in> set (ways q q1)" by (auto simp: in_chain)
    from reads_langD [OF PSeq(1) this(1)] reads_langD [OF PSeq(2) this(2)]
    show "\<exists>w\<in>language (plain (PSeq r q)). snd p = w @ snd q'" by force
  qed
next
  case (PAlt r q)
  then show ?case unfolding reads_lang_def by fastforce
next
  case (PStar g r)
  from reads_iterations [OF PStar] show ?case unfolding reads_lang_def by auto
next
  case (PGroup r)
  then show ?case unfolding reads_lang_def by fastforce
qed (auto simp: reads_lang_def split: list.splits if_splits)

definition reads_all :: "string set \<Rightarrow> (pos \<Rightarrow> way list) \<Rightarrow> bool" where
  "reads_all A f \<longleftrightarrow> (\<forall>w\<in>A. \<forall>b s. \<exists>b' cs. ((b', s), cs) \<in> set (f (b, w @ s)))"

lemma reads_allD: "reads_all A f \<Longrightarrow> w \<in> A \<Longrightarrow> \<exists>b' cs. ((b', s), cs) \<in> set (f (b, w @ s))"
  unfolding reads_all_def by blast

lemma repeats_pieces: "w \<in> repeats A \<Longrightarrow> w = [] \<or> (\<exists>u v. w = u @ v \<and> u \<in> A \<and> u \<noteq> [] \<and> v \<in> repeats A)"
  by (induction rule: repeats.induct) (metis append_Nil)+

lemma all_iterations:
  assumes "reads_all A f" "w \<in> repeats A" "length w \<le> n"
  shows "\<exists>b' cs. ((b', s), cs) \<in> set (iterations g f n (b, w @ s))"
  using assms(2,3)
proof (induction n arbitrary: w b)
  case 0
  then show ?case by auto
next
  case (Suc n)
  show ?case
  proof (cases "w = []")
    case True
    then show ?thesis by (auto simp: Let_def)
  next
    case False
    with repeats_pieces [OF Suc.prems(1)] obtain u v where uv: "w = u @ v" "u \<in> A" "u \<noteq> []" "v \<in> repeats A" by blast
    from reads_allD [OF assms(1) uv(2)] obtain b1 cs1 where one: "((b1, v @ s), cs1) \<in> set (f (b, u @ v @ s))" by blast
    have "length v \<le> n" using uv Suc.prems(2) by (cases u) auto
    from Suc.IH [OF uv(4) this] obtain b' cs where "((b', s), cs) \<in> set (iterations g f n (b1, v @ s))" by blast
    with one uv have "((b', s), cs1 @ cs) \<in> set (chain (iterations g f n)
        (filter (\<lambda>(q, cs). length (snd q) < length (snd (b, w @ s))) (f (b, w @ s))))"
      unfolding in_chain by fastforce
    then show ?thesis by (cases g; simp add: Let_def; blast)
  qed
qed

lemma ways_complete: "assertion_free r \<Longrightarrow> reads_all (language (plain r)) (ways r)"
proof (induction r)
  case (PSeq r q)
  show ?case unfolding reads_all_def
  proof (intro ballI allI)
    fix w b s assume "w \<in> language (plain (PSeq r q))"
    then obtain u v where uv: "w = u @ v" "u \<in> language (plain r)" "v \<in> language (plain q)" by auto
    from PSeq.prems have "reads_all (language (plain r)) (ways r)" "reads_all (language (plain q)) (ways q)"
      using PSeq.IH by simp_all
    from reads_allD [OF this(1) uv(2), of "v @ s" b] reads_allD [OF this(2) uv(3), of s]
    show "\<exists>b' cs. ((b', s), cs) \<in> set (ways (PSeq r q) (b, w @ s))" unfolding uv(1) by (fastforce simp: in_chain)
  qed
next
  case (PStar g r)
  then have "reads_all (language (plain r)) (ways r)" by simp
  from all_iterations [OF this] show ?case unfolding reads_all_def by auto
next
  case (PGroup r)
  then show ?case unfolding reads_all_def by fastforce
next
  case (PAlt r q)
  then show ?case unfolding reads_all_def by fastforce
qed (auto simp: reads_all_def split: list.splits)

section \<open>What a search finds\<close>

lemma search_Some:
  assumes "search r b s = Some (m, cs)"
  shows "\<exists>u v b' q. s = u @ m @ v \<and> (q, cs) \<in> set (ways r (b', m @ v)) \<and> snd q = v"
  using assms
proof (induction s arbitrary: b)
  case Nil
  then obtain q ws where w: "ways r (b, []) = (q, cs) # ws" "m = []"
    by (auto simp: search.simps split: list.splits)
  then have "(q, cs) \<in> set (ways r (b, []))" by simp
  moreover from reads_langD [OF ways_language this] have "snd q = []" by auto
  ultimately show ?case using w(2) by (cases q) auto
next
  case (Cons c s)
  show ?case
  proof (cases "ways r (b, c # s)")
    case Nil
    with Cons.prems have "search r (Some c) s = Some (m, cs)" by (simp add: search.simps)
    from Cons.IH [OF this] show ?thesis by (metis append_Cons)
  next
    case (Cons way ws)
    then obtain q where w: "way = (q, cs)" "m = take (length (c # s) - length (snd q)) (c # s)"
      using Cons.prems by (cases way) (auto simp: search.simps)
    have mem: "(q, cs) \<in> set (ways r (b, c # s))" using Cons w(1) by simp
    from reads_langD [OF ways_language this] obtain w' where w': "c # s = w' @ snd q" by auto
    then have "m = w'" using w(2) by (metis append_eq_conv_conj length_append diff_add_inverse2)
    then show ?thesis
      by (intro exI [of _ "[]"] exI [of _ "snd q"] exI [of _ b] exI [of _ q]) (use w' mem in simp)
  qed
qed

lemma search_language: "search r b s = Some (m, cs) \<Longrightarrow> m \<in> language (plain r)"
proof (drule search_Some, elim exE conjE)
  fix u v b' q assume "(q, cs) \<in> set (ways r (b', m @ v))" "snd q = v"
  from reads_langD [OF ways_language this(1)] this(2) show ?thesis by auto
qed

lemma search_None: "search r b s = None \<Longrightarrow> ways r (b, s) = [] \<and> (\<forall>u c v. s = u @ c # v \<longrightarrow> ways r (Some c, v) = [])"
proof (induction s arbitrary: b)
  case Nil
  then show ?case by (auto simp: search.simps split: list.splits)
next
  case (Cons c s)
  then have "ways r (b, c # s) = []" "search r (Some c) s = None"
    by (auto simp: search.simps [of r b "c # s"] split: list.splits)
  with Cons.IH [OF this(2)] show ?case by (auto simp: Cons_eq_append_conv)
qed

text \<open>Without assertions, a pattern matches exactly when some part of the text is in its language.\<close>

lemma match_string_iff:
  assumes "assertion_free r"
  shows "match_string r s \<longleftrightarrow> (\<exists>u m v. s = u @ m @ v \<and> m \<in> language (plain r))"
proof
  assume "match_string r s"
  then obtain m cs where f: "search r None s = Some (m, cs)"
    unfolding match_string_def find_submatch_def by (cases "search r None s") auto
  from search_Some [OF f] search_language [OF f] show "\<exists>u m v. s = u @ m @ v \<and> m \<in> language (plain r)" by blast
next
  assume "\<exists>u m v. s = u @ m @ v \<and> m \<in> language (plain r)"
  then obtain u m v where s: "s = u @ m @ v" "m \<in> language (plain r)" by blast
  have some: "ways r (b, m @ v) \<noteq> []" for b
    using reads_allD [OF ways_complete [OF assms] s(2), of v b] by auto
  have "search r None s \<noteq> None"
  proof
    assume "search r None s = None"
    from search_None [OF this] some s(1) show False by (cases u rule: rev_cases) auto
  qed
  then show "match_string r s" by (simp add: match_string_def find_submatch_def)
qed

section \<open>Groups\<close>

text \<open>The groups of a pattern whose loops and alternatives have none.\<close>

primrec group_pats :: "pat \<Rightarrow> pat list" where
  "group_pats (PCls c) = []"
| "group_pats (PSeq r q) = group_pats r @ group_pats q"
| "group_pats (PAlt r q) = group_pats r @ group_pats q"
| "group_pats (PStar g r) = group_pats r"
| "group_pats PEmpty = []"
| "group_pats (PGroup r) = r # group_pats r"
| "group_pats PBol = []"
| "group_pats PWord = []"

primrec flat_groups :: "pat \<Rightarrow> bool" where
  "flat_groups (PCls c) = True"
| "flat_groups (PSeq r q) = (flat_groups r \<and> flat_groups q)"
| "flat_groups (PAlt r q) = (group_pats r = [] \<and> group_pats q = [] \<and> flat_groups r \<and> flat_groups q)"
| "flat_groups (PStar g r) = (group_pats r = [] \<and> flat_groups r)"
| "flat_groups PEmpty = True"
| "flat_groups (PGroup r) = flat_groups r"
| "flat_groups PBol = True"
| "flat_groups PWord = True"

definition group_of :: "string \<Rightarrow> pat \<Rightarrow> bool" where
  "group_of c r \<longleftrightarrow> c \<in> language (plain r)"

lemma iterations_no_groups:
  assumes "\<And>p q cs. (q, cs) \<in> set (f p) \<Longrightarrow> cs = []"
  shows "(q, cs) \<in> set (iterations g f n p) \<Longrightarrow> cs = []"
proof (induction n arbitrary: p q cs)
  case (Suc n)
  show ?case
  proof (rule ccontr)
    assume "cs \<noteq> []"
    with Suc.prems have "(q, cs) \<in> set (chain (iterations g f n) (filter (\<lambda>(q, cs). length (snd q) < length (snd p)) (f p)))"
      by (auto simp: Let_def split: if_splits)
    then obtain q1 cs1 ds where "(q1, cs1) \<in> set (f p)" "(q, ds) \<in> set (iterations g f n q1)" "cs = cs1 @ ds"
      by (force simp: in_chain)
    with assms Suc.IH \<open>cs \<noteq> []\<close> show False by blast
  qed
qed simp

lemma ways_groups: "flat_groups r \<Longrightarrow> (q, cs) \<in> set (ways r p) \<Longrightarrow> list_all2 group_of cs (group_pats r)"
proof (induction r arbitrary: p q cs)
  case (PSeq r1 r2)
  from PSeq.prems(2) obtain q1 cs1 ds where "(q1, cs1) \<in> set (ways r1 p)" "(q, ds) \<in> set (ways r2 q1)" "cs = cs1 @ ds"
    by (auto simp: in_chain)
  with PSeq.IH(1) [of q1 cs1 p] PSeq.IH(2) [of q ds q1] PSeq.prems(1) show ?case by (simp add: list_all2_appendI)
next
  case (PAlt r1 r2)
  with PAlt.IH(1) [of q cs p] PAlt.IH(2) [of q cs p] show ?case by (simp del: split_paired_All) blast
next
  case (PStar g r)
  have "cs = []" if "(q, cs) \<in> set (ways r p)" for p q cs using PStar.IH [OF _ that] PStar.prems(1) by simp
  from iterations_no_groups [OF this] PStar.prems show ?case by auto
next
  case (PGroup r)
  then obtain ds where ds: "(q, ds) \<in> set (ways r p)" "cs = take (length (snd p) - length (snd q)) (snd p) # ds" by auto
  from reads_langD [OF ways_language ds(1)] obtain w where "w \<in> language (plain r)" "snd p = w @ snd q" by blast
  with PGroup.IH [OF _ ds(1)] PGroup.prems(1) ds(2) show ?case by (simp add: group_of_def)
qed (auto split: list.splits if_splits)

lemma find_groups:
  "flat_groups r \<Longrightarrow> find_submatch r s = Some (m, cs) \<Longrightarrow> list_all2 group_of cs (group_pats r)"
  using search_Some ways_groups unfolding find_submatch_def by blast

lemma group_of_class [simp]: "group_of c (PSome (PCls p)) \<longleftrightarrow> c \<noteq> [] \<and> list_all p c"
proof -
  have "c \<in> language (Sq (Cls p) (Many (Cls p))) \<longleftrightarrow> c \<noteq> [] \<and> list_all p c"
  proof (cases c)
    case (Cons x xs)
    then show ?thesis using sq_cls_Cons [of x xs p "Many (Cls p)"] many_cls [of xs p] by simp
  qed (use sq_cls_Nil in blast)
  then show ?thesis by (simp add: group_of_def)
qed

section \<open>Runs of a class\<close>

text \<open>The greedy loop over a class reads all of its characters first.\<close>

lemma ways_class: "ways (PCls c) (b, x # s) = (if c x then [((Some x, s), [])] else [])" "ways (PCls c) (b, []) = []"
  by simp_all

lemma ways_run_first:
  "\<exists>q ws. iterations True (ways (PCls c)) (length s) (b, s) = ((q, dropWhile c s), []) # ws"
proof (induction s arbitrary: b)
  case (Cons x s)
  obtain q ws where run: "iterations True (ways (PCls c)) (length s) (Some x, s) = ((q, dropWhile c s), []) # ws"
    using Cons.IH [of "Some x"] by blast
  then show ?case
    by (cases "c x") (simp_all add: Let_def chain_def ways_class del: ways.simps)
qed simp

lemma find_run: "find_string (PSome (PCls c)) s = takeWhile c (dropWhile (\<lambda>x. \<not> c x) s)"
proof -
  have "search (PSome (PCls c)) b s = (if takeWhile c (dropWhile (\<lambda>x. \<not> c x) s) = [] then None
      else Some (takeWhile c (dropWhile (\<lambda>x. \<not> c x) s), []))" for b
  proof (induction s arbitrary: b)
    case Nil
    show ?case by (simp add: search.simps chain_def)
  next
    case (Cons x s)
    show ?case
    proof (cases "c x")
      case True
      obtain q ws where run: "iterations True (ways (PCls c)) (length s) (Some x, s) = ((q, dropWhile c s), []) # ws"
        using ways_run_first by blast
      have "ways (PSome (PCls c)) (b, x # s) = ((q, dropWhile c s), []) # ws"
        using True by (simp add: ways.simps(2,4) ways_class chain_def run del: ways.simps(1))
      then have "search (PSome (PCls c)) b (x # s) = Some (take (length (x # s) - length (dropWhile c s)) (x # s), [])"
        by (simp add: search.simps [of _ b] del: ways.simps)
      moreover have "take (length (x # s) - length (dropWhile c s)) (x # s) = x # takeWhile c s"
      proof -
        have "x # s = (x # takeWhile c s) @ dropWhile c s" by simp
        then show ?thesis by (metis append_eq_conv_conj length_append add_diff_cancel_right')
      qed
      ultimately show ?thesis using True by simp
    next
      case False
      then have "ways (PSome (PCls c)) (b, x # s) = []" by (simp add: chain_def)
      with Cons.IH [of "Some x"] False show ?thesis by (simp add: search.simps [of _ b] del: ways.simps)
    qed
  qed
  then show ?thesis by (simp add: find_string_def find_submatch_def)
qed

end
