(* ===== verification/RepoFS.thy ===== *)
theory RepoFS
  imports Kube
begin

text \<open>
  Package \<^verbatim>\<open>internal/service/repofs\<close>: the read-only view of a cloned repository through which
  every language detector reads it. What the operating system answers is a parameter, the record
  \<open>os\<close>; the operations of the view are those of \<^verbatim>\<open>repofs.go\<close>, with the functions of Go's
  packages \<^verbatim>\<open>path\<close> and \<^verbatim>\<open>bufio\<close> they use. The lemmas at the end show that nothing outside the
  root of a view can change what its operations return when they succeed, or that they succeed.
\<close>

section \<open>Paths\<close>

fun clean_step :: "bool \<Rightarrow> string list \<Rightarrow> string \<Rightarrow> string list" where
  \<comment> \<open>one segment in \<^verbatim>\<open>path.Clean\<close>, on the segments kept so far (last one first)\<close>
  "clean_step rooted kept seg =
     (if seg = '''' \<or> seg = ''.'' then kept
      else if seg = ''..'' then
        (case kept of [] \<Rightarrow> if rooted then [] else [''..'']
         | t # rest \<Rightarrow> if t = ''..'' then ''..'' # kept else rest)
      else seg # kept)"

definition path_clean :: "string \<Rightarrow> string" where
  \<comment> \<open>\<^verbatim>\<open>path.Clean\<close>\<close>
  "path_clean p =
     (let rooted = has_prefix p ''/'';
          segs = rev (foldl (clean_step rooted) [] (split_on CHR ''/'' p))
      in if rooted then ''/'' @ join segs ''/'' else if segs = [] then ''.'' else join segs ''/'')"

definition path_join :: "string list \<Rightarrow> string" where
  \<comment> \<open>\<^verbatim>\<open>path.Join\<close>\<close>
  "path_join elems = (let es = filter (\<lambda>e. e \<noteq> '''') elems in if es = [] then '''' else path_clean (join es ''/''))"

definition path_base :: "string \<Rightarrow> string" where
  \<comment> \<open>\<^verbatim>\<open>path.Base\<close>\<close>
  "path_base p = (if p = '''' then ''.''
     else let q = rev (dropWhile (\<lambda>c. c = CHR ''/'') (rev p));
              b = (case last_segment q CHR ''/'' of None \<Rightarrow> q | Some b \<Rightarrow> b)
          in if b = '''' then ''/'' else b)"

fun path_match :: "string \<Rightarrow> string \<Rightarrow> bool" where
  \<comment> \<open>\<^verbatim>\<open>path.Match\<close> for patterns of \<open>*\<close> and literal characters, the ones in use\<close>
  "path_match [] s = (s = [])"
| "path_match (p # ps) [] = (p = CHR ''*'' \<and> path_match ps [])"
| "path_match (p # ps) (c # s) =
     (if p = CHR ''*'' then path_match ps (c # s) \<or> (c \<noteq> CHR ''/'' \<and> path_match (p # ps) s)
      else c = p \<and> path_match ps s)"

section \<open>Lines\<close>

definition max_token :: nat where
  \<comment> \<open>\<^verbatim>\<open>bufio.MaxScanTokenSize\<close>\<close>
  "max_token = 65536"

definition drop_cr :: "string \<Rightarrow> string" where
  "drop_cr l = trim_suffix l [CHR 0x0D]"

definition scan_lines :: "string \<Rightarrow> string list" where
  \<comment> \<open>the lines \<^verbatim>\<open>bufio.Scanner\<close> yields: it stops, silently, at a line that does not fit its buffer\<close>
  "scan_lines s =
     (let ls = split_on CHR 0x0A s; ls = (if last ls = '''' then butlast ls else ls)
      in map drop_cr (takeWhile (\<lambda>l. length l < max_token) ls))"

section \<open>The operating system\<close>

text \<open>
  \<open>os_real\<close> is \<^verbatim>\<open>filepath.EvalSymlinks\<close>, \<open>os_is_dir\<close> is \<^verbatim>\<open>os.Stat\<close> with \<^verbatim>\<open>IsDir\<close>, \<open>os_read\<close> opens a
  file and reads all of it, \<open>os_entries\<close> is \<^verbatim>\<open>os.ReadDir\<close> with each entry's name and \<^verbatim>\<open>IsDir\<close>.
  The clone does not change while it is read.
\<close>

record os =
  os_real :: "string \<Rightarrow> gerror + string"
  os_is_dir :: "string \<Rightarrow> gerror + bool"
  os_read :: "string \<Rightarrow> gerror + string"
  os_entries :: "string \<Rightarrow> gerror + (string \<times> bool) list"

section \<open>The view\<close>

definition MaxFileSize :: nat where "MaxFileSize = 1048576"

definition ErrOutside :: gerror where "ErrOutside = errorf ''path is outside the repository''"

record fs =
  fs_os :: os
  fs_root :: string

definition new_fs :: "os \<Rightarrow> string \<Rightarrow> gerror + fs" where
  \<comment> \<open>\<^verbatim>\<open>New\<close>\<close>
  "new_fs S dir = (case os_real S dir of
       Inl err \<Rightarrow> Inl err
     | Inr real \<Rightarrow> (case os_is_dir S real of
         Inl err \<Rightarrow> Inl err
       | Inr d \<Rightarrow> if \<not> d then Inl (errorf (dir @ '' is not a directory'')) else Inr \<lparr>fs_os = S, fs_root = real\<rparr>))"

definition full_path :: "string \<Rightarrow> string \<Rightarrow> string" where
  "full_path root rel = path_join [root, path_clean (''/'' @ rel)]"

definition inside :: "string \<Rightarrow> string \<Rightarrow> bool" where
  "inside root p \<longleftrightarrow> p = root \<or> has_prefix p (root @ ''/'')"

definition resolve :: "fs \<Rightarrow> string \<Rightarrow> gerror + string" where
  "resolve f rel = (case os_real (fs_os f) (full_path (fs_root f) rel) of
       Inl err \<Rightarrow> Inl err
     | Inr real \<Rightarrow> if \<not> inside (fs_root f) real then Inl ErrOutside else Inr real)"

definition Sub :: "fs \<Rightarrow> string \<Rightarrow> gerror + fs" where
  "Sub f rel = (case resolve f rel of Inl err \<Rightarrow> Inl err | Inr p \<Rightarrow> new_fs (fs_os f) p)"

definition Exists :: "fs \<Rightarrow> string \<Rightarrow> bool" where
  "Exists f rel = (case resolve f rel of Inl _ \<Rightarrow> False | Inr _ \<Rightarrow> True)"

definition IsDir :: "fs \<Rightarrow> string \<Rightarrow> bool" where
  "IsDir f rel = (case resolve f rel of Inl _ \<Rightarrow> False
     | Inr p \<Rightarrow> (case os_is_dir (fs_os f) p of Inl _ \<Rightarrow> False | Inr d \<Rightarrow> d))"

definition ReadFile :: "fs \<Rightarrow> string \<Rightarrow> gerror + string" where
  \<comment> \<open>\<^verbatim>\<open>Read\<close>\<close>
  "ReadFile f rel = (case resolve f rel of Inl err \<Rightarrow> Inl err
     | Inr p \<Rightarrow> (case os_read (fs_os f) p of Inl err \<Rightarrow> Inl err
       | Inr content \<Rightarrow>
           let data = take (MaxFileSize + 1) content in
           if length data > MaxFileSize
           then Inl (errorf (rel @ '' is larger than '' @ fmt_d (int MaxFileSize) @ '' bytes'')) else Inr data))"

definition ReadString :: "fs \<Rightarrow> string \<Rightarrow> string" where
  "ReadString f rel = (case ReadFile f rel of Inl _ \<Rightarrow> '''' | Inr data \<Rightarrow> data)"

definition ReadJSON :: "fs \<Rightarrow> (string \<Rightarrow> 'v option) \<Rightarrow> string \<Rightarrow> 'v option" where
  \<comment> \<open>\<open>decode\<close> is \<^verbatim>\<open>json.Unmarshal\<close> into the type of \<^verbatim>\<open>v\<close>; the callers only ask whether there was an error\<close>
  "ReadJSON f decode rel = (case ReadFile f rel of Inl err \<Rightarrow> None | Inr data \<Rightarrow> decode data)"

definition ListDir :: "fs \<Rightarrow> string \<Rightarrow> bool \<Rightarrow> string list" where
  \<comment> \<open>\<^verbatim>\<open>List\<close>\<close>
  "ListDir f rel dirs = (case resolve f rel of Inl _ \<Rightarrow> []
     | Inr p \<Rightarrow> (case os_entries (fs_os f) p of Inl _ \<Rightarrow> []
       | Inr entries \<Rightarrow> sort (map fst (filter (\<lambda>(name, d). d = dirs) entries))))"

definition Glob :: "fs \<Rightarrow> string \<Rightarrow> string \<Rightarrow> string list" where
  "Glob f rel pattern =
     map (\<lambda>name. path_join [rel, name]) (filter (path_match pattern) (ListDir f rel False))"

definition FirstExisting :: "fs \<Rightarrow> string list \<Rightarrow> string" where
  "FirstExisting f candidates = (case find (Exists f) candidates of None \<Rightarrow> '''' | Some c \<Rightarrow> c)"

section \<open>toml.go\<close>

definition unquote :: "string \<Rightarrow> string" where
  "unquote v = (case v of
       [] \<Rightarrow> ''''
     | q # rest \<Rightarrow>
         if q \<noteq> CHR 0x22 \<and> q \<noteq> CHR 0x27 then trim_space (takeWhile (\<lambda>c. c \<noteq> CHR ''#'') v)
         else if q \<in> set rest then takeWhile (\<lambda>c. c \<noteq> q) rest else '''')"

fun toml_lines :: "string list \<Rightarrow> string \<Rightarrow> string \<Rightarrow> string \<Rightarrow> string" where
  \<comment> \<open>the loop of \<^verbatim>\<open>TOMLValue\<close>\<close>
  "toml_lines [] current section key = ''''"
| "toml_lines (l # ls) current section key =
     (let line = trim_space l in
      if line = '''' \<or> has_prefix line ''#'' then toml_lines ls current section key
      else if has_prefix line ''['' then toml_lines ls (trim_set line ''[] '') section key
      else if current \<noteq> section then toml_lines ls current section key
      else case cut line CHR ''='' of (k, v, ok) \<Rightarrow>
        if \<not> ok \<or> trim_space k \<noteq> key then toml_lines ls current section key
        else unquote (trim_space v))"

definition TOMLValue :: "string \<Rightarrow> string \<Rightarrow> string \<Rightarrow> string" where
  "TOMLValue doc section key = toml_lines (scan_lines doc) '''' section key"

definition TOMLHasSection :: "string \<Rightarrow> string \<Rightarrow> bool" where
  "TOMLHasSection doc section =
     list_ex (\<lambda>l. let line = trim_space l in has_prefix line ''['' \<and> trim_set line ''[] '' = section) (scan_lines doc)"

section \<open>Cleaned paths\<close>

text \<open>A path without symbolic links below the file system's root, as \<^verbatim>\<open>EvalSymlinks\<close> returns it.\<close>

definition proper :: "string \<Rightarrow> bool" where
  "proper seg \<longleftrightarrow> seg \<noteq> '''' \<and> seg \<noteq> ''.'' \<and> seg \<noteq> ''..'' \<and> CHR ''/'' \<notin> set seg"

definition below :: "string list \<Rightarrow> string" where
  "below segs = concat (map (\<lambda>seg. CHR ''/'' # seg) segs)"

definition real_path :: "string \<Rightarrow> bool" where
  "real_path p \<longleftrightarrow> (\<exists>segs. segs \<noteq> [] \<and> list_all proper segs \<and> p = below segs)"

lemma join_below: "segs \<noteq> [] \<Longrightarrow> CHR ''/'' # join segs ''/'' = below segs"
  by (induction segs "[CHR 0x2F]" rule: join.induct) (simp_all add: below_def)

lemma split_below: "list_all proper segs \<Longrightarrow> split_on CHR ''/'' (below segs) = '''' # segs"
proof (cases "segs = []")
  case False
  assume "list_all proper segs"
  then have no: "\<forall>w\<in>set segs. CHR ''/'' \<notin> set w" by (auto simp: list_all_iff proper_def)
  have "split_on CHR ''/'' (CHR ''/'' # join segs [CHR ''/'']) = [] # split_on CHR ''/'' (join segs [CHR ''/''])" by simp
  also have "\<dots> = [] # segs" using split_on_join [OF False no] by simp
  finally show ?thesis using join_below [OF False] by simp
qed (simp add: below_def)

lemma split_on_append_sep: "split_on c (a @ c # b) = split_on c a @ split_on c b"
  by (induction a) (auto split: list.splits)

lemma clean_proper: "list_all proper segs \<Longrightarrow> foldl (clean_step rooted) kept segs = rev segs @ kept"
  by (induction segs arbitrary: kept) (simp_all add: proper_def)

lemma clean_step_proper:
  "list_all proper kept \<Longrightarrow> CHR ''/'' \<notin> set seg \<Longrightarrow> list_all proper (clean_step True kept seg)"
  by (auto simp: proper_def split: list.splits)

lemma clean_rooted:
  obtains segs where "list_all proper segs" "path_clean (''/'' @ rel) = ''/'' @ join segs ''/''"
proof -
  let ?segs = "rev (foldl (clean_step True) [] (split_on CHR ''/'' (''/'' @ rel)))"
  have "list_all proper (foldl (clean_step True) [] (split_on CHR ''/'' (''/'' @ rel)))"
    by (rule foldl_invariant [where P = "list_all proper"]) (simp, metis clean_step_proper split_on_no_sep)
  then have "list_all proper ?segs" by (simp add: list_all_iff)
  moreover have "path_clean (''/'' @ rel) = ''/'' @ join ?segs ''/''" by (simp add: path_clean_def Let_def)
  ultimately show thesis using that by blast
qed

text \<open>No relative path, whatever its \<open>..\<close> segments, leads out of the root before symbolic links are followed.\<close>

lemma full_path_below:
  assumes "real_path root"
  obtains segs where "list_all proper segs" "full_path root rel = root @ below segs"
proof -
  obtain rs where rs: "rs \<noteq> []" "list_all proper rs" "root = below rs" using assms by (auto simp: real_path_def)
  obtain segs where segs: "list_all proper segs" "path_clean (''/'' @ rel) = ''/'' @ join segs ''/''"
    using clean_rooted by blast
  have root: "root \<noteq> []" "has_prefix root ''/''" using rs by (cases rs; simp add: below_def)+
  have split_join: "split_on CHR ''/'' (join segs ''/'') = (if segs = [] then [''''] else segs)"
  proof (cases "segs = []")
    case False
    have "\<forall>w\<in>set segs. CHR ''/'' \<notin> set w" using segs(1) by (auto simp: list_all_iff proper_def)
    from split_on_join [OF False this] False show ?thesis by simp
  qed simp
  have "full_path root rel = path_clean (root @ ''/'' @ ''/'' @ join segs ''/'')"
  proof -
    have "path_clean (''/'' @ rel) \<noteq> ''''" unfolding segs(2) by simp
    then show ?thesis using root(1) unfolding full_path_def path_join_def segs(2) by (simp add: Let_def)
  qed
  also have "\<dots> = ''/'' @ join (rs @ segs) ''/''"
  proof -
    have pre: "has_prefix (root @ ''/'' @ ''/'' @ join segs ''/'') ''/''" using root(2) by (auto simp: has_prefix_iff)
    have "split_on CHR ''/'' (root @ ''/'' @ ''/'' @ join segs ''/'')
        = split_on CHR ''/'' root @ '''' # split_on CHR ''/'' (join segs ''/'')"
      by (simp add: split_on_append_sep)
    also have "\<dots> = '''' # rs @ '''' # (if segs = [] then [''''] else segs)"
      unfolding rs(3) split_below [OF rs(2)] split_join by simp
    finally have sp: "split_on CHR ''/'' (root @ ''/'' @ ''/'' @ join segs ''/'')
        = '''' # rs @ '''' # (if segs = [] then [''''] else segs)" .
    have "foldl (clean_step True) [] ('''' # rs @ '''' # (if segs = [] then [''''] else segs)) = rev segs @ rev rs"
      using clean_proper [OF rs(2), of True "[]"] clean_proper [OF segs(1), of True "rev rs"] by simp
    then show ?thesis unfolding path_clean_def Let_def sp using pre by simp
  qed
  also have "\<dots> = root @ below segs"
    using join_below [of "rs @ segs"] rs(1) by (simp add: rs(3) below_def)
  finally show thesis using that segs(1) by blast
qed

lemma inside_below: "inside root (root @ below segs)"
  by (cases segs) (auto simp: inside_def below_def has_prefix_iff)

lemma full_path_inside: "real_path root \<Longrightarrow> inside root (full_path root rel)"
  using full_path_below inside_below by metis

lemma inside_trans: "inside a b \<Longrightarrow> inside b c \<Longrightarrow> inside a c"
  by (auto simp: inside_def has_prefix_iff)

lemma resolve_inside: "resolve f rel = Inr p \<Longrightarrow> inside (fs_root f) p"
  by (auto simp: resolve_def split: sum.splits if_splits)

section \<open>Nothing outside the root matters\<close>

text \<open>
  Two systems agree below \<open>root\<close>: they hold the same files and directories there, and a symbolic link there leads
  to the same place inside in both, or in neither: it may then lead out of the root, or to nothing.
\<close>

definition escapes :: "string \<Rightarrow> gerror + string \<Rightarrow> bool" where
  "escapes root r \<longleftrightarrow> (case r of Inl _ \<Rightarrow> True | Inr p \<Rightarrow> \<not> inside root p)"

definition agree_below :: "string \<Rightarrow> os \<Rightarrow> os \<Rightarrow> bool" where
  "agree_below root S T \<longleftrightarrow> (\<forall>p. inside root p \<longrightarrow>
     (os_real S p = os_real T p \<or> escapes root (os_real S p) \<and> escapes root (os_real T p))
     \<and> (os_real S p = Inr p \<longrightarrow>
          os_is_dir S p = os_is_dir T p \<and> os_read S p = os_read T p \<and> os_entries S p = os_entries T p))"

text \<open>
  What \<^verbatim>\<open>filepath.EvalSymlinks\<close> documents, for the absolute paths the view asks it for: a result is an
  absolute cleaned path, the file system's root or one below it, with no symbolic link left.
\<close>

definition resolves_links :: "os \<Rightarrow> bool" where
  "resolves_links S \<longleftrightarrow> (\<forall>p q. has_prefix p ''/'' \<and> os_real S p = Inr q \<longrightarrow> (q = ''/'' \<or> real_path q) \<and> os_real S q = Inr q)"

lemma agree_belowD:
  assumes "agree_below root S T" "inside root p"
  shows "os_real S p = os_real T p \<or> escapes root (os_real S p) \<and> escapes root (os_real T p)"
    and "os_real S p = Inr p \<Longrightarrow> os_is_dir S p = os_is_dir T p" "os_real S p = Inr p \<Longrightarrow> os_read S p = os_read T p"
      "os_real S p = Inr p \<Longrightarrow> os_entries S p = os_entries T p"
  using assms unfolding agree_below_def by blast+

lemma agree_deeper: "agree_below root S T \<Longrightarrow> inside root r \<Longrightarrow> agree_below r S T"
proof -
  assume ag: "agree_below root S T" and r: "inside root r"
  have out: "escapes r a" if "escapes root a" for a
    using that inside_trans [OF r] by (auto simp: escapes_def split: sum.splits)
  show ?thesis
    unfolding agree_below_def
  proof (intro allI impI)
    fix p assume "inside r p"
    from agree_belowD [OF ag inside_trans [OF r this]] out
    show "(os_real S p = os_real T p \<or> escapes r (os_real S p) \<and> escapes r (os_real T p))
       \<and> (os_real S p = Inr p \<longrightarrow>
            os_is_dir S p = os_is_dir T p \<and> os_read S p = os_read T p \<and> os_entries S p = os_entries T p)" by blast
  qed
qed

text \<open>Two views of the same root over systems that agree there.\<close>

definition same_view :: "fs \<Rightarrow> fs \<Rightarrow> bool" where
  "same_view f g \<longleftrightarrow> fs_root f = fs_root g \<and> real_path (fs_root f) \<and> agree_below (fs_root f) (fs_os f) (fs_os g)
     \<and> resolves_links (fs_os f) \<and> resolves_links (fs_os g)"

text \<open>The same results: what succeeds in one succeeds in the other, with the same value.\<close>

definition alike :: "gerror + 'a \<Rightarrow> gerror + 'a \<Rightarrow> bool" where
  "alike a b \<longleftrightarrow> (case (a, b) of (Inr x, Inr y) \<Rightarrow> x = y | (Inl _, Inl _) \<Rightarrow> True | _ \<Rightarrow> False)"

lemma alike_simps [simp]:
  "alike (Inl e) b \<longleftrightarrow> (\<exists>e'. b = Inl e')" "alike a (Inl e') \<longleftrightarrow> (\<exists>e. a = Inl e)"
  "alike (Inr x) b \<longleftrightarrow> b = Inr x" "alike a (Inr y) \<longleftrightarrow> a = Inr y" "alike a a"
  by (auto simp: alike_def split: sum.split)

lemma alikeE:
  assumes "alike a b"
  obtains x where "a = Inr x" "b = Inr x" | e e' where "a = Inl e" "b = Inl e'"
  using assms by (cases a) auto

lemma same_resolve:
  assumes "same_view f g"
  shows "alike (resolve f rel) (resolve g rel)"
proof -
  let ?p = "full_path (fs_root f) rel"
  have "inside (fs_root f) ?p" using assms full_path_inside unfolding same_view_def by blast
  then have "os_real (fs_os f) ?p = os_real (fs_os g) ?p
      \<or> escapes (fs_root f) (os_real (fs_os f) ?p) \<and> escapes (fs_root f) (os_real (fs_os g) ?p)"
    using assms agree_belowD(1) unfolding same_view_def by blast
  then show ?thesis using assms by (auto simp: resolve_def escapes_def same_view_def split: sum.splits)
qed

text \<open>A resolved path has no links left.\<close>

lemma real_path_absolute: "real_path p \<Longrightarrow> has_prefix p ''/'' \<and> length p > 1"
  by (auto simp: real_path_def below_def proper_def neq_Nil_conv)

lemma resolve_real:
  assumes "resolves_links (fs_os f)" "real_path (fs_root f)" "resolve f rel = Inr p"
  shows "real_path p" "os_real (fs_os f) p = Inr p"
proof -
  let ?a = "full_path (fs_root f) rel"
  have root: "has_prefix (fs_root f) ''/''" "length (fs_root f) > 1" using real_path_absolute [OF assms(2)] by simp_all
  have "inside (fs_root f) ?a" by (rule full_path_inside [OF assms(2)])
  then have "has_prefix ?a ''/''" using root(1) by (auto simp: inside_def has_prefix_iff)
  moreover have a: "os_real (fs_os f) ?a = Inr p" using assms(3) by (auto simp: resolve_def split: sum.splits if_splits)
  ultimately have p: "p = ''/'' \<or> real_path p" "os_real (fs_os f) p = Inr p" using assms(1) unfolding resolves_links_def by blast+
  moreover have "p \<noteq> ''/''" 
  proof -
    have "length (fs_root f) \<le> length p" using resolve_inside [OF assms(3)] by (auto simp: inside_def has_prefix_iff)
    with root(2) show ?thesis by auto
  qed
  ultimately show "real_path p" "os_real (fs_os f) p = Inr p" by simp_all
qed

lemma same_at:
  assumes "same_view f g" "resolve g rel = Inr p"
  shows "os_is_dir (fs_os f) p = os_is_dir (fs_os g) p" "os_read (fs_os f) p = os_read (fs_os g) p"
    "os_entries (fs_os f) p = os_entries (fs_os g) p"
proof -
  have f: "resolve f rel = Inr p" using same_resolve [OF assms(1), of rel] assms(2) by simp
  have "os_real (fs_os f) p = Inr p" using resolve_real(2) [OF _ _ f] assms(1) unfolding same_view_def by blast
  moreover have "inside (fs_root f) p" using resolve_inside [OF f] .
  ultimately show "os_is_dir (fs_os f) p = os_is_dir (fs_os g) p" "os_read (fs_os f) p = os_read (fs_os g) p"
    "os_entries (fs_os f) p = os_entries (fs_os g) p"
    using agree_belowD(2-4) assms(1) unfolding same_view_def by blast+
qed

named_theorems same_views \<open>operations that return the same on views that agree\<close>

lemma same_ReadFile:
  assumes "same_view f g"
  shows "alike (ReadFile f rel) (ReadFile g rel)"
  using same_resolve [OF assms, of rel]
  by (cases rule: alikeE) (use same_at(2) [OF assms] in \<open>auto simp: ReadFile_def Let_def split: sum.splits\<close>)

lemma same_ops [same_views]:
  assumes "same_view f g"
  shows "Exists f rel = Exists g rel" "IsDir f rel = IsDir g rel"
    "ReadString f rel = ReadString g rel" "ReadJSON f decode rel = ReadJSON g decode rel" "ListDir f rel dirs = ListDir g rel dirs"
    "Glob f rel pattern = Glob g rel pattern" "FirstExisting f candidates = FirstExisting g candidates"
proof -
  show Ex: "Exists f rel = Exists g rel" for rel
    using same_resolve [OF assms, of rel] by (cases rule: alikeE) (simp_all add: Exists_def)
  show "IsDir f rel = IsDir g rel"
    using same_resolve [OF assms, of rel] by (cases rule: alikeE) (use same_at(1) [OF assms] in \<open>simp_all add: IsDir_def\<close>)
  show "ReadString f rel = ReadString g rel" "ReadJSON f decode rel = ReadJSON g decode rel"
    using same_ReadFile [OF assms, of rel] by (auto elim!: alikeE simp: ReadString_def ReadJSON_def)
  show Ls: "ListDir f rel dirs = ListDir g rel dirs" for rel dirs
    using same_resolve [OF assms, of rel] by (cases rule: alikeE) (use same_at(3) [OF assms] in \<open>simp_all add: ListDir_def\<close>)
  then show "Glob f rel pattern = Glob g rel pattern" by (simp add: Glob_def)
  show "FirstExisting f candidates = FirstExisting g candidates"
    unfolding FirstExisting_def using ext [of "Exists f" "Exists g", OF Ex] by simp
qed

text \<open>A view of a directory inside is again such a pair of views, or fails in both.\<close>

lemma same_Sub:
  assumes "same_view f g"
  shows "(\<exists>err err'. Sub f rel = Inl err \<and> Sub g rel = Inl err')
    \<or> (\<exists>f' g'. Sub f rel = Inr f' \<and> Sub g rel = Inr g' \<and> same_view f' g')"
  using same_resolve [OF assms, of rel]
proof (cases rule: alikeE)
  case (1 p)
  have sv: "resolves_links (fs_os f)" "resolves_links (fs_os g)" "real_path (fs_root f)" "real_path (fs_root g)"
    using assms by (auto simp: same_view_def)
  note pf = resolve_real [OF sv(1,3) 1(1)] and pg = resolve_real [OF sv(2,4) 1(2)]
  have "agree_below p (fs_os f) (fs_os g)"
    using agree_deeper [OF _ resolve_inside [OF 1(1)]] assms unfolding same_view_def by blast
  then have "same_view \<lparr>fs_os = fs_os f, fs_root = p\<rparr> \<lparr>fs_os = fs_os g, fs_root = p\<rparr>"
    using pf(1) sv(1,2) by (simp add: same_view_def)
  then show ?thesis
    using same_at(1) [OF assms 1(2)] unfolding Sub_def 1
    by (auto simp: new_fs_def pf pg split: sum.splits)
qed (simp add: Sub_def)

end
