(* ===== verification/Languages.thy ===== *)
theory Languages
  imports Json Search RepoFS "HOL-Library.Word"
begin

text \<open>
  Package \<^verbatim>\<open>internal/service/languages\<close>: the detectors of \<^verbatim>\<open>golang.go\<close>, \<^verbatim>\<open>rust.go\<close>,
  \<^verbatim>\<open>java.go\<close>, \<^verbatim>\<open>dotnet.go\<close>, \<^verbatim>\<open>python.go\<close>, \<^verbatim>\<open>ruby.go\<close>, \<^verbatim>\<open>php.go\<close>, \<^verbatim>\<open>node.go\<close> and
  \<^verbatim>\<open>static.go\<close> behind the interface \<^verbatim>\<open>Language\<close> (\<^verbatim>\<open>language.go\<close>), here a record of its two methods.
  They read the repository through a view (theory \<open>RepoFS\<close>) and search its files with the patterns
  of theory \<open>Search\<close>, each written next to the source's text. \<^verbatim>\<open>Facts\<close> is the record \<open>facts\<close>; its map
  \<^verbatim>\<open>Extra\<close> is an association list, in the order in which the code sets its keys.
\<close>

section \<open>version.go\<close>

abbreviation Digits :: pat where "Digits \<equiv> PSome (PCls is_digit)"  \<comment> \<open>\<open>\\d+\<close>\<close>

definition majorMinorRe :: pat where
  \<comment> \<open>\<^verbatim>\<open>(\d+)\.(\d+)\<close>\<close>
  "majorMinorRe = seq [PGroup Digits, lit ''.'', PGroup Digits]"

definition majorRe :: pat where
  \<comment> \<open>\<^verbatim>\<open>\d+\<close>\<close>
  "majorRe = Digits"

definition group :: "nat \<Rightarrow> string list \<Rightarrow> string" where
  \<comment> \<open>\<^verbatim>\<open>m[n]\<close> of a submatch, for \<open>n > 0\<close>\<close>
  "group n groups = (if n - 1 < length groups then groups ! (n - 1) else '''')"

definition majorMinor :: "string \<Rightarrow> string \<Rightarrow> string" where
  "majorMinor constraint fallback = (case find_submatch majorMinorRe constraint of
       Some (_, m) \<Rightarrow> group 1 m @ ''.'' @ group 2 m | None \<Rightarrow> fallback)"

definition major :: "string \<Rightarrow> string \<Rightarrow> string" where
  "major constraint fallback = (let m = find_string majorRe constraint in if m \<noteq> '''' then m else fallback)"

definition firstLine :: "string \<Rightarrow> string" where
  "firstLine s = (case find (\<lambda>line. line \<noteq> '''' \<and> \<not> has_prefix line ''#'') (map trim_space (split_on CHR 0x0A s)) of
       None \<Rightarrow> '''' | Some line \<Rightarrow> line)"

definition shellCmd :: "string \<Rightarrow> string list" where
  "shellCmd command = [''sh'', ''-c'', ''exec '' @ command]"

section \<open>language.go\<close>

definition newFacts :: "string \<Rightarrow> string \<Rightarrow> facts" where
  "newFacts lang version = \<lparr>f_language = lang, f_version = version, f_package_manager = '''', f_framework = '''',
     f_entrypoint = '''', f_install_cmd = '''', f_build_cmd = '''', f_start_cmd = [], f_port = 0, f_extra = []\<rparr>"

definition set_extra :: "string \<Rightarrow> string \<Rightarrow> facts \<Rightarrow> facts" where
  \<comment> \<open>\<^verbatim>\<open>f.Extra[k] = v\<close>\<close>
  "set_extra k v f = f\<lparr>f_extra := AList.update k v (f_extra f)\<rparr>"

definition extra :: "facts \<Rightarrow> string \<Rightarrow> string" where
  \<comment> \<open>\<^verbatim>\<open>f.Extra[k]\<close>\<close>
  "extra f k = (case map_of (f_extra f) k of None \<Rightarrow> '''' | Some v \<Rightarrow> v)"

record language_impl =
  ln_name :: string
  ln_detect :: "fs \<Rightarrow> facts \<times> bool"

section \<open>golang.go\<close>

definition goDefaultVersion :: string where "goDefaultVersion = ''1.24''"

definition non_space :: pat where
  \<comment> \<open>\<^verbatim>\<open>\S+\<close>\<close>
  "non_space = PSome (PCls (\<lambda>c. \<not> re_space c))"

definition goDirectiveRe :: pat where
  \<comment> \<open>\<^verbatim>\<open>(?m)^go\s+(\S+)\<close>\<close>
  "goDirectiveRe = seq [PBol, lit ''go'', PSome (PCls re_space), PGroup non_space]"

definition goModuleRe :: pat where
  \<comment> \<open>\<^verbatim>\<open>(?m)^module\s+(\S+)\<close>\<close>
  "goModuleRe = seq [PBol, lit ''module'', PSome (PCls re_space), PGroup non_space]"

definition goMainRe :: pat where
  \<comment> \<open>\<^verbatim>\<open>(?m)^package\s+main\b\<close>\<close>
  "goMainRe = seq [PBol, lit ''package'', PSome (PCls re_space), lit ''main'', PWord]"

definition isGoMain :: "fs \<Rightarrow> string \<Rightarrow> bool" where
  "isGoMain f dir = list_ex (\<lambda>file. \<not> has_suffix file ''_test.go'' \<and> match_string goMainRe (ReadString f file)) (Glob f dir ''*.go'')"

definition goMainPackage :: "fs \<Rightarrow> string \<Rightarrow> string" where
  "goMainPackage f module =
     (if isGoMain f ''.'' then ''.''
      else let mains = filter (\<lambda>dir. isGoMain f (path_join [''cmd'', dir])) (ListDir f ''cmd'' True) in
        if mains = [] then ''.''
        else case find (\<lambda>preferred. preferred \<in> set mains) [module, ''server'', ''api'', ''app'', ''main''] of
            Some m \<Rightarrow> ''./cmd/'' @ m
          | None \<Rightarrow> ''./cmd/'' @ hd mains)"

definition Go_Detect :: "fs \<Rightarrow> facts \<times> bool" where
  "Go_Detect fs =
     (let f = (newFacts ''go'' goDefaultVersion)\<lparr>f_package_manager := ''go modules'', f_entrypoint := ''.''\<rparr>;
          gomod = ReadString fs ''go.mod''
      in if gomod = '''' then (f, False)
         else
           let f = (case find_submatch goDirectiveRe gomod of
                   Some (_, m) \<Rightarrow> f\<lparr>f_version := majorMinor (group 1 m) goDefaultVersion\<rparr> | None \<Rightarrow> f);
               module = (case find_submatch goModuleRe gomod of Some (_, m) \<Rightarrow> path_base (group 1 m) | None \<Rightarrow> '''');
               f = f\<lparr>f_entrypoint := goMainPackage fs module\<rparr>;
               f = f\<lparr>f_build_cmd := ''CGO_ENABLED=0 go build -trimpath -ldflags='' @ [CHR 0x22] @ ''-s -w'' @ [CHR 0x22]
                   @ '' -o /out/app '' @ f_entrypoint f\<rparr>
           in (f\<lparr>f_start_cmd := [''/app'']\<rparr>, True))"

definition Go :: language_impl where "Go = \<lparr>ln_name = ''go'', ln_detect = Go_Detect\<rparr>"

section \<open>rust.go\<close>

definition rustDefaultVersion :: string where "rustDefaultVersion = ''1''"

definition not_in :: "string \<Rightarrow> char \<Rightarrow> bool" where
  \<comment> \<open>a negated class\<close>
  "not_in cs c \<longleftrightarrow> c \<notin> set cs"

definition rustBinNameRe :: pat where
  \<comment> \<open>\<^verbatim>\<open>(?s)\[\[bin\]\][^\[]*?name\s*=\s*"([^"]+)"\<close>\<close>
  "rustBinNameRe = seq [lit ''[[bin]]'', PStar False (PCls (not_in ''['')), lit ''name'', PSpaces, lit ''='', PSpaces,
     lit [CHR 0x22], PGroup (PSome (PCls (not_in [CHR 0x22]))), lit [CHR 0x22]]"

definition rustToolchain :: "fs \<Rightarrow> string" where
  "rustToolchain fs = (let doc = ReadString fs ''rust-toolchain.toml'' in
     if doc \<noteq> '''' then TOMLValue doc ''toolchain'' ''channel'' else firstLine (ReadString fs ''rust-toolchain''))"

definition Rust_Detect :: "fs \<Rightarrow> facts \<times> bool" where
  "Rust_Detect fs =
     (let f = (newFacts ''rust'' rustDefaultVersion)\<lparr>f_package_manager := ''cargo'', f_entrypoint := ''app''\<rparr>;
          cargo = ReadString fs ''Cargo.toml''
      in if cargo = '''' then (f, False)
         else
           let name = TOMLValue cargo ''package'' ''name'';
               f = (if name \<noteq> '''' then f\<lparr>f_entrypoint := name\<rparr> else f);
               f = (case find_submatch rustBinNameRe cargo of Some (_, m) \<Rightarrow> f\<lparr>f_entrypoint := group 1 m\<rparr> | None \<Rightarrow> f);
               channel = rustToolchain fs;
               f = (if channel \<noteq> '''' then f\<lparr>f_version := majorMinor channel rustDefaultVersion\<rparr> else f);
               f = f\<lparr>f_build_cmd := ''cargo build --release'' @ (if Exists fs ''Cargo.lock'' then '' --locked'' else '''')\<rparr>
           in (f\<lparr>f_start_cmd := [''/app/'' @ f_entrypoint f]\<rparr>, True))"

definition Rust :: language_impl where "Rust = \<lparr>ln_name = ''rust'', ln_detect = Rust_Detect\<rparr>"

section \<open>java.go\<close>

definition javaDefaultVersion :: string where "javaDefaultVersion = ''21''"

definition version_number :: pat where
  \<comment> \<open>\<^verbatim>\<open>([\d.]+)\<close>\<close>
  "version_number = PGroup (PSome (PCls (\<lambda>c. is_digit c \<or> c = CHR ''.'')))"

definition javaPomVersionRes :: "pat list" where
  \<comment> \<open>\<^verbatim>\<open><maven\.compiler\.release>\s*([\d.]+)\<close>\<close>
  \<comment> \<open>\<^verbatim>\<open><java\.version>\s*([\d.]+)\<close>\<close>
  \<comment> \<open>\<^verbatim>\<open><maven\.compiler\.source>\s*([\d.]+)\<close>\<close>
  \<comment> \<open>\<^verbatim>\<open><release>\s*([\d.]+)\s*</release>\<close>\<close>
  "javaPomVersionRes = [
     seq [lit ''<maven.compiler.release>'', PSpaces, version_number],
     seq [lit ''<java.version>'', PSpaces, version_number],
     seq [lit ''<maven.compiler.source>'', PSpaces, version_number],
     seq [lit ''<release>'', PSpaces, version_number, PSpaces, lit ''</release>'']]"

definition javaGradleVersionRes :: "pat list" where
  \<comment> \<open>\<^verbatim>\<open>JavaLanguageVersion\.of\(\s*(\d+)\s*\)\<close>\<close>
  \<comment> \<open>\<^verbatim>\<open>jvmToolchain\(\s*(\d+)\s*\)\<close>\<close>
  \<comment> \<open>\<^verbatim>\<open>sourceCompatibility\s*=\s*['"]?(?:JavaVersion\.VERSION_)?([\d._]+)\<close>\<close>
  "javaGradleVersionRes = [
     seq [lit ''JavaLanguageVersion.of('', PSpaces, PGroup Digits, PSpaces, lit '')''],
     seq [lit ''jvmToolchain('', PSpaces, PGroup Digits, PSpaces, lit '')''],
     seq [lit ''sourceCompatibility'', PSpaces, lit ''='', PSpaces, POpt (PCls (\<lambda>c. c = CHR 0x27 \<or> c = CHR 0x22)),
       POpt (lit ''JavaVersion.VERSION_''), PGroup (PSome (PCls (\<lambda>c. is_digit c \<or> c = CHR ''.'' \<or> c = CHR ''_'')))]]"

definition javaLTS :: "string list" where "javaLTS = [''8'', ''11'', ''17'', ''21'', ''25'']"

fun atoi_from :: "64 word \<Rightarrow> string \<Rightarrow> 64 word" where
  \<comment> \<open>the loop of \<^verbatim>\<open>atoi\<close>: \<^verbatim>\<open>int\<close> has 64 bits and wraps around\<close>
  "atoi_from n [] = n"
| "atoi_from n (c # s) = (if \<not> is_digit c then 0 else atoi_from (n * 10 + of_nat (byte c - 48)) s)"

definition atoi :: "string \<Rightarrow> int" where
  "atoi s = sint (atoi_from 0 s)"

definition nearestLTS :: "string \<Rightarrow> string" where
  "nearestLTS v = (let n = atoi v in
     case find (\<lambda>lts. atoi lts \<ge> n) javaLTS of Some lts \<Rightarrow> lts | None \<Rightarrow> last javaLTS)"

definition javaVersion :: "string \<Rightarrow> pat list \<Rightarrow> string" where
  "javaVersion doc res = (case find (\<lambda>re. find_submatch re doc \<noteq> None) res of
       None \<Rightarrow> javaDefaultVersion
     | Some re \<Rightarrow> (case find_submatch re doc of
         None \<Rightarrow> javaDefaultVersion
       | Some (_, m) \<Rightarrow>
           let v = trim_prefix (map (\<lambda>c. if c = CHR ''_'' then CHR ''.'' else c) (group 1 m)) ''1.''
           in nearestLTS (major v javaDefaultVersion)))"

definition Java_Detect :: "fs \<Rightarrow> facts \<times> bool" where
  "Java_Detect fs =
     (let f = (newFacts ''java'' javaDefaultVersion)\<lparr>f_entrypoint := ''app.jar'',
            f_start_cmd := shellCmd ''java $JAVA_OPTS -Dserver.port=${PORT} -jar /app/app.jar''\<rparr>
      in if Exists fs ''pom.xml'' then
           let f = f\<lparr>f_package_manager := ''maven'', f_version := javaVersion (ReadString fs ''pom.xml'') javaPomVersionRes\<rparr>;
               f = (set_extra ''builderImage'' (''docker.io/library/maven:3.9-eclipse-temurin-'' @ f_version f) f)\<lparr>
                 f_build_cmd := ''mvn -B -q package -DskipTests''\<rparr>;
               f = (if Exists fs ''mvnw'' then
                   (set_extra ''builderImage'' (''docker.io/library/eclipse-temurin:'' @ f_version f @ ''-jdk'') f)\<lparr>
                     f_build_cmd := ''chmod +x mvnw && ./mvnw -B -q package -DskipTests''\<rparr> else f)
           in (set_extra ''outputDir'' ''target'' f, True)
         else if Exists fs ''build.gradle'' \<or> Exists fs ''build.gradle.kts'' then
           let script = ReadString fs ''build.gradle'' @ ReadString fs ''build.gradle.kts'';
               f = f\<lparr>f_package_manager := ''gradle'', f_version := javaVersion script javaGradleVersionRes\<rparr>;
               f = (set_extra ''builderImage'' (''docker.io/library/gradle:8-jdk'' @ f_version f) f)\<lparr>
                 f_build_cmd := ''gradle --no-daemon -q build -x test''\<rparr>;
               f = (if Exists fs ''gradlew'' then
                   (set_extra ''builderImage'' (''docker.io/library/eclipse-temurin:'' @ f_version f @ ''-jdk'') f)\<lparr>
                     f_build_cmd := ''chmod +x gradlew && ./gradlew --no-daemon -q build -x test''\<rparr> else f)
           in (set_extra ''outputDir'' ''build/libs'' f, True)
         else (f, False))"

definition Java :: language_impl where "Java = \<lparr>ln_name = ''java'', ln_detect = Java_Detect\<rparr>"

section \<open>dotnet.go\<close>

definition dotnetDefaultVersion :: string where "dotnetDefaultVersion = ''8.0''"

definition dotnetTFMRe :: pat where
  \<comment> \<open>\<^verbatim>\<open><TargetFrameworks?>\s*net(\d+\.\d+)\<close>\<close>
  "dotnetTFMRe = seq [lit ''<TargetFramework'', POpt (lit ''s''), lit ''>'', PSpaces, lit ''net'',
     PGroup (seq [Digits, lit ''.'', Digits])]"

definition dotnetAssemblyRe :: pat where
  \<comment> \<open>\<^verbatim>\<open><AssemblyName>\s*([^<\s]+)\s*</AssemblyName>\<close>\<close>
  "dotnetAssemblyRe = seq [lit ''<AssemblyName>'', PSpaces, PGroup (PSome (PCls (\<lambda>c. c \<noteq> CHR ''<'' \<and> \<not> re_space c))),
     PSpaces, lit ''</AssemblyName>'']"

definition dotnetWebSdkRe :: pat where
  \<comment> \<open>\<^verbatim>\<open>Sdk="Microsoft\.NET\.Sdk\.Web"\<close>\<close>
  "dotnetWebSdkRe = lit (''Sdk='' @ [CHR 0x22] @ ''Microsoft.NET.Sdk.Web'' @ [CHR 0x22])"

definition dotnetExeRe :: pat where
  \<comment> \<open>\<^verbatim>\<open><OutputType>\s*Exe\s*</OutputType>\<close>\<close>
  "dotnetExeRe = seq [lit ''<OutputType>'', PSpaces, lit ''Exe'', PSpaces, lit ''</OutputType>'']"

definition dotnetProject :: "fs \<Rightarrow> string" where
  "dotnetProject fs =
     (let candidates = Glob fs ''.'' ''*.csproj''
            @ concat (map (\<lambda>base. concat (map (\<lambda>dir. Glob fs (path_join [base, dir]) ''*.csproj'') (ListDir fs base True))) [''.'', ''src''])
      in if candidates = [] then ''''
         else case find (\<lambda>(re, c). match_string re (ReadString fs c)) (List.product [dotnetWebSdkRe, dotnetExeRe] candidates) of
             Some (_, c) \<Rightarrow> c | None \<Rightarrow> hd candidates)"

definition Dotnet_Detect :: "fs \<Rightarrow> facts \<times> bool" where
  "Dotnet_Detect fs =
     (let f = (newFacts ''dotnet'' dotnetDefaultVersion)\<lparr>f_package_manager := ''nuget''\<rparr>;
          project = dotnetProject fs
      in if project = '''' then
           (set_extra ''user'' ''$APP_UID'' ((set_extra ''project'' ''.'' (f\<lparr>f_entrypoint := ''app''\<rparr>))\<lparr>
              f_start_cmd := [''dotnet'', ''app.dll'']\<rparr>), Glob fs ''.'' ''*.sln'' \<noteq> [])
         else
           let doc = ReadString fs project;
               f = (case find_submatch dotnetTFMRe doc of Some (_, m) \<Rightarrow> f\<lparr>f_version := group 1 m\<rparr> | None \<Rightarrow> f);
               assembly = (case find_submatch dotnetAssemblyRe doc of
                   Some (_, m) \<Rightarrow> group 1 m | None \<Rightarrow> trim_suffix (path_base project) ''.csproj'');
               f = (set_extra ''project'' project (f\<lparr>f_entrypoint := assembly\<rparr>))\<lparr>f_start_cmd := [''dotnet'', assembly @ ''.dll'']\<rparr>;
               f = set_extra ''user'' ''$APP_UID'' f
           in (if atoi (major (f_version f) ''8'') < 8 then set_extra ''user'' ''1001'' f else f, True))"

definition Dotnet :: language_impl where "Dotnet = \<lparr>ln_name = ''dotnet'', ln_detect = Dotnet_Detect\<rparr>"

section \<open>python.go\<close>

definition pythonDefaultVersion :: string where "pythonDefaultVersion = ''3.12''"

definition py_app_re :: "string \<Rightarrow> pat" where
  \<comment> \<open>\<^verbatim>\<open>(?m)^(\w+)\s*=\s*FastAPI\(\<close> and the same for \<^verbatim>\<open>Flask\<close>\<close>
  "py_app_re cls = seq [PBol, PGroup (PSome (PCls word_char)), PSpaces, lit ''='', PSpaces, lit (cls @ ''('')]"

definition pyFastAPIRe :: pat where "pyFastAPIRe = py_app_re ''FastAPI''"
definition pyFlaskRe :: pat where "pyFlaskRe = py_app_re ''Flask''"

definition pyAppFiles :: "string list" where
  "pyAppFiles = [''main.py'', ''app.py'', ''server.py'', ''app/main.py'', ''src/main.py'', ''api/main.py'']"

definition lower :: "char \<Rightarrow> char" where
  "lower c = (if is_upper c then char_of (byte c + 32) else c)"

fun to_lower :: "string \<Rightarrow> string" where
  \<comment> \<open>\<^verbatim>\<open>strings.ToLower\<close> as far as ASCII letters come out of it: the only others that do are U+0130 and U+212A\<close>
  "to_lower [] = []"
| "to_lower (c # s) =
     (if byte c = 0xC4 \<and> take 1 s = [CHR 0xB0] then CHR ''i'' # to_lower (drop 1 s)
      else if byte c = 0xE2 \<and> take 2 s = [CHR 0x84, CHR 0xAA] then CHR ''k'' # to_lower (drop 2 s)
      else lower c # to_lower s)"

definition pythonVersion :: "fs \<Rightarrow> string \<Rightarrow> string" where
  "pythonVersion fs pyproject =
     (let v = firstLine (ReadString fs ''.python-version'') in
      if v \<noteq> '''' then majorMinor v pythonDefaultVersion
      else let v = TOMLValue pyproject ''project'' ''requires-python'' in
        if v \<noteq> '''' then majorMinor v pythonDefaultVersion else pythonDefaultVersion)"

definition findPyApp :: "fs \<Rightarrow> pat \<Rightarrow> (string \<times> string) option" where
  \<comment> \<open>the module and the variable; \<open>None\<close> for two empty strings (a module's name is never empty)\<close>
  "findPyApp fs re = (case find (\<lambda>file. find_submatch re (ReadString fs file) \<noteq> None) pyAppFiles of
       None \<Rightarrow> None
     | Some file \<Rightarrow> (case find_submatch re (ReadString fs file) of
         None \<Rightarrow> None
       | Some (_, m) \<Rightarrow> Some (map (\<lambda>c. if c = CHR ''/'' then CHR ''.'' else c) (trim_suffix file ''.py''), group 1 m)))"

definition djangoWSGI :: "fs \<Rightarrow> string" where
  "djangoWSGI fs = (case find (\<lambda>dir. Exists fs (path_join [dir, ''wsgi.py''])) (ListDir fs ''.'' True) of
       Some dir \<Rightarrow> dir @ ''.wsgi:application'' | None \<Rightarrow> ''wsgi:application'')"

definition python_script :: "fs \<Rightarrow> facts \<Rightarrow> facts" where
  \<comment> \<open>the end of \<^verbatim>\<open>pythonEntrypoint\<close>, without a framework\<close>
  "python_script fs f =
     (let e = FirstExisting fs [''main.py'', ''app.py'', ''server.py'', ''src/main.py''];
          e = (if e = '''' then ''main.py'' else e)
      in f\<lparr>f_entrypoint := e, f_start_cmd := [''python'', e]\<rparr>)"

definition python_app :: "string \<Rightarrow> string \<Rightarrow> string \<Rightarrow> string \<Rightarrow> string \<Rightarrow> facts \<Rightarrow> facts" where
  \<comment> \<open>an application served by \<open>server\<close>\<close>
  "python_app framework entry package server opts f =
     (set_extra ''extraPackages'' package (f\<lparr>f_framework := framework, f_entrypoint := entry\<rparr>))\<lparr>
       f_start_cmd := shellCmd (server @ '' '' @ entry @ opts)\<rparr>"

definition pythonEntrypoint :: "fs \<Rightarrow> facts \<Rightarrow> string \<Rightarrow> facts" where
  "pythonEntrypoint fs f pyproject =
     (let deps = to_lower (pyproject @ ReadString fs ''requirements.txt'' @ ReadString fs ''Pipfile'') in
      if Exists fs ''manage.py'' \<or> contains deps ''django'' then
        python_app ''django'' (djangoWSGI fs) ''gunicorn'' ''gunicorn'' '' --bind 0.0.0.0:${PORT}'' f
      else if contains deps ''fastapi'' then
        (case findPyApp fs pyFastAPIRe of
           Some (module, app) \<Rightarrow>
             python_app ''fastapi'' (module @ '':'' @ app) ''uvicorn'' ''uvicorn'' '' --host 0.0.0.0 --port ${PORT}'' f
         | None \<Rightarrow> python_script fs f)
      else if contains deps ''flask'' then
        (case findPyApp fs pyFlaskRe of
           Some (module, app) \<Rightarrow>
             python_app ''flask'' (module @ '':'' @ app) ''gunicorn'' ''gunicorn'' '' --bind 0.0.0.0:${PORT}'' f
         | None \<Rightarrow> python_script fs f)
      else python_script fs f)"

definition Python_Detect :: "fs \<Rightarrow> facts \<times> bool" where
  "Python_Detect fs =
     (let f = newFacts ''python'' pythonDefaultVersion;
          pyproject = ReadString fs ''pyproject.toml'';
          found = (\<lambda>f. (pythonEntrypoint fs (f\<lparr>f_version := pythonVersion fs pyproject\<rparr>) pyproject, True))
      in if Exists fs ''uv.lock'' then
           found (f\<lparr>f_package_manager := ''uv'',
             f_install_cmd := ''pip install --no-cache-dir uv && uv sync --frozen --no-dev --no-install-project''\<rparr>)
         else if Exists fs ''poetry.lock'' \<or> TOMLHasSection pyproject ''tool.poetry'' then
           found (f\<lparr>f_package_manager := ''poetry'',
             f_install_cmd := ''pip install --no-cache-dir poetry && poetry config virtualenvs.create false && ''
               @ ''poetry install --only main --no-root --no-interaction''\<rparr>)
         else if Exists fs ''Pipfile'' then
           found (f\<lparr>f_package_manager := ''pipenv'',
             f_install_cmd := ''pip install --no-cache-dir pipenv && pipenv install --deploy --system''\<rparr>)
         else if Exists fs ''requirements.txt'' then
           found (f\<lparr>f_package_manager := ''pip'', f_install_cmd := ''pip install --no-cache-dir -r requirements.txt''\<rparr>)
         else if pyproject \<noteq> '''' \<or> Exists fs ''setup.py'' then
           found (f\<lparr>f_package_manager := ''pip'', f_install_cmd := ''pip install --no-cache-dir .''\<rparr>)
         else (f, False))"

definition Python :: language_impl where "Python = \<lparr>ln_name = ''python'', ln_detect = Python_Detect\<rparr>"

section \<open>ruby.go\<close>

definition rubyDefaultVersion :: string where "rubyDefaultVersion = ''3.3''"

definition rubyGemfileVersionRe :: pat where
  \<comment> \<open>\<^verbatim>\<open>(?m)^\s*ruby\s+["']([^"']+)["']\<close>\<close>
  "rubyGemfileVersionRe = seq [PBol, PSpaces, lit ''ruby'', PSome (PCls re_space), PCls (\<lambda>c. \<not> not_in [CHR 0x22, CHR 0x27] c),
     PGroup (PSome (PCls (not_in [CHR 0x22, CHR 0x27]))), PCls (\<lambda>c. \<not> not_in [CHR 0x22, CHR 0x27] c)]"

definition Ruby_Detect :: "fs \<Rightarrow> facts \<times> bool" where
  "Ruby_Detect fs =
     (let f = (newFacts ''ruby'' rubyDefaultVersion)\<lparr>f_package_manager := ''bundler''\<rparr>;
          gemfile = ReadString fs ''Gemfile''
      in if gemfile = '''' then (f, False)
         else
           let v = firstLine (ReadString fs ''.ruby-version'');
               f = (if v \<noteq> '''' then f\<lparr>f_version := majorMinor (trim_prefix v ''ruby-'') rubyDefaultVersion\<rparr>
                    else case find_submatch rubyGemfileVersionRe gemfile of
                        Some (_, m) \<Rightarrow> f\<lparr>f_version := majorMinor (group 1 m) rubyDefaultVersion\<rparr> | None \<Rightarrow> f);
               f = f\<lparr>f_install_cmd := ''bundle config set --local without '' @ [CHR 0x27] @ ''development test'' @ [CHR 0x27]
                   @ '' && bundle install --jobs 4''\<rparr>
           in (if Exists fs ''config/application.rb'' \<or> contains gemfile ([CHR 0x22] @ ''rails'' @ [CHR 0x22])
                  \<or> contains gemfile ([CHR 0x27] @ ''rails'' @ [CHR 0x27])
               then (set_extra ''rails'' ''true'' (f\<lparr>f_framework := ''rails'', f_entrypoint := ''config.ru''\<rparr>))\<lparr>
                   f_start_cmd := shellCmd ''bundle exec rails server -b 0.0.0.0 -p ${PORT}''\<rparr>
               else if Exists fs ''config.ru'' then
                 f\<lparr>f_framework := ''rack'', f_entrypoint := ''config.ru'',
                   f_start_cmd := shellCmd (''bundle exec '' @ (if contains gemfile ''puma''
                     then ''puma -b tcp://0.0.0.0:${PORT}'' else ''rackup -o 0.0.0.0 -p ${PORT}''))\<rparr>
               else
                 let e = FirstExisting fs [''app.rb'', ''main.rb'', ''server.rb'']; e = (if e = '''' then ''app.rb'' else e)
                 in f\<lparr>f_entrypoint := e, f_start_cmd := [''bundle'', ''exec'', ''ruby'', e]\<rparr>, True))"

definition Ruby :: language_impl where "Ruby = \<lparr>ln_name = ''ruby'', ln_detect = Ruby_Detect\<rparr>"

section \<open>Decoding JSON files\<close>

text \<open>
  \<^verbatim>\<open>json.Unmarshal\<close> into a field of type \<^verbatim>\<open>map[string]string\<close>: the values of a field that occurs more
  than once are merged, null empties the map, and a value that is not a string is an error.
\<close>

fun set_member :: "(string \<rightharpoonup> string) option \<Rightarrow> string \<times> jtree \<Rightarrow> (string \<rightharpoonup> string) option" where
  "set_member (Some m) (k, TStr s) = Some (m(k \<mapsto> s))"
| "set_member (Some m) (k, TNull) = Some (m(k \<mapsto> ''''))"
| "set_member (Some m) (k, v) = None"
| "set_member None kv = None"

fun set_map :: "(string \<rightharpoonup> string) option \<Rightarrow> jtree \<Rightarrow> (string \<rightharpoonup> string) option" where
  "set_map (Some m) (TObj kvs) = foldl set_member (Some m) kvs"
| "set_map (Some m) TNull = Some Map.empty"
| "set_map (Some m) v = None"
| "set_map None v = None"

definition decode_map :: "string \<Rightarrow> (string \<times> jtree) list \<Rightarrow> (string \<rightharpoonup> string) option" where
  "decode_map name kvs = foldl set_map (Some Map.empty) (field_values name kvs)"

section \<open>php.go\<close>

definition phpDefaultVersion :: string where "phpDefaultVersion = ''8.3''"

definition decode_composer :: "string \<Rightarrow> (string \<rightharpoonup> string) option" where
  \<comment> \<open>the field \<^verbatim>\<open>require\<close>\<close>
  "decode_composer data = (case parse_json data of
       Some TNull \<Rightarrow> Some Map.empty | Some (TObj kvs) \<Rightarrow> decode_map ''require'' kvs | _ \<Rightarrow> None)"

definition map_value :: "(string \<rightharpoonup> string) \<Rightarrow> string \<Rightarrow> string" where
  \<comment> \<open>\<^verbatim>\<open>m[k]\<close>\<close>
  "map_value m k = (case m k of None \<Rightarrow> '''' | Some v \<Rightarrow> v)"

definition PHP_Detect :: "fs \<Rightarrow> facts \<times> bool" where
  "PHP_Detect fs =
     (let f = set_extra ''docroot'' ''/var/www/html'' (newFacts ''php'' phpDefaultVersion);
          f = (if IsDir fs ''public'' then set_extra ''docroot'' ''/var/www/html/public'' f else f);
          f = f\<lparr>f_entrypoint := ''index.php''\<rparr>
      in if Exists fs ''composer.json'' then
           let f = f\<lparr>f_package_manager := ''composer''\<rparr>;
               f = (case ReadJSON fs decode_composer ''composer.json'' of
                   Some require \<Rightarrow> f\<lparr>f_version := majorMinor (map_value require ''php'') phpDefaultVersion\<rparr> | None \<Rightarrow> f);
               f = f\<lparr>f_install_cmd := ''composer install --no-dev --no-interaction --prefer-dist --optimize-autoloader''\<rparr>
           in (if Exists fs ''artisan'' then f\<lparr>f_framework := ''laravel''\<rparr> else f, True)
         else if Exists fs ''index.php'' \<or> Exists fs ''public/index.php'' then (f, True)
         else (f, False))"

definition PHP :: language_impl where "PHP = \<lparr>ln_name = ''php'', ln_detect = PHP_Detect\<rparr>"

section \<open>node.go\<close>

definition nodeDefaultVersion :: string where "nodeDefaultVersion = ''22''"
definition bun :: string where "bun = ''bun''"

record package_json =
  pj_main :: string
  pj_scripts :: "string \<rightharpoonup> string"
  pj_engines :: "string \<rightharpoonup> string"

definition decode_package :: "string \<Rightarrow> package_json option" where
  "decode_package data = (case parse_json data of
       Some TNull \<Rightarrow> Some \<lparr>pj_main = '''', pj_scripts = Map.empty, pj_engines = Map.empty\<rparr>
     | Some (TObj kvs) \<Rightarrow>
         (case (foldl set_string (Inr '''') (field_values ''main'' kvs), decode_map ''scripts'' kvs, decode_map ''engines'' kvs) of
            (Inr main, Some scripts, Some engines) \<Rightarrow> Some \<lparr>pj_main = main, pj_scripts = scripts, pj_engines = engines\<rparr>
          | _ \<Rightarrow> None)
     | _ \<Rightarrow> None)"

record node_pm =
  pm_name :: string
  pm_lockfile :: string
  pm_install :: string
  pm_prune :: string
  pm_corepack :: bool

definition nodePMs :: "node_pm list" where
  "nodePMs = [
     \<lparr>pm_name = ''pnpm'', pm_lockfile = ''pnpm-lock.yaml'', pm_install = ''pnpm install --frozen-lockfile'',
       pm_prune = ''pnpm prune --prod'', pm_corepack = True\<rparr>,
     \<lparr>pm_name = ''yarn'', pm_lockfile = ''yarn.lock'', pm_install = ''yarn install --frozen-lockfile'',
       pm_prune = '''', pm_corepack = True\<rparr>,
     \<lparr>pm_name = bun, pm_lockfile = ''bun.lock'', pm_install = ''bun install --frozen-lockfile'', pm_prune = '''', pm_corepack = False\<rparr>,
     \<lparr>pm_name = bun, pm_lockfile = ''bun.lockb'', pm_install = ''bun install --frozen-lockfile'', pm_prune = '''', pm_corepack = False\<rparr>,
     \<lparr>pm_name = ''npm'', pm_lockfile = ''package-lock.json'', pm_install = ''npm ci'', pm_prune = ''npm prune --omit=dev'',
       pm_corepack = False\<rparr>,
     \<lparr>pm_name = ''npm'', pm_lockfile = ''npm-shrinkwrap.json'', pm_install = ''npm ci'', pm_prune = ''npm prune --omit=dev'',
       pm_corepack = False\<rparr>]"

definition choose_pm :: "fs \<Rightarrow> node_pm" where
  \<comment> \<open>the package manager whose lock file is there\<close>
  "choose_pm fs =
     (let pm = (case find (\<lambda>c. Exists fs (pm_lockfile c)) nodePMs of
            Some c \<Rightarrow> c
          | None \<Rightarrow> \<lparr>pm_name = ''npm'', pm_lockfile = '''', pm_install = ''npm install'', pm_prune = ''npm prune --omit=dev'',
              pm_corepack = False\<rparr>)
      in if pm_name pm = ''yarn'' \<and> Exists fs ''.yarnrc.yml'' then pm\<lparr>pm_install := ''yarn install --immutable''\<rparr> else pm)"

definition nodeVersion :: "fs \<Rightarrow> package_json \<Rightarrow> string" where
  "nodeVersion fs pkg = (case find (\<lambda>v. v \<noteq> '''') (map (\<lambda>file. firstLine (ReadString fs file)) [''.nvmrc'', ''.node-version'']) of
       Some v \<Rightarrow> major v nodeDefaultVersion
     | None \<Rightarrow> major (map_value (pj_engines pkg) ''node'') nodeDefaultVersion)"

definition node_start :: "fs \<Rightarrow> node_pm \<Rightarrow> package_json \<Rightarrow> facts \<Rightarrow> facts" where
  \<comment> \<open>the final switch of \<^verbatim>\<open>Detect\<close>\<close>
  "node_start fs pm pkg f =
     (if map_value (pj_scripts pkg) ''start'' \<noteq> '''' then
        f\<lparr>f_entrypoint := ''start script'', f_start_cmd := [if pm_name pm = bun then bun else ''npm'', ''run'', ''start'']\<rparr>
      else
        let e = pj_main pkg;
            e = (if e = '''' then FirstExisting fs [''server.js'', ''index.js'', ''app.js'', ''main.js'', ''dist/index.js''] else e);
            e = (if e = '''' then ''index.js'' else e)
        in f\<lparr>f_entrypoint := e, f_start_cmd := [if pm_name pm = bun then bun else ''node'', e]\<rparr>)"

definition Node_Detect :: "fs \<Rightarrow> facts \<times> bool" where
  "Node_Detect fs =
     (let f = newFacts ''node'' nodeDefaultVersion in
      case ReadJSON fs decode_package ''package.json'' of
        None \<Rightarrow> (f\<lparr>f_package_manager := ''npm'', f_install_cmd := ''npm install'', f_start_cmd := [''npm'', ''start'']\<rparr>, False)
      | Some pkg \<Rightarrow>
          let pm = choose_pm fs;
              f = set_extra ''prune'' (pm_prune pm) (f\<lparr>f_package_manager := pm_name pm, f_install_cmd := pm_install pm\<rparr>);
              f = (if pm_corepack pm then set_extra ''corepack'' ''true'' f else f);
              f = (if pm_name pm = bun then set_extra ''image'' ''docker.io/oven/bun:1'' f else f);
              f = f\<lparr>f_version := nodeVersion fs pkg\<rparr>;
              f = (if pj_scripts pkg ''build'' \<noteq> None then f\<lparr>f_build_cmd := pm_name pm @ '' run build''\<rparr> else f)
          in (node_start fs pm pkg f, True))"

definition Node :: language_impl where "Node = \<lparr>ln_name = ''node'', ln_detect = Node_Detect\<rparr>"

section \<open>static.go\<close>

definition Static_Detect :: "fs \<Rightarrow> facts \<times> bool" where
  "Static_Detect fs =
     (let f = set_extra ''root'' ''.'' ((newFacts ''static'' ''1.27'')\<lparr>f_package_manager := ''none''\<rparr>) in
      case find (\<lambda>dir. Exists fs (dir @ ''/index.html'')) [''.'', ''public'', ''site'', ''www'', ''html''] of
        Some dir \<Rightarrow> ((set_extra ''root'' dir f)\<lparr>f_entrypoint := dir @ ''/index.html''\<rparr>, True)
      | None \<Rightarrow> (f\<lparr>f_entrypoint := ''index.html''\<rparr>, False))"

definition Static :: language_impl where "Static = \<lparr>ln_name = ''static'', ln_detect = Static_Detect\<rparr>"

section \<open>The registry\<close>

definition Registry :: "language_impl list" where
  "Registry = [Go, Rust, Java, Dotnet, Python, Ruby, PHP, Node, Static]"

definition ByName :: "string \<Rightarrow> language_impl option" where
  "ByName name = find (\<lambda>l. ln_name l = name) Registry"

definition Names :: "string list" where
  "Names = map ln_name Registry"

definition Detect :: "fs \<Rightarrow> facts option" where
  \<comment> \<open>\<open>None\<close> for \<^verbatim>\<open>nil, false\<close>\<close>
  "Detect fs = (case find (\<lambda>l. snd (ln_detect l fs)) Registry of
       None \<Rightarrow> None | Some l \<Rightarrow> Some (fst (ln_detect l fs)))"

end
