(* ===== verification/Render.thy ===== *)
theory Render
  imports Languages
begin

text \<open>
  \<^verbatim>\<open>internal/service/languages/render.go\<close> and the templates \<^verbatim>\<open>templates/*.Dockerfile.tmpl\<close>. A template is
  the list of the lines it produces: \<^verbatim>\<open>{{if}}\<close> with trimmed newlines adds whole lines. The lemmas say
  that the facts of a repository cannot add lines to a Dockerfile, and what every Dockerfile holds.
\<close>

abbreviation dq :: string where "dq \<equiv> [CHR 0x22]"
abbreviation sq :: string where "sq \<equiv> [CHR 0x27]"
abbreviation bs :: string where "bs \<equiv> [CHR 0x5C]"

definition json_strings :: "string list \<Rightarrow> string" where
  \<comment> \<open>\<^verbatim>\<open>json\<close> of a \<^verbatim>\<open>[]string\<close>; no detector sets an empty one, so the empty list is nil\<close>
  "json_strings xs = (if xs = [] then ''null''
     else ''['' @ join (map json_string xs) '','' @ '']'')"

section \<open>The templates\<close>

text \<open>
  \<^verbatim>\<open>{{.Extra.k}}\<close> prints \<^verbatim>\<open><no value>\<close> when the map has no key \<^verbatim>\<open>k\<close>: the templates are parsed without the
  option \<^verbatim>\<open>missingkey\<close>. In \<^verbatim>\<open>{{if .Extra.k}}\<close> a missing key is false, as an empty text is.
\<close>

definition tmpl_extra :: "facts \<Rightarrow> string \<Rightarrow> string" where
  "tmpl_extra f k = (case map_of (f_extra f) k of None \<Rightarrow> ''<no value>'' | Some v \<Rightarrow> v)"

lemma tmpl_extra_set: "extra f k \<noteq> '''' \<Longrightarrow> tmpl_extra f k = extra f k"
  by (simp add: tmpl_extra_def extra_def split: option.splits)

definition go_template :: "facts \<Rightarrow> string list" where
  "go_template f =
     [''# syntax=docker/dockerfile:1'',
      ''# Generated by Koptan: Go '' @ f_version f @ '', main package '' @ f_entrypoint f @ ''.'',
      ''FROM docker.io/library/golang:'' @ f_version f @ ''-bookworm AS build'',
      ''WORKDIR /src'',
      ''COPY . .'',
      ''RUN go mod download && mkdir -p /out && '' @ f_build_cmd f,
      '''',
      ''FROM gcr.io/distroless/static-debian12:nonroot'',
      ''COPY --from=build /out/app /app'',
      ''ENV PORT='' @ fmt_d (f_port f),
      ''EXPOSE '' @ fmt_d (f_port f),
      ''USER nonroot:nonroot'',
      ''ENTRYPOINT '' @ json_strings (f_start_cmd f)]"

definition rust_template :: "facts \<Rightarrow> string list" where
  "rust_template f =
     [''# syntax=docker/dockerfile:1'',
      ''# Generated by Koptan: Rust '' @ f_version f @ '', binary '' @ f_entrypoint f @ ''.'',
      ''FROM docker.io/library/rust:'' @ f_version f @ ''-bookworm AS build'',
      ''WORKDIR /src'',
      ''COPY . .'',
      ''RUN '' @ f_build_cmd f,
      '''',
      ''FROM docker.io/library/debian:bookworm-slim'',
      ''RUN apt-get update && apt-get install -y --no-install-recommends ca-certificates '' @ bs,
      ''    && rm -rf /var/lib/apt/lists/*'',
      ''WORKDIR /app'',
      ''COPY --from=build /src/target/release/'' @ f_entrypoint f @ '' /app/'' @ f_entrypoint f,
      ''ENV PORT='' @ fmt_d (f_port f),
      ''EXPOSE '' @ fmt_d (f_port f),
      ''USER 10001:10001'',
      ''CMD '' @ json_strings (f_start_cmd f)]"

definition java_template :: "facts \<Rightarrow> string list" where
  "java_template f =
     [''# syntax=docker/dockerfile:1'',
      ''# Generated by Koptan: Java '' @ f_version f @ '' with '' @ f_package_manager f @ ''.'',
      ''FROM '' @ tmpl_extra f ''builderImage'' @ '' AS build'',
      ''WORKDIR /src'',
      ''COPY . .'',
      ''RUN '' @ f_build_cmd f @ '' '' @ bs,
      ''    && jar='' @ dq @ ''$(find '' @ tmpl_extra f ''outputDir'' @ '' -maxdepth 1 -name '' @ sq @ ''*.jar'' @ sq @ '' ! -name '' @ sq @ ''*-plain.jar'' @ sq @ '' '' @ bs,
      ''        ! -name '' @ sq @ ''*-sources.jar'' @ sq @ '' ! -name '' @ sq @ ''*-javadoc.jar'' @ sq @ '' ! -name '' @ sq @ ''original-*'' @ sq @ '' | head -n1)'' @ dq @ '' '' @ bs,
      ''    && test -n '' @ dq @ ''$jar'' @ dq @ '' && cp '' @ dq @ ''$jar'' @ dq @ '' /app.jar'',
      '''',
      ''FROM docker.io/library/eclipse-temurin:'' @ f_version f @ ''-jre'',
      ''WORKDIR /app'',
      ''COPY --from=build /app.jar /app/app.jar'',
      ''ENV PORT='' @ fmt_d (f_port f) @ '' JAVA_OPTS='' @ dq @ dq,
      ''EXPOSE '' @ fmt_d (f_port f),
      ''USER 10001:10001'',
      ''CMD '' @ json_strings (f_start_cmd f)]"

definition dotnet_template :: "facts \<Rightarrow> string list" where
  "dotnet_template f =
     [''# syntax=docker/dockerfile:1'',
      ''# Generated by Koptan: .NET '' @ f_version f @ '', project '' @ tmpl_extra f ''project'' @ ''.'',
      ''FROM mcr.microsoft.com/dotnet/sdk:'' @ f_version f @ '' AS build'',
      ''WORKDIR /src'',
      ''COPY . .'',
      ''RUN dotnet publish '' @ dq @ tmpl_extra f ''project'' @ dq @ '' -c Release -o /out -p:UseAppHost=false'',
      '''',
      ''FROM mcr.microsoft.com/dotnet/aspnet:'' @ f_version f,
      ''WORKDIR /app'',
      ''COPY --from=build /out .'',
      ''ENV PORT='' @ fmt_d (f_port f) @ '' ASPNETCORE_URLS=http://+:'' @ fmt_d (f_port f),
      ''EXPOSE '' @ fmt_d (f_port f),
      ''USER '' @ tmpl_extra f ''user'',
      ''CMD '' @ json_strings (f_start_cmd f)]"

definition python_template :: "facts \<Rightarrow> string list" where
  "python_template f =
     [''# syntax=docker/dockerfile:1'',
      ''# Generated by Koptan: Python '' @ f_version f @ '' with '' @ f_package_manager f @ (if f_framework f \<noteq> '''' then '', '' @ f_framework f else '''') @ ''.'',
      ''FROM docker.io/library/python:'' @ f_version f @ ''-slim AS build'',
      ''ENV VIRTUAL_ENV=/opt/venv PATH=/opt/venv/bin:$PATH UV_PROJECT_ENVIRONMENT=/opt/venv '' @ bs,
      ''    PIP_DISABLE_PIP_VERSION_CHECK=1'',
      ''RUN python -m venv /opt/venv'',
      ''WORKDIR /app'',
      ''COPY . .'']
   @ (if extra f ''extraPackages'' \<noteq> '''' then [''RUN '' @ f_install_cmd f @ '' '' @ bs,
      ''    && pip install --no-cache-dir '' @ tmpl_extra f ''extraPackages'']
      else [''RUN '' @ f_install_cmd f])
   @ ['''',
      ''FROM docker.io/library/python:'' @ f_version f @ ''-slim'',
      ''ENV VIRTUAL_ENV=/opt/venv PATH=/opt/venv/bin:$PATH PYTHONUNBUFFERED=1 PORT='' @ fmt_d (f_port f),
      ''WORKDIR /app'',
      ''COPY --from=build /opt/venv /opt/venv'',
      ''COPY . .'',
      ''EXPOSE '' @ fmt_d (f_port f),
      ''USER 10001:10001'',
      ''CMD '' @ json_strings (f_start_cmd f)]"

definition ruby_template :: "facts \<Rightarrow> string list" where
  "ruby_template f =
     [''# syntax=docker/dockerfile:1'',
      ''# Generated by Koptan: Ruby '' @ f_version f @ (if f_framework f \<noteq> '''' then '', '' @ f_framework f else '''') @ ''.'',
      ''FROM docker.io/library/ruby:'' @ f_version f @ ''-slim AS build'',
      ''RUN apt-get update && apt-get install -y --no-install-recommends '' @ bs,
      ''        build-essential git libpq-dev libyaml-dev pkg-config '' @ bs,
      ''    && rm -rf /var/lib/apt/lists/*'',
      ''WORKDIR /app'',
      ''COPY . .'']
   @ (if extra f ''rails'' \<noteq> '''' then [''RUN '' @ f_install_cmd f @ '' '' @ bs,
      ''    && (SECRET_KEY_BASE_DUMMY=1 bundle exec rails assets:precompile || true)'']
      else [''RUN '' @ f_install_cmd f])
   @ ['''',
      ''FROM docker.io/library/ruby:'' @ f_version f @ ''-slim'',
      ''RUN apt-get update && apt-get install -y --no-install-recommends libpq5 '' @ bs,
      ''    && rm -rf /var/lib/apt/lists/*'',
      ''WORKDIR /app'',
      ''ENV RAILS_ENV=production RACK_ENV=production RAILS_LOG_TO_STDOUT=1 '' @ bs,
      ''    RAILS_SERVE_STATIC_FILES=1 BUNDLE_WITHOUT=development:test PORT='' @ fmt_d (f_port f),
      ''COPY --from=build /usr/local/bundle /usr/local/bundle'',
      ''COPY --from=build --chown=10001:10001 /app /app'',
      ''EXPOSE '' @ fmt_d (f_port f),
      ''USER 10001:10001'',
      ''CMD '' @ json_strings (f_start_cmd f)]"

definition php_template :: "facts \<Rightarrow> string list" where
  "php_template f =
     [''# syntax=docker/dockerfile:1'',
      ''# Generated by Koptan: PHP '' @ f_version f @ '' on Apache'' @ (if f_framework f \<noteq> '''' then '', '' @ f_framework f else '''') @ ''.'',
      ''FROM docker.io/library/php:'' @ f_version f @ ''-apache'']
   @ (if f_install_cmd f \<noteq> '''' then [''COPY --from=composer:2 /usr/bin/composer /usr/bin/composer'',
      ''RUN apt-get update && apt-get install -y --no-install-recommends git unzip '' @ bs,
      ''    && rm -rf /var/lib/apt/lists/*''] else [])
   @ [''ENV APACHE_DOCUMENT_ROOT='' @ tmpl_extra f ''docroot'' @ '' PORT='' @ fmt_d (f_port f),
      ''# Apache reads ${PORT} and ${APACHE_DOCUMENT_ROOT} from the environment.'',
      ''RUN sed -ri '' @ sq @ ''s!/var/www/html!${APACHE_DOCUMENT_ROOT}!g'' @ sq @ '' /etc/apache2/sites-available/*.conf '' @ bs,
      ''    && sed -ri '' @ sq @ ''s!Listen 80$!Listen ${PORT}!'' @ sq @ '' /etc/apache2/ports.conf '' @ bs,
      ''    && sed -ri '' @ sq @ ''s!<VirtualHost '' @ bs @ ''*:80>!<VirtualHost *:${PORT}>!'' @ sq @ '' /etc/apache2/sites-available/000-default.conf '' @ bs,
      ''    && a2enmod rewrite'',
      ''WORKDIR /var/www/html'',
      ''COPY --chown=www-data:www-data . .'']
   @ (if f_install_cmd f \<noteq> '''' then [''RUN '' @ f_install_cmd f @ '' && chown -R www-data:www-data vendor''] else [])
   @ [''EXPOSE '' @ fmt_d (f_port f),
      ''USER www-data'']"

definition node_template :: "facts \<Rightarrow> string list" where
  "node_template f =
     [''# syntax=docker/dockerfile:1'',
      ''# Generated by Koptan: Node '' @ f_version f @ '' with '' @ f_package_manager f @ '', starts with '' @ f_entrypoint f @ ''.'',
      ''FROM '' @ (if extra f ''image'' \<noteq> '''' then tmpl_extra f ''image'' else ''docker.io/library/node:'' @ f_version f @ ''-bookworm-slim'') @ '' AS build'',
      ''WORKDIR /app'']
   @ (if extra f ''corepack'' \<noteq> '''' then [''RUN npm install -g corepack && corepack enable'',
      ''ENV COREPACK_ENABLE_DOWNLOAD_PROMPT=0''] else [])
   @ [''COPY . .'',
      ''RUN '' @ f_install_cmd f]
   @ (if f_build_cmd f \<noteq> '''' then [''RUN '' @ f_build_cmd f] else [])
   @ (if extra f ''prune'' \<noteq> '''' then [''RUN '' @ tmpl_extra f ''prune''] else [])
   @ ['''',
      ''FROM '' @ (if extra f ''image'' \<noteq> '''' then tmpl_extra f ''image'' else ''docker.io/library/node:'' @ f_version f @ ''-bookworm-slim''),
      ''WORKDIR /app'',
      ''ENV NODE_ENV=production PORT='' @ fmt_d (f_port f),
      ''COPY --from=build --chown=1000:1000 /app /app'',
      ''EXPOSE '' @ fmt_d (f_port f),
      ''USER 1000:1000'',
      ''CMD '' @ json_strings (f_start_cmd f)]"

definition static_template :: "facts \<Rightarrow> string list" where
  "static_template f =
     [''# syntax=docker/dockerfile:1'',
      ''# Generated by Koptan: static site from '' @ tmpl_extra f ''root'' @ ''/ on nginx.'',
      ''FROM docker.io/nginxinc/nginx-unprivileged:'' @ f_version f @ ''-alpine'',
      ''USER root'',
      ''RUN printf '' @ sq @ ''server {'' @ bs @ ''n  listen '' @ fmt_d (f_port f) @ '';'' @ bs @ ''n  server_name _;'' @ bs @ ''n  root /usr/share/nginx/html;'' @ bs @ ''n  index index.html;'' @ bs @ ''n  location / {'' @ bs @ ''n    try_files $uri $uri/ /index.html;'' @ bs @ ''n  }'' @ bs @ ''n}'' @ bs @ ''n'' @ sq @ '' '' @ bs,
      ''        > /etc/nginx/conf.d/default.conf'',
      ''COPY --chown=101:101 '' @ tmpl_extra f ''root'' @ ''/ /usr/share/nginx/html/'',
      ''ENV PORT='' @ fmt_d (f_port f),
      ''EXPOSE '' @ fmt_d (f_port f),
      ''USER 101:101'']"

definition templates :: "(string \<times> (facts \<Rightarrow> string list)) list" where
  "templates = [(''go'', go_template), (''rust'', rust_template), (''java'', java_template), (''dotnet'', dotnet_template),
     (''python'', python_template), (''ruby'', ruby_template), (''php'', php_template), (''node'', node_template),
     (''static'', static_template)]"

section \<open>render.go\<close>

definition fact_values :: "facts \<Rightarrow> string list" where
  \<comment> \<open>\<^verbatim>\<open>values\<close>; Go goes through the map \<^verbatim>\<open>Extra\<close> in any order, which only decides what error is reported\<close>
  "fact_values f = [f_version f, f_package_manager f, f_framework f, f_entrypoint f, f_install_cmd f, f_build_cmd f]
     @ f_start_cmd f @ map snd (f_extra f)"

definition checkSingleLine :: "facts \<Rightarrow> gerror option" where
  "checkSingleLine f = (case find (\<lambda>v. contains_any v [CHR 0x0D, CHR 0x0A]) (fact_values f) of
       None \<Rightarrow> None | Some v \<Rightarrow> Some (errorf (''detected value '' @ fmt_q v @ '' spans several lines'')))"

definition unlines_text :: "string list \<Rightarrow> string" where
  "unlines_text ls = concat (map (\<lambda>l. l @ [CHR 0x0A]) ls)"

definition Render :: "facts \<Rightarrow> gerror + string" where
  "Render f = (case map_of templates (f_language f) of
       None \<Rightarrow> Inl (errorf (''no Dockerfile template for language '' @ fmt_q (f_language f)))
     | Some template \<Rightarrow>
         if f_port f = 0 then Inl (errorf (''render '' @ f_language f @ '': port is not set''))
         else (case checkSingleLine f of
             Some err \<Rightarrow> Inl (wrapf (''render '' @ f_language f @ '': '') err)
           | None \<Rightarrow> Inr (unlines_text (template f))))"

section \<open>Facts cannot add lines\<close>

definition one_line :: "string \<Rightarrow> bool" where
  "one_line s \<longleftrightarrow> CHR 0x0A \<notin> set s"

lemma one_line_append [simp]: "one_line (a @ b) \<longleftrightarrow> one_line a \<and> one_line b"
  by (auto simp: one_line_def)

lemma one_line_Cons [simp]: "one_line (c # s) \<longleftrightarrow> c \<noteq> CHR 0x0A \<and> one_line s" "one_line []"
  by (auto simp: one_line_def)

lemma split_unlines: "list_all one_line ls \<Longrightarrow> split_on CHR 0x0A (unlines_text ls) = ls @ ['''']"
  by (induction ls) (simp_all add: unlines_text_def one_line_def split_on_append)

lemma checked_values: "checkSingleLine f = None \<Longrightarrow> v \<in> set (fact_values f) \<Longrightarrow> one_line v"
  by (auto simp: checkSingleLine_def one_line_def find_None_iff contains_any_iff split: option.splits)

lemma checked_facts:
  assumes "checkSingleLine f = None"
  shows "one_line (f_version f)" "one_line (f_package_manager f)" "one_line (f_framework f)" "one_line (f_entrypoint f)"
    "one_line (f_install_cmd f)" "one_line (f_build_cmd f)" "list_all one_line (f_start_cmd f)" "one_line (extra f k)"
    "one_line (tmpl_extra f k)"
proof -
  note v = checked_values [OF assms]
  show "one_line (f_version f)" "one_line (f_package_manager f)" "one_line (f_framework f)" "one_line (f_entrypoint f)"
    "one_line (f_install_cmd f)" "one_line (f_build_cmd f)" by (rule v, simp add: fact_values_def)+
  show "list_all one_line (f_start_cmd f)" using v by (auto simp: list_all_iff fact_values_def)
  show "one_line (extra f k)"
  proof (cases "map_of (f_extra f) k")
    case (Some x)
    then have "x \<in> snd ` set (f_extra f)" using map_of_SomeD by force
    then have "one_line x" by (intro v) (simp add: fact_values_def)
    with Some show ?thesis by (simp add: extra_def)
  qed (simp add: extra_def)
  then show "one_line (tmpl_extra f k)"
    by (simp add: tmpl_extra_def extra_def split: option.splits)
qed

lemma one_line_join: "list_all one_line xs \<Longrightarrow> one_line sep \<Longrightarrow> one_line (join xs sep)"
  by (induction xs sep rule: join.induct) simp_all

lemma one_line_fmt_d [simp]: "one_line (fmt_d i)"
proof -
  have "one_line (fmt_nat n)" for n
    using fmt_nat_digits [of n] by (auto simp: one_line_def list_all_iff is_digit_def)
  then show ?thesis by (simp add: fmt_d_def)
qed

lemma hex_digit_plain: "n < 16 \<Longrightarrow> hex_digit n \<noteq> CHR 0x0A"
proof
  assume n: "n < 16" and "hex_digit n = CHR 0x0A"
  then have "byte (hex_digit n) = 10" by (simp add: byte_def)
  moreover have "byte (hex_digit n) = (if n < 10 then 48 + n else 87 + n)"
    using n by (simp add: byte_def hex_digit_def)
  ultimately show False using n by (simp split: if_splits)
qed

lemma json_char_one_line: "one_line (json_char c)"
proof -
  have nl: "c = CHR 0x0A \<Longrightarrow> (of_char c :: nat) = 10" by simp
  have "hex_digit (of_char c div 16) \<noteq> CHR 0x0A" if "of_char c < (32::nat) \<or> (of_char c :: nat) \<in> {60, 62, 38}"
    by (rule hex_digit_plain) (use that in auto)
  moreover have "hex_digit (of_char c mod 16) \<noteq> CHR 0x0A" by (rule hex_digit_plain) simp
  moreover have "c \<noteq> CHR 0x0A" if "\<not> (of_char c :: nat) = 10" using that nl by blast
  ultimately show ?thesis unfolding json_char_def Let_def by (auto simp: nl)
qed

lemma one_line_take: "one_line s \<Longrightarrow> one_line (take n s)" "one_line s \<Longrightarrow> one_line (drop n s)"
  by (auto simp: one_line_def dest: in_set_takeD in_set_dropD)

lemma json_runes_one_line: "one_line s \<Longrightarrow> one_line (json_runes n s)"
proof (induction n s rule: json_runes.induct)
  case (2 n s)
  then show ?case by (cases s) (simp_all add: json_char_one_line one_line_take)
qed simp

lemma json_strings_one_line: "list_all one_line xs \<Longrightarrow> one_line (json_strings xs)"
  by (auto simp: json_strings_def list_all_iff json_string_def intro!: one_line_join json_runes_one_line)

text \<open>The user the last stage runs as: that of the last \<^verbatim>\<open>USER\<close> instruction.\<close>

definition last_user :: "string list \<Rightarrow> string" where
  "last_user ls = foldl (\<lambda>u l. if has_prefix l ''USER '' then trim_prefix l ''USER '' else u) '''' ls"

definition from_line :: "string \<Rightarrow> bool" where
  "from_line l \<longleftrightarrow> has_prefix l ''FROM '' \<and> length l > 5 \<and> is_alnum (last l)"

text \<open>What every template keeps to: one instruction or comment per line, a base image on the third line, the
  port in the environment and exposed, and a user.\<close>

definition template_rules :: "facts \<Rightarrow> string \<Rightarrow> string list \<Rightarrow> bool" where
  "template_rules f user ls \<longleftrightarrow> list_all one_line ls \<and> last_user ls = user
     \<and> (''EXPOSE '' @ fmt_d (f_port f)) \<in> set ls
     \<and> list_ex (\<lambda>l. contains l (''PORT='' @ fmt_d (f_port f))) ls
     \<and> length ls > 2 \<and> from_line (ls ! 2)"

lemma has_prefix_self [simp]: "has_prefix s s"
  by (simp add: has_prefix_def)

lemma contains_right: "contains b s \<Longrightarrow> contains (a @ b) s"
  unfolding contains_iff by (metis append_assoc)

lemma go_rules:
  assumes "checkSingleLine f = None"
  shows "template_rules f (''nonroot:nonroot'') (go_template f)"
  unfolding template_rules_def
proof (intro conjI)
  show "list_all one_line (go_template f)"
    by (simp add: go_template_def checked_facts [OF assms] json_strings_one_line)
  show "last_user (go_template f) = ''nonroot:nonroot''"
    by (simp add: go_template_def last_user_def trim_prefix_def)
  show "''EXPOSE '' @ fmt_d (f_port f) \<in> set (go_template f)"
    by (simp add: go_template_def)
  show "list_ex (\<lambda>l. contains l (''PORT='' @ fmt_d (f_port f))) (go_template f)"
    by (simp add: go_template_def)
  show "length (go_template f) > 2" "from_line (go_template f ! 2)"
    by (simp_all add: go_template_def from_line_def is_alnum_def is_lower_def is_upper_def is_digit_def less_eq_char_def)
qed

lemma rust_rules:
  assumes "checkSingleLine f = None"
  shows "template_rules f (''10001:10001'') (rust_template f)"
  unfolding template_rules_def
proof (intro conjI)
  show "list_all one_line (rust_template f)"
    by (simp add: rust_template_def checked_facts [OF assms] json_strings_one_line)
  show "last_user (rust_template f) = ''10001:10001''"
    by (simp add: rust_template_def last_user_def trim_prefix_def)
  show "''EXPOSE '' @ fmt_d (f_port f) \<in> set (rust_template f)"
    by (simp add: rust_template_def)
  show "list_ex (\<lambda>l. contains l (''PORT='' @ fmt_d (f_port f))) (rust_template f)"
    by (simp add: rust_template_def)
  show "length (rust_template f) > 2" "from_line (rust_template f ! 2)"
    by (simp_all add: rust_template_def from_line_def is_alnum_def is_lower_def is_upper_def is_digit_def less_eq_char_def)
qed

lemma java_rules:
  assumes "checkSingleLine f = None"
  shows "template_rules f (''10001:10001'') (java_template f)"
  unfolding template_rules_def
proof (intro conjI)
  show "list_all one_line (java_template f)"
    by (simp add: java_template_def checked_facts [OF assms] json_strings_one_line)
  show "last_user (java_template f) = ''10001:10001''"
    by (simp add: java_template_def last_user_def trim_prefix_def)
  show "''EXPOSE '' @ fmt_d (f_port f) \<in> set (java_template f)"
    by (simp add: java_template_def)
  show "list_ex (\<lambda>l. contains l (''PORT='' @ fmt_d (f_port f))) (java_template f)"
    by (simp add: java_template_def)
  show "length (java_template f) > 2" "from_line (java_template f ! 2)"
    by (simp_all add: java_template_def from_line_def is_alnum_def is_lower_def is_upper_def is_digit_def less_eq_char_def)
qed

lemma dotnet_rules:
  assumes "checkSingleLine f = None"
  shows "template_rules f (tmpl_extra f ''user'') (dotnet_template f)"
  unfolding template_rules_def
proof (intro conjI)
  show "list_all one_line (dotnet_template f)"
    by (simp add: dotnet_template_def checked_facts [OF assms] json_strings_one_line)
  show "last_user (dotnet_template f) = tmpl_extra f ''user''"
    by (simp add: dotnet_template_def last_user_def trim_prefix_def)
  show "''EXPOSE '' @ fmt_d (f_port f) \<in> set (dotnet_template f)"
    by (simp add: dotnet_template_def)
  show "list_ex (\<lambda>l. contains l (''PORT='' @ fmt_d (f_port f))) (dotnet_template f)"
    by (simp add: dotnet_template_def)
  show "length (dotnet_template f) > 2" "from_line (dotnet_template f ! 2)"
    by (simp_all add: dotnet_template_def from_line_def is_alnum_def is_lower_def is_upper_def is_digit_def less_eq_char_def)
qed

lemma python_rules:
  assumes "checkSingleLine f = None"
  shows "template_rules f (''10001:10001'') (python_template f)"
  unfolding template_rules_def
proof (intro conjI)
  show "list_all one_line (python_template f)"
    by (simp add: python_template_def checked_facts [OF assms] json_strings_one_line)
  show "last_user (python_template f) = ''10001:10001''"
    by (simp add: python_template_def last_user_def trim_prefix_def)
  show "''EXPOSE '' @ fmt_d (f_port f) \<in> set (python_template f)"
    by (simp add: python_template_def)
  show "list_ex (\<lambda>l. contains l (''PORT='' @ fmt_d (f_port f))) (python_template f)"
    by (simp add: python_template_def)
  show "length (python_template f) > 2" "from_line (python_template f ! 2)"
    by (simp_all add: python_template_def from_line_def is_alnum_def is_lower_def is_upper_def is_digit_def less_eq_char_def)
qed

lemma ruby_rules:
  assumes "checkSingleLine f = None"
  shows "template_rules f (''10001:10001'') (ruby_template f)"
  unfolding template_rules_def
proof (intro conjI)
  show "list_all one_line (ruby_template f)"
    by (simp add: ruby_template_def checked_facts [OF assms] json_strings_one_line)
  show "last_user (ruby_template f) = ''10001:10001''"
    by (simp add: ruby_template_def last_user_def trim_prefix_def)
  show "''EXPOSE '' @ fmt_d (f_port f) \<in> set (ruby_template f)"
    by (simp add: ruby_template_def)
  show "list_ex (\<lambda>l. contains l (''PORT='' @ fmt_d (f_port f))) (ruby_template f)"
    by (simp add: ruby_template_def)
  show "length (ruby_template f) > 2" "from_line (ruby_template f ! 2)"
    by (simp_all add: ruby_template_def from_line_def is_alnum_def is_lower_def is_upper_def is_digit_def less_eq_char_def)
qed

lemma php_rules:
  assumes "checkSingleLine f = None"
  shows "template_rules f (''www-data'') (php_template f)"
  unfolding template_rules_def
proof (intro conjI)
  show "list_all one_line (php_template f)"
    by (simp add: php_template_def checked_facts [OF assms] json_strings_one_line)
  show "last_user (php_template f) = ''www-data''"
    by (simp add: php_template_def last_user_def trim_prefix_def)
  show "''EXPOSE '' @ fmt_d (f_port f) \<in> set (php_template f)"
    by (simp add: php_template_def)
  show "list_ex (\<lambda>l. contains l (''PORT='' @ fmt_d (f_port f))) (php_template f)"
  proof -
    have "contains (tmpl_extra f ''docroot'' @ '' PORT='' @ fmt_d (f_port f)) (''PORT='' @ fmt_d (f_port f))"
      by (rule contains_right) simp
    then show ?thesis by (simp add: php_template_def)
  qed
  show "length (php_template f) > 2" "from_line (php_template f ! 2)"
    by (simp_all add: php_template_def from_line_def is_alnum_def is_lower_def is_upper_def is_digit_def less_eq_char_def)
qed

lemma node_rules:
  assumes "checkSingleLine f = None"
  shows "template_rules f (''1000:1000'') (node_template f)"
  unfolding template_rules_def
proof (intro conjI)
  show "list_all one_line (node_template f)"
    by (simp add: node_template_def checked_facts [OF assms] json_strings_one_line)
  show "last_user (node_template f) = ''1000:1000''"
    by (simp add: node_template_def last_user_def trim_prefix_def)
  show "''EXPOSE '' @ fmt_d (f_port f) \<in> set (node_template f)"
    by (simp add: node_template_def)
  show "list_ex (\<lambda>l. contains l (''PORT='' @ fmt_d (f_port f))) (node_template f)"
    by (simp add: node_template_def)
  show "length (node_template f) > 2" "from_line (node_template f ! 2)"
    by (simp_all add: node_template_def from_line_def is_alnum_def is_lower_def is_upper_def is_digit_def less_eq_char_def)
qed

lemma static_rules:
  assumes "checkSingleLine f = None"
  shows "template_rules f (''101:101'') (static_template f)"
  unfolding template_rules_def
proof (intro conjI)
  show "list_all one_line (static_template f)"
    by (simp add: static_template_def checked_facts [OF assms] json_strings_one_line)
  show "last_user (static_template f) = ''101:101''"
    by (simp add: static_template_def last_user_def trim_prefix_def)
  show "''EXPOSE '' @ fmt_d (f_port f) \<in> set (static_template f)"
    by (simp add: static_template_def)
  show "list_ex (\<lambda>l. contains l (''PORT='' @ fmt_d (f_port f))) (static_template f)"
    by (simp add: static_template_def)
  show "length (static_template f) > 2" "from_line (static_template f ! 2)"
    by (simp_all add: static_template_def from_line_def is_alnum_def is_lower_def is_upper_def is_digit_def less_eq_char_def)
qed

text \<open>The Dockerfile of a template, line by line.\<close>

lemma template_cases:
  assumes "map_of templates l = Some t"
  obtains "l = ''go''" "t = go_template" | "l = ''rust''" "t = rust_template" | "l = ''java''" "t = java_template"
  | "l = ''dotnet''" "t = dotnet_template" | "l = ''python''" "t = python_template" | "l = ''ruby''" "t = ruby_template"
  | "l = ''php''" "t = php_template" | "l = ''node''" "t = node_template" | "l = ''static''" "t = static_template"
  using assms unfolding templates_def by (auto split: if_splits)

definition plain_users :: "string list" where
  "plain_users = [''nonroot:nonroot'', ''10001:10001'', ''1000:1000'', ''101:101'', ''www-data'']"

lemma Render_rules:
  assumes "Render f = Inr d"
  shows "\<exists>t user. map_of templates (f_language f) = Some t \<and> split_on CHR 0x0A d = t f @ [''''] \<and> d = unlines_text (t f)
     \<and> template_rules f user (t f)
     \<and> (user \<in> set plain_users \<or> f_language f = ''dotnet'' \<and> user = tmpl_extra f ''user'')"
proof -
  from assms obtain t where t: "map_of templates (f_language f) = Some t" "checkSingleLine f = None" "d = unlines_text (t f)"
    by (auto simp: Render_def split: option.splits if_splits)
  have "\<exists>user. template_rules f user (t f) \<and> (user \<in> set plain_users \<or> f_language f = ''dotnet'' \<and> user = tmpl_extra f ''user'')"
    using t(1)
  proof (cases rule: template_cases)
    case 1
    then show ?thesis using go_rules [OF t(2)] by (intro exI [of _ "''nonroot:nonroot''"]) (simp add: plain_users_def)
  next
    case 2
    then show ?thesis using rust_rules [OF t(2)] by (intro exI [of _ "''10001:10001''"]) (simp add: plain_users_def)
  next
    case 3
    then show ?thesis using java_rules [OF t(2)] by (intro exI [of _ "''10001:10001''"]) (simp add: plain_users_def)
  next
    case 4
    then show ?thesis using dotnet_rules [OF t(2)] by (intro exI [of _ "tmpl_extra f ''user''"]) (simp add: plain_users_def)
  next
    case 5
    then show ?thesis using python_rules [OF t(2)] by (intro exI [of _ "''10001:10001''"]) (simp add: plain_users_def)
  next
    case 6
    then show ?thesis using ruby_rules [OF t(2)] by (intro exI [of _ "''10001:10001''"]) (simp add: plain_users_def)
  next
    case 7
    then show ?thesis using php_rules [OF t(2)] by (intro exI [of _ "''www-data''"]) (simp add: plain_users_def)
  next
    case 8
    then show ?thesis using node_rules [OF t(2)] by (intro exI [of _ "''1000:1000''"]) (simp add: plain_users_def)
  next
    case 9
    then show ?thesis using static_rules [OF t(2)] by (intro exI [of _ "''101:101''"]) (simp add: plain_users_def)
  qed
  then obtain user where u: "template_rules f user (t f)"
    "user \<in> set plain_users \<or> f_language f = ''dotnet'' \<and> user = tmpl_extra f ''user''" by blast
  have "split_on CHR 0x0A d = t f @ ['''']"
    using u(1) split_unlines unfolding t(3) template_rules_def by blast
  with u t show ?thesis by blast
qed

end
