(* ===== verification/Discovery.thy ===== *)
theory Discovery
  imports Render
begin

text \<open>
  Package \<^verbatim>\<open>internal/service\<close>: the discovery engine (\<^verbatim>\<open>discovery.go\<close>) with \<^verbatim>\<open>clone.go\<close>,
  \<^verbatim>\<open>locate.go\<close>, \<^verbatim>\<open>validate.go\<close> and \<^verbatim>\<open>dockerignore.go\<close>. Requests and results are the records of
  theory \<open>Effects\<close>, which the Service reconciler exchanges with the engine as the event
  \<open>EvDiscover\<close>. What go-git and the operating system do is the parameter \<open>host\<close>.
\<close>

section \<open>validate.go\<close>

definition MaxDockerfileSize :: nat where "MaxDockerfileSize = 262144"

definition is_from :: "string \<Rightarrow> bool" where
  "is_from line \<longleftrightarrow> length line \<ge> 5 \<and> map upper (take 5 line) = ''FROM ''"

definition ValidateDockerfile :: "string \<Rightarrow> gerror option" where
  "ValidateDockerfile data =
     (if trim_space data = '''' then Some (errorf ''empty Dockerfile'')
      else if length data > MaxDockerfileSize
      then Some (errorf (''the Dockerfile is larger than '' @ fmt_d (int MaxDockerfileSize) @ '' bytes''))
      else if list_ex (\<lambda>l. is_from (trim_space l)) (scan_lines data) then None
      else Some (errorf ''no FROM instruction in the Dockerfile''))"

section \<open>locate.go\<close>

definition dockerfileNames :: "string list" where
  "dockerfileNames = [''Dockerfile'', ''Containerfile'', ''dockerfile'', ''docker/Dockerfile'', ''build/Dockerfile'', ''deploy/Dockerfile'']"

fun try_names :: "fs \<Rightarrow> string list \<Rightarrow> gerror + string option" where
  \<comment> \<open>the loop of \<^verbatim>\<open>locateDockerfile\<close>; \<open>None\<close> when nothing was found\<close>
  "try_names ctx [] = Inr None"
| "try_names ctx (name # names) =
     (if IsDir ctx name \<or> \<not> Exists ctx name then try_names ctx names
      else (case ReadFile ctx name of
          Inl err \<Rightarrow> Inl (wrapf (''read '' @ name @ '': '') err) | Inr data \<Rightarrow> Inr (Some data)))"

definition locateDockerfile :: "fs \<Rightarrow> fs \<Rightarrow> string \<Rightarrow> gerror + string option" where
  "locateDockerfile root ctx explicit =
     (if explicit \<noteq> '''' then
        (case ReadFile root explicit of
           Inl err \<Rightarrow> Inl (wrapf (''spec.build.dockerfilePath '' @ fmt_q explicit @ '': '') err)
         | Inr data \<Rightarrow> Inr (Some data))
      else try_names ctx dockerfileNames)"

section \<open>dockerignore.go\<close>

definition defaultDockerignore :: string where
  "defaultDockerignore = unlines_text [''# Generated by Koptan'', ''.git'', ''.gitignore'', ''.dockerignore'', ''**/.DS_Store'',
     ''**/*.log'', ''.env'', ''.env.*'', ''!.env.example'', ''node_modules'', ''**/node_modules'', ''.npm'', ''.yarn/cache'',
     ''.pnpm-store'', ''.venv'', ''venv'', ''**/__pycache__'', ''**/*.pyc'', ''.pytest_cache'', ''.mypy_cache'', ''target'', ''bin'',
     ''obj'', ''.gradle'', ''.idea'', ''.vscode'', ''coverage'', ''tmp'']"

section \<open>clone.go\<close>

record clone_options =
  co_url :: string
  co_auth :: "basic_auth option"
  co_reference :: string
  co_single_branch :: bool
  co_depth :: int
  co_no_checkout :: bool

text \<open>
  \<open>h_clone dir opts\<close> is go-git's \<^verbatim>\<open>PlainCloneContext\<close>, \<open>h_checkout\<close> the work tree's forced \<^verbatim>\<open>Checkout\<close> of
  a commit: both answer with the operating system as it is then, holding the clone. \<open>h_temp_dir\<close> is
  \<^verbatim>\<open>os.MkdirTemp\<close>, \<open>h_cancelled\<close> the error of the context, if it is done.
\<close>

record host =
  h_cancelled :: "gerror option"
  h_temp_dir :: "gerror + string"
  h_clone :: "string \<Rightarrow> clone_options \<Rightarrow> gerror + os"
  h_checkout :: "os \<Rightarrow> string \<Rightarrow> string \<Rightarrow> gerror + os"

definition is_branch_or_tag :: "string \<Rightarrow> bool" where
  \<comment> \<open>\<^verbatim>\<open>IsBranch\<close> and \<^verbatim>\<open>IsTag\<close> of \<^verbatim>\<open>plumbing.ReferenceName\<close>\<close>
  "is_branch_or_tag ref \<longleftrightarrow> has_prefix ref ''refs/heads/'' \<or> has_prefix ref ''refs/tags/''"

definition cloneAt :: "host \<Rightarrow> string \<Rightarrow> string \<Rightarrow> revision \<Rightarrow> string \<Rightarrow> gerror + os" where
  "cloneAt H dir repo rv token = (case token_auth repo token of
       Inl err \<Rightarrow> Inl err
     | Inr auth \<Rightarrow>
         let opts = \<lparr>co_url = repo, co_auth = auth, co_reference = '''', co_single_branch = False, co_depth = 0, co_no_checkout = False\<rparr> in
         if is_branch_or_tag (rev_ref rv)
         then h_clone H dir (opts\<lparr>co_reference := rev_ref rv, co_single_branch := True, co_depth := 1\<rparr>)
         else (case h_clone H dir (opts\<lparr>co_no_checkout := True\<rparr>) of
             Inl err \<Rightarrow> Inl err
           | Inr S \<Rightarrow> (case h_checkout H S dir (rev_sha rv) of
               Inl err \<Rightarrow> Inl (wrapf (''checkout '' @ rev_sha rv @ '': '') err) | Inr S \<Rightarrow> Inr S)))"

section \<open>discovery.go\<close>

definition detect :: "fs \<Rightarrow> string \<Rightarrow> gerror + facts option" where
  "detect fs lang =
     (if lang = '''' then Inr (Detect fs)
      else (case ByName lang of
          None \<Rightarrow> Inl (errorf (''spec.build.language '' @ fmt_q lang @ '' is not supported (supported: ''
            @ join Names '', '' @ '')''))
        | Some l \<Rightarrow> Inr (Some (fst (ln_detect l fs)))))"

definition describeContext :: "discovery_request \<Rightarrow> string" where
  "describeContext q = (if dq_context_dir q = '''' then dq_repo q else dq_repo q @ '' ('' @ dq_context_dir q @ '')'')"

definition discover_file :: "fs \<Rightarrow> fs \<Rightarrow> discovery_request \<Rightarrow> facts option \<Rightarrow> gerror + discovery_result" where
  \<comment> \<open>\<^verbatim>\<open>DiscoverDir\<close> from the facts on: the repository's own Dockerfile or a generated one\<close>
  "discover_file root ctx q facts = (case locateDockerfile root ctx (dq_dockerfile_path q) of
       Inl err \<Rightarrow> Inl err
     | Inr (Some own) \<Rightarrow> Inr \<lparr>dr_facts = facts, dr_source = ''repo'', dr_dockerfile = own, dr_dockerignore = ''''\<rparr>
     | Inr None \<Rightarrow> (case facts of
         None \<Rightarrow> Inl (errorf (''no Dockerfile and no supported stack found in '' @ describeContext q @ '' (supported: ''
           @ join Names '', '' @ '')''))
       | Some f \<Rightarrow>
           let f = f\<lparr>f_port := dq_port q\<rparr> in
           (case Render f of
              Inl err \<Rightarrow> Inl err
            | Inr rendered \<Rightarrow> Inr \<lparr>dr_facts = Some f, dr_source = ''template'', dr_dockerfile = rendered,
                dr_dockerignore = (if \<not> Exists ctx ''.dockerignore'' then defaultDockerignore else '''')\<rparr>)))"

definition DiscoverDir :: "fs \<Rightarrow> discovery_request \<Rightarrow> gerror + discovery_result" where
  "DiscoverDir root q =
     (case (if dq_context_dir q \<noteq> '''' then
              (case Sub root (dq_context_dir q) of
                 Inl err \<Rightarrow> Inl (wrapf (''spec.build.contextDir '' @ fmt_q (dq_context_dir q) @ '': '') err) | Inr sub \<Rightarrow> Inr sub)
            else Inr root) of
        Inl err \<Rightarrow> Inl err
      | Inr ctx \<Rightarrow> (case detect ctx (dq_language q) of
          Inl err \<Rightarrow> Inl err
        | Inr facts \<Rightarrow> (case discover_file root ctx q facts of
            Inl err \<Rightarrow> Inl err
          | Inr res \<Rightarrow> (case ValidateDockerfile (dr_dockerfile res) of Some err \<Rightarrow> Inl err | None \<Rightarrow> Inr res))))"

definition Discover :: "host \<Rightarrow> discovery_request \<Rightarrow> gerror + discovery_result" where
  "Discover H q = (case h_cancelled H of
       Some err \<Rightarrow> Inl err
     | None \<Rightarrow> (case h_temp_dir H of
         Inl err \<Rightarrow> Inl (wrapf ''create temp dir: '' err)
       | Inr dir \<Rightarrow> (case cloneAt H dir (dq_repo q) (dq_rev q) (dq_token q) of
           Inl err \<Rightarrow> Inl (wrapf ''clone: '' err)
         | Inr S \<Rightarrow> (case new_fs S dir of Inl err \<Rightarrow> Inl err | Inr root \<Rightarrow> DiscoverDir root q))))"

end
