(* ===== verification/Trimming.thy ===== *)
theory Trimming
  imports GoStrings
begin

text \<open>
  Lemmas on \<^verbatim>\<open>strings.TrimSpace\<close>: what it leaves alone and what it cannot remove. A visible
  character is a printable ASCII character other than the blank.
\<close>

definition visible :: "char \<Rightarrow> bool" where
  "visible c \<longleftrightarrow> 33 \<le> (of_char c :: nat) \<and> (of_char c :: nat) < 127"

lemma space_rune_bytes:
  assumes "w \<in> set space_runes"
  shows "w \<noteq> []" "list_all (\<lambda>c. \<not> visible c) w"
proof -
  have "list_all (\<lambda>w. w \<noteq> [] \<and> list_all (\<lambda>c. \<not> visible c) w) space_runes"
    by (simp add: space_runes_def ascii_spaces_def visible_def upt_rec)
  with assms show "w \<noteq> []" "list_all (\<lambda>c. \<not> visible c) w" by (auto simp: list_all_iff)
qed

lemma strip_seqs_keep: "c \<in> set s \<Longrightarrow> \<forall>w\<in>set ws. c \<notin> set w \<Longrightarrow> c \<in> set (strip_seqs ws n s)"
proof (induction n arbitrary: s)
  case (Suc n)
  show ?case
  proof (cases "find (\<lambda>w. has_prefix s w) ws")
    case (Some w)
    then have "w \<in> set ws" "has_prefix s w" by (auto dest: find_SomeD)
    then have "c \<in> set (drop (length w) s)"
      using Suc.prems by (metis UnE append_take_drop_id has_prefix_def set_append)
    with Suc.IH Suc.prems(2) Some show ?thesis by simp
  qed (use Suc.prems in simp)
qed simp

lemma strip_seqs_stop:
  assumes "\<forall>w\<in>set ws. w \<noteq> [] \<and> hd w \<noteq> c"
  shows "strip_seqs ws n (c # s) = c # s"
proof (cases n)
  case (Suc m)
  have "\<not> has_prefix (c # s) w" if "w \<in> set ws" for w
    using assms that by (cases w) (auto simp: has_prefix_def)
  then have "find (\<lambda>w. has_prefix (c # s) w) ws = None" by (simp add: find_None_iff)
  with Suc show ?thesis by simp
qed simp

lemma visible_not_space: "visible c \<Longrightarrow> w \<in> set space_runes \<Longrightarrow> c \<notin> set w"
  using space_rune_bytes(2) [of w] by (auto simp: list_all_iff)

lemma trim_space_keep: "visible c \<Longrightarrow> c \<in> set s \<Longrightarrow> c \<in> set (trim_space s)"
  unfolding trim_space_def Let_def set_rev
  by (intro strip_seqs_keep) (simp_all add: strip_seqs_keep visible_not_space)

lemma strip_left_visible: "visible (hd s) \<Longrightarrow> s \<noteq> [] \<Longrightarrow> strip_seqs space_runes n s = s"
  using strip_seqs_stop [of space_runes "hd s" n "tl s"] visible_not_space space_rune_bytes(1)
  by (metis hd_in_set list.collapse)

lemma strip_right_visible: "visible (last s) \<Longrightarrow> s \<noteq> [] \<Longrightarrow> strip_seqs (map rev space_runes) n (rev s) = rev s"
proof (cases s rule: rev_cases)
  case (snoc t c)
  assume "visible (last s)"
  then have "\<forall>w\<in>set (map rev space_runes). w \<noteq> [] \<and> hd w \<noteq> c"
    using snoc visible_not_space space_rune_bytes(1) by (auto simp: hd_rev) (metis last_in_set)
  with snoc show ?thesis by (simp add: strip_seqs_stop)
qed simp

definition trimmed :: "string \<Rightarrow> bool" where
  "trimmed s \<longleftrightarrow> s = [] \<or> visible (hd s) \<and> visible (last s)"

lemma trim_space_trimmed [simp]: "trimmed s \<Longrightarrow> trim_space s = s"
  by (cases "s = []")
    (simp_all add: trim_space_def trimmed_def strip_left_visible strip_right_visible)

lemma blank_first: "find (\<lambda>w. has_prefix (CHR '' '' # s) w) space_runes = Some '' ''"
  by (simp add: space_runes_def ascii_spaces_def has_prefix_def)

lemma trim_space_blank [simp]: "trim_space (CHR '' '' # s) = trim_space s"
  if "trimmed s"
  using that blank_first [of s]
  by (cases "s = []") (simp_all add: trim_space_def trimmed_def strip_left_visible strip_right_visible Let_def)

lemma strip_right_blank: "strip_seqs (map rev space_runes) (Suc n) (CHR '' '' # s) = strip_seqs (map rev space_runes) n s"
  by (simp add: space_runes_def ascii_spaces_def has_prefix_def)

lemma trim_space_blank_right [simp]: "trim_space (s @ '' '') = s"
  if "trimmed s" "s \<noteq> []"
proof -
  have left: "strip_seqs space_runes (length (s @ '' '')) (s @ '' '') = s @ '' ''"
    by (rule strip_left_visible) (use that in \<open>simp_all add: trimmed_def\<close>)
  have "strip_seqs (map rev space_runes) (length (s @ '' '')) (rev (s @ '' '')) = rev s"
    using that strip_right_blank [of "length s" "rev s"] strip_right_visible [of s]
    by (simp add: trimmed_def del: strip_seqs.simps)
  then show ?thesis unfolding trim_space_def left Let_def by simp
qed

end
