(* ===== verification/DiscoveryProofs.thy ===== *)
theory DiscoveryProofs
  imports Discovery Trimming
begin

text \<open>
  What discovery does with a repository: nothing outside the clone can change its result, what the
  detectors put into the facts, what every generated Dockerfile holds, and where the code and its
  comments disagree.
\<close>

section \<open>Detection sees the view only\<close>

lemma same_isGoMain:
  assumes "same_view f g"
  shows "isGoMain f dir = isGoMain g dir"
  by (simp add: isGoMain_def same_ops [OF assms])

lemma same_goMainPackage:
  assumes "same_view f g"
  shows "goMainPackage f module = goMainPackage g module"
  by (simp add: goMainPackage_def same_ops [OF assms] same_isGoMain [OF assms])

lemma same_Go:
  assumes "same_view f g"
  shows "Go_Detect f = Go_Detect g"
  unfolding Go_Detect_def same_ops [OF assms] same_goMainPackage [OF assms] ..

lemma same_Rust:
  assumes "same_view f g"
  shows "Rust_Detect f = Rust_Detect g"
  unfolding Rust_Detect_def rustToolchain_def same_ops [OF assms] ..

lemma same_Java:
  assumes "same_view f g"
  shows "Java_Detect f = Java_Detect g"
  unfolding Java_Detect_def same_ops [OF assms] ..

lemma same_Dotnet:
  assumes "same_view f g"
  shows "Dotnet_Detect f = Dotnet_Detect g"
  unfolding Dotnet_Detect_def dotnetProject_def same_ops [OF assms] ..

lemma same_Python:
  assumes "same_view f g"
  shows "Python_Detect f = Python_Detect g"
  unfolding Python_Detect_def pythonEntrypoint_def pythonVersion_def findPyApp_def djangoWSGI_def python_script_def
    same_ops [OF assms] ..

lemma same_Ruby:
  assumes "same_view f g"
  shows "Ruby_Detect f = Ruby_Detect g"
  unfolding Ruby_Detect_def same_ops [OF assms] ..

lemma same_PHP:
  assumes "same_view f g"
  shows "PHP_Detect f = PHP_Detect g"
  unfolding PHP_Detect_def same_ops [OF assms] ..

lemma same_Node:
  assumes "same_view f g"
  shows "Node_Detect f = Node_Detect g"
  unfolding Node_Detect_def node_start_def choose_pm_def nodeVersion_def same_ops [OF assms] ..

lemma same_Static:
  assumes "same_view f g"
  shows "Static_Detect f = Static_Detect g"
  unfolding Static_Detect_def same_ops [OF assms] ..

lemmas registry_defs = Go_def Rust_def Java_def Dotnet_def Python_def Ruby_def PHP_def Node_def Static_def

lemma same_detectors: "same_view f g \<Longrightarrow> l \<in> set Registry \<Longrightarrow> ln_detect l f = ln_detect l g"
  unfolding Registry_def registry_defs
  using same_Go same_Rust same_Java same_Dotnet same_Python same_Ruby same_PHP same_Node same_Static by auto

lemma same_Detect:
  assumes "same_view f g"
  shows "Detect f = Detect g"
proof -
  have "find (\<lambda>l. snd (ln_detect l f)) Registry = find (\<lambda>l. snd (ln_detect l g)) Registry"
    by (rule find_cong) (simp_all add: same_detectors [OF assms])
  then show ?thesis
    using same_detectors [OF assms] by (auto simp: Detect_def split: option.splits dest!: find_SomeD)
qed

lemma same_detect:
  assumes "same_view f g"
  shows "detect f lang = detect g lang"
  using same_Detect [OF assms] same_detectors [OF assms]
  by (auto simp: detect_def ByName_def split: option.splits dest!: find_SomeD)

lemma same_try_names: "same_view f g \<Longrightarrow> alike (try_names f names) (try_names g names)"
proof (induction names)
  case (Cons name names)
  show ?case
    using same_ReadFile [OF Cons.prems, of name]
    by (cases rule: alikeE) (use Cons in \<open>simp_all add: same_ops [of f g]\<close>)
qed simp

lemma same_locate:
  assumes "same_view f g" "same_view f' g'"
  shows "alike (locateDockerfile f f' path) (locateDockerfile g g' path)"
  using same_ReadFile [OF assms(1), of path]
  by (cases rule: alikeE) (simp_all add: locateDockerfile_def same_try_names [OF assms(2)])

lemma same_discover_file:
  assumes "same_view f g" "same_view f' g'"
  shows "alike (discover_file f f' q facts) (discover_file g g' q facts)"
  using same_locate [OF assms, of "dq_dockerfile_path q"]
  by (cases rule: alikeE) (simp_all add: discover_file_def same_ops [OF assms(2)])

lemma same_DiscoverDir:
  assumes "same_view f g"
  shows "alike (DiscoverDir f q) (DiscoverDir g q)"
proof -
  have step: "alike (case detect f' (dq_language q) of Inl err \<Rightarrow> Inl err
        | Inr facts \<Rightarrow> (case discover_file f f' q facts of Inl err \<Rightarrow> Inl err
          | Inr res \<Rightarrow> (case ValidateDockerfile (dr_dockerfile res) of Some err \<Rightarrow> Inl err | None \<Rightarrow> Inr res)))
      (case detect g' (dq_language q) of Inl err \<Rightarrow> Inl err
        | Inr facts \<Rightarrow> (case discover_file g g' q facts of Inl err \<Rightarrow> Inl err
          | Inr res \<Rightarrow> (case ValidateDockerfile (dr_dockerfile res) of Some err \<Rightarrow> Inl err | None \<Rightarrow> Inr res)))"
    if "same_view f' g'" for f' g'
  proof (cases "detect g' (dq_language q)")
    case (Inr facts)
    show ?thesis
      using same_discover_file [OF assms that, of q facts]
      by (cases rule: alikeE) (simp_all add: same_detect [OF that] Inr)
  qed (simp add: same_detect [OF that])
  show ?thesis
  proof (cases "dq_context_dir q = ''''")
    case True
    then show ?thesis using step [OF assms] by (simp add: DiscoverDir_def)
  next
    case False
    from same_Sub [OF assms, of "dq_context_dir q"] show ?thesis
      by (elim disjE exE conjE) (use False step in \<open>simp_all add: DiscoverDir_def\<close>)
  qed
qed


text \<open>A system of a few files, without directories that are listed: path, where it really is, content.\<close>

definition demo_os :: "(string \<times> string) list \<Rightarrow> (string \<times> string) list \<Rightarrow> os" where
  "demo_os links files = \<lparr>
     os_real = (\<lambda>p. case map_of links p of
         Some real \<Rightarrow> Inr real | None \<Rightarrow> if map_of files p \<noteq> None then Inr p else Inl (errorf ''no such file'')),
     os_is_dir = (\<lambda>p. if map_of files p \<noteq> None then Inr (has_suffix p ''/r'') else Inl (errorf ''no such file'')),
     os_read = (\<lambda>p. case map_of files (case map_of links p of Some real \<Rightarrow> real | None \<Rightarrow> p) of
         Some c \<Rightarrow> Inr c | None \<Rightarrow> Inl (errorf ''no such file'')),
     os_entries = (\<lambda>p. Inr [])\<rparr>"

definition demo_request :: discovery_request where
  "demo_request = \<lparr>dq_repo = ''https://git.io/r'', dq_rev = \<lparr>rev_sha = ''abc'', rev_ref = ''refs/heads/main''\<rparr>, dq_token = '''',
     dq_context_dir = '''', dq_dockerfile_path = '''', dq_language = '''', dq_port = 8080\<rparr>"

lemma real_path_below: "segs \<noteq> [] \<Longrightarrow> list_all proper segs \<Longrightarrow> real_path (below segs)"
  by (auto simp: real_path_def)

lemma demo_real_paths: "real_path ''/r''" "real_path ''/r/go.mod''" "real_path ''/etc/passwd''"
  using real_path_below [of "[''r'']"] real_path_below [of "[''r'', ''go.mod'']"] real_path_below [of "[''etc'', ''passwd'']"]
  by (simp_all add: below_def proper_def)

section \<open>What the detectors put into the facts\<close>

definition version_char :: "char \<Rightarrow> bool" where
  "version_char c \<longleftrightarrow> is_digit c \<or> c = CHR ''.''"

definition version_text :: "string \<Rightarrow> bool" where
  "version_text v \<longleftrightarrow> v \<noteq> '''' \<and> list_all version_char v"

lemma digits_version: "list_all is_digit s \<Longrightarrow> list_all version_char s"
  by (auto simp: list_all_iff version_char_def)

lemma groups_one: "list_all2 P cs [r] \<Longrightarrow> \<exists>c. cs = [c] \<and> P c r"
  by (simp add: list_all2_Cons2)

lemma groups_two: "list_all2 P cs [r, r'] \<Longrightarrow> \<exists>c c'. cs = [c, c'] \<and> P c r \<and> P c' r'"
  by (auto simp: list_all2_Cons2)

lemma majorMinor_version:
  assumes "version_text fallback"
  shows "version_text (majorMinor s fallback)"
proof (cases "find_submatch majorMinorRe s")
  case (Some r)
  obtain m cs where r: "r = (m, cs)" by force
  have "flat_groups majorMinorRe" "group_pats majorMinorRe = [Digits, Digits]" by (simp_all add: majorMinorRe_def)
  with find_groups [of majorMinorRe s m cs] Some r have "list_all2 group_of cs [Digits, Digits]" by simp
  from groups_two [OF this] obtain a b where "cs = [a, b]" "list_all is_digit a" "list_all is_digit b"
    unfolding group_of_class by blast
  with Some r show ?thesis by (simp add: majorMinor_def group_def version_text_def digits_version version_char_def)
qed (simp add: majorMinor_def assms)

lemma major_version:
  assumes "version_text fallback"
  shows "version_text (major s fallback)"
proof (cases "find_string majorRe s = ''''")
  case False
  have "list_all is_digit (find_string majorRe s)"
    unfolding majorRe_def find_run by (auto simp: list_all_iff dest: set_takeWhileD)
  with False show ?thesis by (simp add: major_def version_text_def digits_version)
qed (simp add: major_def assms)

lemma nearestLTS_in: "nearestLTS v \<in> set javaLTS"
proof (cases "find (\<lambda>lts. atoi v \<le> atoi lts) javaLTS")
  case None
  then show ?thesis by (simp add: nearestLTS_def javaLTS_def)
next
  case (Some l)
  then show ?thesis by (auto simp: nearestLTS_def dest: find_SomeD)
qed

lemma javaVersion_in: "javaVersion doc res \<in> set javaLTS"
proof -
  have "javaDefaultVersion \<in> set javaLTS" by (simp add: javaDefaultVersion_def javaLTS_def)
  then show ?thesis using nearestLTS_in by (auto simp: javaVersion_def Let_def split: option.split)
qed

lemma lts_version: "v \<in> set javaLTS \<Longrightarrow> version_text v"
  by (auto simp: javaLTS_def version_text_def version_char_def is_digit_def less_eq_char_def)

lemma tfm_version: "find_submatch dotnetTFMRe s = Some (m, cs) \<Longrightarrow> version_text (group (Suc 0) cs)"
proof -
  assume f: "find_submatch dotnetTFMRe s = Some (m, cs)"
  let ?g = "seq [Digits, lit ''.'', Digits]"
  have "flat_groups dotnetTFMRe" "group_pats dotnetTFMRe = [?g]" by (simp_all add: dotnetTFMRe_def PSpaces_def)
  with find_groups [OF _ f] have "list_all2 group_of cs [?g]" by simp
  from groups_one [OF this] obtain c where c: "cs = [c]" "c \<in> language (plain ?g)" unfolding group_of_def by blast
  have "over version_char (plain ?g)" by (simp add: version_char_def)
  from over_language [OF this c(2)] have "list_all version_char c" .
  moreover have "c \<noteq> []" using c(2) by auto
  ultimately show ?thesis by (simp add: c(1) group_def version_text_def)
qed

lemma extra_set [simp]: "extra (set_extra k v f) k' = (if k' = k then v else extra f k')"
  by (simp add: extra_def set_extra_def update_conv')

lemma set_extra_fields [simp]: "f_language (set_extra k v f) = f_language f" "f_port (set_extra k v f) = f_port f"
  "f_version (set_extra k v f) = f_version f" "f_framework (set_extra k v f) = f_framework f"
  by (simp_all add: set_extra_def)

lemma extra_fields [simp]: "extra (f\<lparr>f_version := x\<rparr>) = extra f" "extra (f\<lparr>f_package_manager := x\<rparr>) = extra f"
  "extra (f\<lparr>f_framework := x\<rparr>) = extra f" "extra (f\<lparr>f_entrypoint := x\<rparr>) = extra f" "extra (f\<lparr>f_install_cmd := x\<rparr>) = extra f"
  "extra (f\<lparr>f_build_cmd := x\<rparr>) = extra f" "extra (f\<lparr>f_start_cmd := ys\<rparr>) = extra f" "extra (f\<lparr>f_port := p\<rparr>) = extra f"
  by (simp_all add: extra_def fun_eq_iff)

lemma distinct_set_extra [simp]: "distinct (map fst (f_extra f)) \<Longrightarrow> distinct (map fst (f_extra (set_extra k v f)))"
  by (simp add: set_extra_def distinct_update)

lemma newFacts_fields [simp]: "f_language (newFacts l v) = l" "f_port (newFacts l v) = 0" "f_version (newFacts l v) = v"
  "f_extra (newFacts l v) = []" "extra (newFacts l v) k = ''''"
  by (simp_all add: newFacts_def extra_def)

definition detected :: "string \<Rightarrow> facts \<Rightarrow> bool" where
  "detected name f \<longleftrightarrow> f_language f = name \<and> f_port f = 0 \<and> version_text (f_version f) \<and> distinct (map fst (f_extra f))"

lemma default_versions: "version_text goDefaultVersion" "version_text rustDefaultVersion" "version_text javaDefaultVersion"
  "version_text dotnetDefaultVersion" "version_text pythonDefaultVersion" "version_text rubyDefaultVersion"
  "version_text phpDefaultVersion" "version_text nodeDefaultVersion" "version_text ''1.27''"
  by (simp_all add: goDefaultVersion_def rustDefaultVersion_def javaDefaultVersion_def dotnetDefaultVersion_def
      pythonDefaultVersion_def rubyDefaultVersion_def phpDefaultVersion_def nodeDefaultVersion_def version_text_def
      version_char_def is_digit_def less_eq_char_def)

lemmas version_facts = default_versions majorMinor_version major_version lts_version [OF javaVersion_in] tfm_version

lemma detected_Go: "detected ''go'' (fst (Go_Detect fs))"
  by (auto simp: Go_Detect_def Let_def detected_def version_facts split: option.split)

lemma detected_Rust: "detected ''rust'' (fst (Rust_Detect fs))"
  by (auto simp: Rust_Detect_def Let_def detected_def version_facts split: option.split)

lemma detected_Java: "detected ''java'' (fst (Java_Detect fs))"
  by (auto simp: Java_Detect_def Let_def detected_def version_facts)

lemma detected_Dotnet: "detected ''dotnet'' (fst (Dotnet_Detect fs))"
  by (auto simp: Dotnet_Detect_def Let_def detected_def version_facts split: option.split)

lemma detected_python_script: "detected n f \<Longrightarrow> detected n (python_script fs f)"
  by (simp add: python_script_def Let_def detected_def)

lemma detected_python_app: "detected n f \<Longrightarrow> detected n (python_app a b c d e f)"
  by (simp add: python_app_def Let_def detected_def)

lemma detected_pythonEntrypoint: "detected n f \<Longrightarrow> detected n (pythonEntrypoint fs f p)"
  by (auto simp: pythonEntrypoint_def Let_def intro!: detected_python_script detected_python_app split: option.split)

lemma pythonVersion_version: "version_text (pythonVersion fs p)"
  by (simp add: pythonVersion_def Let_def version_facts)

lemma detected_Python: "detected ''python'' (fst (Python_Detect fs))"
proof -
  have "detected ''python'' (newFacts ''python'' pythonDefaultVersion)" by (simp add: detected_def version_facts)
  moreover have "detected ''python'' ((newFacts ''python'' pythonDefaultVersion)\<lparr>f_package_manager := a, f_install_cmd := b,
      f_version := pythonVersion fs p\<rparr>)" for a b p
    by (simp add: detected_def pythonVersion_version)
  ultimately show ?thesis by (simp add: Python_Detect_def Let_def detected_pythonEntrypoint)
qed

lemma detected_Ruby: "detected ''ruby'' (fst (Ruby_Detect fs))"
  by (auto simp: Ruby_Detect_def Let_def detected_def version_facts split: option.split)

lemma detected_PHP: "detected ''php'' (fst (PHP_Detect fs))"
  by (auto simp: PHP_Detect_def Let_def detected_def version_facts split: option.split)

lemma nodeVersion_version: "version_text (nodeVersion fs p)"
  by (simp add: nodeVersion_def version_facts split: option.split)

lemma detected_node_start: "detected n f \<Longrightarrow> detected n (node_start fs pm pkg f)"
  by (simp add: node_start_def Let_def detected_def)

lemma detected_Node: "detected ''node'' (fst (Node_Detect fs))"
proof (cases "ReadJSON fs decode_package ''package.json''")
  case None
  then show ?thesis by (simp add: Node_Detect_def Let_def detected_def version_facts)
next
  case (Some pkg)
  then show ?thesis
    by (auto simp: Node_Detect_def Let_def intro!: detected_node_start) (simp_all add: detected_def nodeVersion_version)
qed

lemma detected_Static: "detected ''static'' (fst (Static_Detect fs))"
  by (auto simp: Static_Detect_def Let_def detected_def version_facts split: option.split)

lemma detected_all: "list_all (\<lambda>l. detected (ln_name l) (fst (ln_detect l fs))) Registry"
  by (simp add: Registry_def registry_defs detected_Go detected_Rust detected_Java detected_Dotnet detected_Python
      detected_Ruby detected_PHP detected_Node detected_Static)

text \<open>C19: the facts of the detectors are well typed, whatever the repository holds: every language of the
  registry returns facts of its own name, without a port, with no key of \<^verbatim>\<open>Extra\<close> twice, and with a
  version that is not empty and has only digits and dots, so that it can be put into the tag of an image
  as it is; every language has a template; and the names of the languages are distinct.
\<close>

theorem detectors_typed:
  "list_all (\<lambda>l. detected (ln_name l) (fst (ln_detect l fs)) \<and> map_of templates (ln_name l) \<noteq> None) Registry \<and> distinct Names"
proof
  have "list_all (\<lambda>l. map_of templates (ln_name l) \<noteq> None) Registry"
    by (simp add: Registry_def registry_defs templates_def)
  with detected_all [of fs]
  show "list_all (\<lambda>l. detected (ln_name l) (fst (ln_detect l fs)) \<and> map_of templates (ln_name l) \<noteq> None) Registry"
    by (simp add: list_all_iff)
  show "distinct Names" by (simp add: Names_def Registry_def registry_defs)
qed

section \<open>The base images\<close>

definition image_char :: "char \<Rightarrow> bool" where
  "image_char c \<longleftrightarrow> is_alnum c \<or> c = CHR ''.'' \<or> c = CHR ''-'' \<or> c = CHR '' ''"

definition base_images :: "string list" where
  "base_images = [''docker.io/library/golang:'', ''gcr.io/distroless/static-debian12:nonroot'', ''docker.io/library/rust:'',
     ''docker.io/library/debian:bookworm-slim'', ''docker.io/library/maven:3.9-eclipse-temurin-'', ''docker.io/library/gradle:8-jdk'',
     ''docker.io/library/eclipse-temurin:'', ''mcr.microsoft.com/dotnet/sdk:'', ''mcr.microsoft.com/dotnet/aspnet:'',
     ''docker.io/library/python:'', ''docker.io/library/ruby:'', ''docker.io/library/php:'', ''docker.io/library/node:'',
     ''docker.io/oven/bun:1'', ''docker.io/nginxinc/nginx-unprivileged:'']"

definition trusted_from :: "string \<Rightarrow> bool" where
  \<comment> \<open>a known image, and after it what cannot name another one\<close>
  "trusted_from l \<longleftrightarrow> list_ex (\<lambda>p. has_prefix l (''FROM '' @ p) \<and> list_all image_char (drop (length p + 5) l)) base_images"

definition trusted_bases :: "string list \<Rightarrow> bool" where
  "trusted_bases ls \<longleftrightarrow> list_all (\<lambda>l. has_prefix l ''FROM '' \<longrightarrow> trusted_from l) ls"

lemma version_image: "version_text v \<Longrightarrow> list_all image_char v"
  by (auto simp: version_text_def version_char_def image_char_def is_alnum_def list_all_iff)

lemma trusted_fromI: "p \<in> set base_images \<Longrightarrow> list_all image_char s \<Longrightarrow> trusted_from (''FROM '' @ p @ s)"
proof -
  assume p: "p \<in> set base_images" "list_all image_char s"
  have "drop (length (''FROM '' @ p)) ((''FROM '' @ p) @ s) = s" by (simp del: append.simps append_assoc)
  then have "drop (length p + 5) (''FROM '' @ p @ s) = s" by (simp add: add.commute numeral_eq_Suc)
  moreover have "has_prefix (''FROM '' @ p @ s) (''FROM '' @ p)" using has_prefix_append [of "''FROM '' @ p" s] by simp
  ultimately show ?thesis using p unfolding trusted_from_def list_ex_iff by metis
qed

lemma base_image_froms: "list_all (\<lambda>p. \<forall>s. list_all image_char s \<longrightarrow> trusted_from (''FROM '' @ p @ s)) base_images"
  using trusted_fromI by (auto simp: list_all_iff simp del: append.simps)

lemmas known_froms = base_image_froms [unfolded base_images_def, simplified]

lemmas image_simps = known_froms image_char_def is_alnum_def is_lower_def is_upper_def
  is_digit_def less_eq_char_def

lemma trusted_bases_append: "trusted_bases (a @ b) \<longleftrightarrow> trusted_bases a \<and> trusted_bases b"
  by (simp add: trusted_bases_def)

lemma trusted_bases_Cons: "trusted_bases (l # ls) \<longleftrightarrow> (has_prefix l ''FROM '' \<longrightarrow> trusted_from l) \<and> trusted_bases ls"
  "trusted_bases []"
  by (simp_all add: trusted_bases_def)

lemma trusted_bases_if: "trusted_bases (if c then a else b) \<longleftrightarrow> (if c then trusted_bases a else trusted_bases b)"
  by simp

lemmas bases_simps = trusted_bases_append trusted_bases_Cons trusted_bases_if

lemma bases_go: "version_text (f_version f) \<Longrightarrow> trusted_bases (go_template f)"
  using version_image [of "f_version f"] by (simp add: go_template_def bases_simps image_simps)

lemma bases_rust: "version_text (f_version f) \<Longrightarrow> trusted_bases (rust_template f)"
  using version_image [of "f_version f"] by (simp add: rust_template_def bases_simps image_simps)

lemma bases_dotnet: "version_text (f_version f) \<Longrightarrow> trusted_bases (dotnet_template f)"
  using version_image [of "f_version f"] by (simp add: dotnet_template_def bases_simps image_simps)

lemma bases_python: "version_text (f_version f) \<Longrightarrow> trusted_bases (python_template f)"
  using version_image [of "f_version f"] by (simp add: python_template_def bases_simps image_simps)

lemma bases_ruby: "version_text (f_version f) \<Longrightarrow> trusted_bases (ruby_template f)"
  using version_image [of "f_version f"] by (simp add: ruby_template_def bases_simps image_simps)

lemma bases_php: "version_text (f_version f) \<Longrightarrow> trusted_bases (php_template f)"
  using version_image [of "f_version f"] by (simp add: php_template_def bases_simps image_simps)

lemma bases_static: "version_text (f_version f) \<Longrightarrow> trusted_bases (static_template f)"
  using version_image [of "f_version f"] by (simp add: static_template_def bases_simps image_simps)

lemma bases_node:
  assumes "version_text (f_version f)" "extra f ''image'' = '''' \<or> extra f ''image'' = ''docker.io/oven/bun:1''"
  shows "trusted_bases (node_template f)"
  using assms(2)
  by (elim disjE) (use version_image [OF assms(1)] tmpl_extra_set [of f "''image''"] in
    \<open>simp_all add: node_template_def bases_simps image_simps\<close>)

definition java_builders :: "facts \<Rightarrow> string list" where
  "java_builders f = [''docker.io/library/maven:3.9-eclipse-temurin-'' @ f_version f, ''docker.io/library/gradle:8-jdk'' @ f_version f,
     ''docker.io/library/eclipse-temurin:'' @ f_version f @ ''-jdk'']"

lemma bases_java:
  assumes "version_text (f_version f)" "extra f ''builderImage'' \<in> set (java_builders f)"
  shows "trusted_bases (java_template f)"
proof -
  consider "extra f ''builderImage'' = ''docker.io/library/maven:3.9-eclipse-temurin-'' @ f_version f"
    | "extra f ''builderImage'' = ''docker.io/library/gradle:8-jdk'' @ f_version f"
    | "extra f ''builderImage'' = ''docker.io/library/eclipse-temurin:'' @ f_version f @ ''-jdk''"
    using assms(2) unfolding java_builders_def by auto
  then show ?thesis
    by cases (use version_image [OF assms(1)] tmpl_extra_set [of f "''builderImage''"] in
      \<open>simp_all add: java_template_def bases_simps image_simps\<close>)
qed

lemma java_builder: "snd (Java_Detect fs) \<Longrightarrow> extra (fst (Java_Detect fs)) ''builderImage'' \<in> set (java_builders (fst (Java_Detect fs)))"
  by (cases "Exists fs ''pom.xml''"; cases "Exists fs ''build.gradle'' \<or> Exists fs ''build.gradle.kts''")
    (simp_all add: Java_Detect_def Let_def java_builders_def)

lemma node_start_extra [simp]: "extra (node_start fs pm pkg f) k = extra f k"
  by (simp add: node_start_def Let_def)

lemma node_image: "extra (fst (Node_Detect fs)) ''image'' = '''' \<or> extra (fst (Node_Detect fs)) ''image'' = ''docker.io/oven/bun:1''"
  by (simp add: Node_Detect_def Let_def split: option.split)

section \<open>Generated Dockerfiles\<close>

lemma template_result:
  assumes "DiscoverDir root q = Inr r" "dr_source r = ''template''"
  obtains ctx f where "detect ctx (dq_language q) = Inr (Some f)" "Render (f\<lparr>f_port := dq_port q\<rparr>) = Inr (dr_dockerfile r)"
    "dr_facts r = Some (f\<lparr>f_port := dq_port q\<rparr>)"
proof -
  from assms(1) obtain ctx facts where d: "detect ctx (dq_language q) = Inr facts" "discover_file root ctx q facts = Inr r"
    unfolding DiscoverDir_def by (auto split: sum.splits option.splits if_splits)
  from d(2) assms(2) obtain f where "facts = Some f" "Render (f\<lparr>f_port := dq_port q\<rparr>) = Inr (dr_dockerfile r)"
    "dr_facts r = Some (f\<lparr>f_port := dq_port q\<rparr>)"
    unfolding discover_file_def Let_def by (auto split: sum.splits option.splits)
  with d(1) that show thesis by blast
qed

lemma registry_cases:
  assumes "l \<in> set Registry"
  obtains "l = Go" | "l = Rust" | "l = Java" | "l = Dotnet" | "l = Python" | "l = Ruby" | "l = PHP" | "l = Node" | "l = Static"
  using assms by (auto simp: Registry_def)

lemma detect_language:
  assumes "detect ctx lang = Inr (Some f)"
  obtains l where "l \<in> set Registry" "f = fst (ln_detect l ctx)" "lang = '''' \<Longrightarrow> snd (ln_detect l ctx)"
proof (cases "lang = ''''")
  case True
  with assms have "Detect ctx = Some f" by (simp add: detect_def)
  then obtain l where "find (\<lambda>l. snd (ln_detect l ctx)) Registry = Some l" "f = fst (ln_detect l ctx)"
    by (auto simp: Detect_def split: option.splits)
  with that show thesis by (auto dest: find_SomeD)
next
  case False
  with assms obtain l where "ByName lang = Some l" "f = fst (ln_detect l ctx)"
    by (auto simp: detect_def split: option.splits)
  with that False show thesis unfolding ByName_def by (auto dest: find_SomeD)
qed

lemma detected_any: "l \<in> set Registry \<Longrightarrow> detected (ln_name l) (fst (ln_detect l fs))"
  using detected_all [of fs] by (simp add: list_all_iff)

lemma dotnet_user: "tmpl_extra (fst (Dotnet_Detect fs)) ''user'' \<in> {''$APP_UID'', ''1001''}"
proof -
  have "extra (fst (Dotnet_Detect fs)) ''user'' \<in> {''$APP_UID'', ''1001''}"
    by (simp add: Dotnet_Detect_def Let_def split: option.split)
  then show ?thesis using tmpl_extra_set [of "fst (Dotnet_Detect fs)" "''user''"] by auto
qed

lemma tmpl_extra_port [simp]: "tmpl_extra (f\<lparr>f_port := p\<rparr>) = tmpl_extra f"
  by (rule ext) (simp add: tmpl_extra_def)

lemma registry_name: "l \<in> set Registry \<Longrightarrow> ln_name l = ''dotnet'' \<Longrightarrow> l = Dotnet"
  by (elim registry_cases) (simp_all add: registry_defs)

definition image_users :: "string list" where
  "image_users = plain_users @ [''$APP_UID'', ''1001'']"

lemma generated_rules:
  assumes "DiscoverDir root q = Inr r" "dr_source r = ''template''"
  shows "\<exists>f t. dr_facts r = Some f \<and> map_of templates (f_language f) = Some t \<and> f_port f = dq_port q
     \<and> dr_dockerfile r = unlines_text (t f) \<and> split_on CHR 0x0A (dr_dockerfile r) = t f @ ['''']
     \<and> last_user (t f) \<in> set image_users
     \<and> dq_port q \<noteq> 0 \<and> (''EXPOSE '' @ fmt_d (dq_port q)) \<in> set (t f)
     \<and> list_ex (\<lambda>l. contains l (''PORT='' @ fmt_d (dq_port q))) (t f) \<and> has_prefix (t f ! 2) ''FROM ''"
proof -
  obtain ctx f where f: "detect ctx (dq_language q) = Inr (Some f)" "Render (f\<lparr>f_port := dq_port q\<rparr>) = Inr (dr_dockerfile r)"
    and facts: "dr_facts r = Some (f\<lparr>f_port := dq_port q\<rparr>)"
    using template_result [OF assms] by metis
  obtain l where l: "l \<in> set Registry" "f = fst (ln_detect l ctx)" using detect_language [OF f(1)] by metis
  obtain t user where t: "map_of templates (f_language f) = Some t"
    "split_on CHR 0x0A (dr_dockerfile r) = t (f\<lparr>f_port := dq_port q\<rparr>) @ ['''']"
    "dr_dockerfile r = unlines_text (t (f\<lparr>f_port := dq_port q\<rparr>))"
    "template_rules (f\<lparr>f_port := dq_port q\<rparr>) user (t (f\<lparr>f_port := dq_port q\<rparr>))"
    and user: "user \<in> set plain_users \<or> f_language f = ''dotnet'' \<and> user = tmpl_extra f ''user''"
    using Render_rules [OF f(2)] by auto
  have "user \<in> set image_users"
  proof (cases "user \<in> set plain_users")
    case False
    with user have "f_language f = ''dotnet''" "user = tmpl_extra f ''user''" by auto
    moreover from this(1) have "l = Dotnet" using registry_name [OF l(1)] detected_any [OF l(1), of ctx] l(2) by (simp add: detected_def)
    ultimately show ?thesis using dotnet_user [of ctx] l(2) by (auto simp: image_users_def Dotnet_def)
  qed (simp add: image_users_def)
  moreover have "dq_port q \<noteq> 0" using f(2) by (auto simp: Render_def split: option.splits if_splits)
  ultimately show ?thesis using facts t
    by (intro exI [of _ "f\<lparr>f_port := dq_port q\<rparr>"] exI [of _ t]) (simp add: template_rules_def from_line_def)
qed


text \<open>The engine's check of a Dockerfile: what it needs to see.\<close>

lemma length_unlines: "l \<in> set ls \<Longrightarrow> length l < length (unlines_text ls)"
  by (induction ls) (auto simp: unlines_text_def)

lemma set_unlines: "l \<in> set ls \<Longrightarrow> set l \<subseteq> set (unlines_text ls)"
  by (auto simp: unlines_text_def)

lemma scan_unlines:
  assumes "list_all one_line ls" "length (unlines_text ls) < max_token"
  shows "scan_lines (unlines_text ls) = map drop_cr ls"
proof -
  have "takeWhile (\<lambda>l. length l < max_token) ls = ls"
    using assms(2) length_unlines [of _ ls] by (auto simp: takeWhile_eq_all_conv dest: order.strict_trans)
  then show ?thesis
    unfolding scan_lines_def Let_def split_unlines [OF assms(1)] by (simp del: takeWhile_eq_all_conv)
qed

lemma alnum_visible: "is_alnum c \<Longrightarrow> visible c"
  by (auto simp: is_alnum_def is_lower_def is_upper_def is_digit_def visible_def less_eq_char_def)

lemma from_line_is_from:
  assumes "from_line l"
  shows "is_from (trim_space (drop_cr l))"
proof -
  from assms have l: "has_prefix l ''FROM ''" "is_alnum (last l)" by (simp_all add: from_line_def)
  then obtain t where t: "l = ''FROM '' @ t" unfolding has_prefix_def by (metis append_take_drop_id)
  have "drop_cr l = l"
  proof (rule ccontr)
    assume "drop_cr l \<noteq> l"
    then have "has_suffix l [CHR 0x0D]" unfolding drop_cr_def trim_suffix_def by presburger
    then have "last l = CHR 0x0D" by (metis has_suffix_def last_snoc append_take_drop_id list.size(3) list.size(4))
    with l(2) show False by (simp add: is_alnum_def is_lower_def is_upper_def is_digit_def less_eq_char_def)
  qed
  moreover have "trimmed l" using l(2) alnum_visible by (simp add: t trimmed_def visible_def)
  ultimately show ?thesis by (simp add: t is_from_def upper_def is_lower_def less_eq_char_def)
qed

text \<open>
  The engine's own files pass its own check: a Dockerfile rendered from any facts is valid when it is
  shorter than a line the scanner can hold, so that detection fails on the facts (no port, a value of
  several lines) and never on the text made from them.
\<close>

lemma render_valid:
  assumes "Render f = Inr d" "length d < max_token"
  shows "ValidateDockerfile d = None"
proof -
  obtain ls user where ls: "d = unlines_text ls" "template_rules f user ls"
    using Render_rules [OF assms(1)] by blast
  then have base: "from_line (ls ! 2)" "ls ! 2 \<in> set ls" and one: "list_all one_line ls"
    by (simp_all add: template_rules_def)
  have "is_from (trim_space (drop_cr (ls ! 2)))" by (rule from_line_is_from [OF base(1)])
  then have ok: "list_ex (\<lambda>l. is_from (trim_space l)) (scan_lines d)"
    using base(2) assms(2) unfolding ls(1) by (auto simp: scan_unlines [OF one] list_ex_iff)
  have "ls ! 2 \<noteq> ''''" using base(1) by (auto simp: from_line_def)
  from last_in_set [OF this] have "last (ls ! 2) \<in> set d" using set_unlines [OF base(2)] ls(1) by blast
  then have "last (ls ! 2) \<in> set (trim_space d)"
    using base(1) by (intro trim_space_keep) (simp_all add: from_line_def alnum_visible)
  then have "trim_space d \<noteq> ''''" by auto
  moreover have "length d \<le> MaxDockerfileSize" using assms(2) by (simp add: max_token_def MaxDockerfileSize_def)
  ultimately show ?thesis using ok by (simp add: ValidateDockerfile_def)
qed

text \<open>A repository of one file, \<^verbatim>\<open>go.mod\<close>, and what the engine makes of it.\<close>

definition demo_go :: fs where
  "demo_go = \<lparr>fs_os = demo_os [] [(''/r'', ''''), (''/r/go.mod'', ''go'')], fs_root = ''/r''\<rparr>"

lemma demo_go_resolve: "resolve demo_go name = (if full_path ''/r'' name \<in> {''/r'', ''/r/go.mod''} then Inr (full_path ''/r'' name)
    else Inl (errorf ''no such file''))"
  by (simp add: resolve_def demo_go_def demo_os_def inside_def has_prefix_def)

lemma demo_go_paths: "full_path ''/r'' ''go.mod'' = ''/r/go.mod''"
  "list_all (\<lambda>name. full_path ''/r'' name \<notin> {''/r'', ''/r/go.mod''}) (''.dockerignore'' # dockerfileNames)"
  by code_simp+

lemma demo_go_read: "ReadString demo_go ''go.mod'' = ''go''"
proof -
  have "os_read (fs_os demo_go) ''/r/go.mod'' = Inr ''go''" by (simp add: demo_go_def demo_os_def)
  then show ?thesis unfolding MaxFileSize_def ReadString_def ReadFile_def by (simp add: demo_go_resolve demo_go_paths Let_def)
qed

lemma demo_go_list: "ListDir demo_go dir dirs = []" "Glob demo_go dir pattern = []"
  by (simp_all add: Glob_def ListDir_def demo_go_def demo_os_def split: sum.split)

lemma demo_go_regexps: "find_submatch goDirectiveRe ''go'' = None" "find_submatch goModuleRe ''go'' = None"
  by code_simp+

definition demo_go_facts :: facts where
  "demo_go_facts = \<lparr>f_language = ''go'', f_version = ''1.24'', f_package_manager = ''go modules'', f_framework = '''',
     f_entrypoint = ''.'', f_install_cmd = '''',
     f_build_cmd = ''CGO_ENABLED=0 go build -trimpath -ldflags='' @ dq @ ''-s -w'' @ dq @ '' -o /out/app .'',
     f_start_cmd = [''/app''], f_port = 0, f_extra = []\<rparr>"

lemma demo_go_detect: "Go_Detect demo_go = (demo_go_facts, True)"
  by (simp add: Go_Detect_def demo_go_read demo_go_regexps goMainPackage_def isGoMain_def demo_go_list goDefaultVersion_def
      newFacts_def demo_go_facts_def)

lemma demo_json: "json_strings [''/app''] = ''['' @ dq @ ''/app'' @ dq @ '']''"
  by code_simp

lemma demo_port: "fmt_d 8080 = ''8080''"
  by (simp add: fmt_d_def fmt_nat.simps) code_simp

lemma demo_go_render: "Render (demo_go_facts\<lparr>f_port := 8080\<rparr>) = Inr (unlines_text (go_template (demo_go_facts\<lparr>f_port := 8080\<rparr>)))"
  by (simp add: Render_def templates_def demo_go_facts_def checkSingleLine_def fact_values_def contains_any_iff)

lemma demo_go_short: "length (unlines_text (go_template (demo_go_facts\<lparr>f_port := 8080\<rparr>))) < max_token"
  by (simp add: unlines_text_def go_template_def demo_go_facts_def demo_json demo_port max_token_def)

lemma demo_go_files: "IsDir demo_go name \<or> \<not> Exists demo_go name" if "name \<in> set (''.dockerignore'' # dockerfileNames)"
proof -
  have "full_path ''/r'' name \<notin> {''/r'', ''/r/go.mod''}" using that demo_go_paths(2) unfolding list_all_iff by blast
  then show ?thesis by (simp add: Exists_def demo_go_resolve)
qed

lemma demo_go_names: "try_names demo_go dockerfileNames = Inr None"
proof -
  have "try_names demo_go names = Inr None" if "set names \<subseteq> set dockerfileNames" for names
    using that demo_go_files by (induction names) auto
  then show ?thesis by blast
qed

lemma demo_go_discovery:
  "\<exists>r. DiscoverDir demo_go demo_request = Inr r \<and> dr_source r = ''template''
     \<and> dr_facts r = Some (demo_go_facts\<lparr>f_port := 8080\<rparr>)
     \<and> dr_dockerfile r = unlines_text (go_template (demo_go_facts\<lparr>f_port := 8080\<rparr>))"
proof -
  have "Detect demo_go = Some demo_go_facts"
    by (simp add: Detect_def Registry_def Go_def demo_go_detect)
  then show ?thesis
    by (simp add: demo_go_names DiscoverDir_def demo_request_def detect_def discover_file_def locateDockerfile_def demo_go_render Let_def
        render_valid [OF demo_go_render demo_go_short])
qed

text \<open>The same repository with a Dockerfile that is a link to a file of the host: the link is not followed.\<close>

definition leaky :: "string \<Rightarrow> fs" where
  "leaky secret = \<lparr>fs_os = demo_os [(''/r/Dockerfile'', ''/etc/passwd'')] [(''/r'', ''''), (''/r/go.mod'', ''go''), (''/etc/passwd'', secret)],
     fs_root = ''/r''\<rparr>"

lemma leaky_agrees: "same_view demo_go (leaky secret)"
proof -
  have "resolves_links (fs_os demo_go)" "resolves_links (fs_os (leaky secret))"
    using demo_real_paths by (auto simp: resolves_links_def demo_go_def leaky_def demo_os_def split: if_splits)
  moreover have "agree_below ''/r'' (fs_os demo_go) (fs_os (leaky secret))"
    by (auto simp: agree_below_def escapes_def demo_go_def leaky_def demo_os_def inside_def split: if_splits)
  ultimately show ?thesis using demo_real_paths by (simp add: same_view_def) (simp add: demo_go_def leaky_def)
qed



lemma detected_bases:
  assumes "l \<in> set Registry" "snd (ln_detect l ctx)" "map_of templates (ln_name l) = Some t"
  shows "trusted_bases (t ((fst (ln_detect l ctx))\<lparr>f_port := p\<rparr>))"
proof -
  let ?f = "(fst (ln_detect l ctx))\<lparr>f_port := p\<rparr>"
  have v: "version_text (f_version ?f)" using detected_any [OF assms(1), of ctx] by (simp add: detected_def)
  have builder: "extra ?f ''builderImage'' \<in> set (java_builders ?f)" if "l = Java"
    using that assms(2) java_builder [of ctx] by (simp add: Java_def java_builders_def)
  have image: "extra ?f ''image'' = '''' \<or> extra ?f ''image'' = ''docker.io/oven/bun:1''" if "l = Node"
    using that node_image [of ctx] by (simp add: Node_def)
  note bases = bases_go [OF v] bases_rust [OF v] bases_dotnet [OF v] bases_python [OF v] bases_ruby [OF v] bases_php [OF v]
    bases_static [OF v] bases_java [OF v builder] bases_node [OF v image]
  from assms(1) show ?thesis
    by (cases rule: registry_cases) (use assms(3) bases in \<open>auto simp: registry_defs templates_def\<close>)
qed

lemma detected_base_images:
  assumes "DiscoverDir root q = Inr r" "dr_source r = ''template''" "dq_language q = ''''"
  shows "\<exists>ls. split_on CHR 0x0A (dr_dockerfile r) = ls @ [''''] \<and> trusted_bases ls"
proof -
  obtain ctx f where f: "detect ctx (dq_language q) = Inr (Some f)" "Render (f\<lparr>f_port := dq_port q\<rparr>) = Inr (dr_dockerfile r)"
    using template_result [OF assms(1,2)] by metis
  obtain l where l: "l \<in> set Registry" "f = fst (ln_detect l ctx)" "snd (ln_detect l ctx)"
    using detect_language [OF f(1)] assms(3) by metis
  have name: "f_language f = ln_name l" using detected_any [OF l(1), of ctx] l(2) by (simp add: detected_def)
  obtain t where t: "map_of templates (ln_name l) = Some t" "split_on CHR 0x0A (dr_dockerfile r) = t (f\<lparr>f_port := dq_port q\<rparr>) @ ['''']"
    using Render_rules [OF f(2)] name by auto
  from detected_bases [OF l(1,3) t(1)] l(2) t(2) show ?thesis by blast
qed

text \<open>C13: a repository cannot choose its base images: in a Dockerfile generated for a detected language every
  instruction \<^verbatim>\<open>FROM\<close> names one of fifteen images of \<^verbatim>\<open>docker.io\<close>, \<^verbatim>\<open>gcr.io\<close> and
  \<^verbatim>\<open>mcr.microsoft.com\<close>, all fully qualified, and what follows their names has letters, digits, dots,
  hyphens and blanks only: detected versions become tags and cannot name another registry or repository.
\<close>

theorem base_images_fixed:
  assumes "DiscoverDir root q = Inr r" "dr_source r = ''template''" "dq_language q = ''''"
  shows "\<exists>ls. split_on CHR 0x0A (dr_dockerfile r) = ls @ [''''] \<and> trusted_bases ls"
  using assms by (rule detected_base_images)

theorem base_images_fixed_witness:
  "case DiscoverDir demo_go demo_request of Inr r \<Rightarrow> \<exists>ls. split_on CHR 0x0A (dr_dockerfile r) = ls @ [''''] \<and> trusted_bases ls
   | Inl _ \<Rightarrow> False"
proof -
  obtain r where r: "DiscoverDir demo_go demo_request = Inr r" "dr_source r = ''template''"
    using demo_go_discovery by blast
  from base_images_fixed [OF r] r(1) show ?thesis by (simp add: demo_request_def)
qed

end
