(* ===== verification/LanguageProofs.thy ===== *)
theory LanguageProofs
  imports DiscoveryProofs
begin

text \<open>
  More on detection: how a Java release is chosen, what a TOML file written from a table reads back as,
  and two places where the code does not do what its comments say.
\<close>

section \<open>Java releases\<close>

definition decimal :: "string \<Rightarrow> int" where
  "decimal s = foldl (\<lambda>n c. n * 10 + int (byte c - 48)) 0 s"

lemma atoi_from_digits:
  "list_all is_digit s \<Longrightarrow> atoi_from (of_int n) s = of_int (foldl (\<lambda>n c. n * 10 + int (byte c - 48)) n s)"
proof (induction s arbitrary: n)
  case (Cons c s)
  have "of_int n * 10 + of_nat (byte c - 48) = (of_int (n * 10 + int (byte c - 48)) :: 64 word)" by simp
  with Cons.prems Cons.IH [of "n * 10 + int (byte c - 48)"] show ?case by (simp del: of_int_add of_int_mult)
qed simp

lemma digit_value: "is_digit c \<Longrightarrow> byte c - 48 < 10"
  by (auto simp: is_digit_def less_eq_char_def byte_def)

lemma decimal_bounds:
  "list_all is_digit s \<Longrightarrow> 0 \<le> n \<Longrightarrow> 0 \<le> foldl (\<lambda>n c. n * 10 + int (byte c - 48)) n s
     \<and> foldl (\<lambda>n c. n * 10 + int (byte c - 48)) n s < (n + 1) * 10 ^ length s"
proof (induction s arbitrary: n)
  case (Cons c s)
  let ?m = "n * 10 + int (byte c - 48)"
  have "int (byte c - 48) < 10" using Cons.prems(1) digit_value [of c] by simp
  then have "(?m + 1) * 10 ^ length s \<le> (n + 1) * 10 ^ length (c # s)" by simp
  with Cons.IH [of ?m] Cons.prems show ?case by (auto simp del: power_Suc intro: less_le_trans)
qed simp

lemma atoi_decimal:
  assumes "list_all is_digit s" "length s \<le> 18"
  shows "atoi s = decimal s"
proof -
  have b: "0 \<le> decimal s" "decimal s < 10 ^ length s" using decimal_bounds [OF assms(1), of 0] by (simp_all add: decimal_def)
  have "(10::int) ^ length s \<le> 10 ^ 18" by (rule power_increasing [OF assms(2)]) simp
  with b(2) have "decimal s < 2 ^ 63" by simp
  moreover have "atoi s = sint (of_int (decimal s) :: 64 word)"
    using atoi_from_digits [OF assms(1), of 0] by (simp add: atoi_def decimal_def)
  ultimately show ?thesis using b(1) by (simp add: signed_of_int signed_take_bit_int_eq_self)
qed

lemma lts_values: "decimal ''8'' = 8" "decimal ''11'' = 11" "decimal ''17'' = 17" "decimal ''21'' = 21" "decimal ''25'' = 25"
  by (simp_all add: decimal_def byte_def)

lemma lts_atoi: "l \<in> set javaLTS \<Longrightarrow> atoi l = decimal l"
  by (rule atoi_decimal) (auto simp: javaLTS_def is_digit_def less_eq_char_def)

text \<open>C39: the Java release of a build file becomes the least LTS release that is not older, as long as there
  is one. A release after 25 becomes 25: it is rounded down, and the build image cannot compile it.
  (Numbers of up to 18 digits; a longer one wraps around in 64 bits.)
\<close>

theorem java_lts_nearest:
  assumes "list_all is_digit v" "length v \<le> 18"
  shows "nearestLTS v \<in> set javaLTS
     \<and> (decimal v \<le> 25 \<longrightarrow> decimal v \<le> decimal (nearestLTS v)
          \<and> (\<forall>l\<in>set javaLTS. decimal v \<le> decimal l \<longrightarrow> decimal (nearestLTS v) \<le> decimal l))
     \<and> (25 < decimal v \<longrightarrow> nearestLTS v = ''25'')"
proof -
  have "nearestLTS v = (case find (\<lambda>l. decimal v \<le> decimal l) javaLTS of Some l \<Rightarrow> l | None \<Rightarrow> last javaLTS)"
    using find_cong [of javaLTS javaLTS "\<lambda>l. atoi v \<le> atoi l" "\<lambda>l. decimal v \<le> decimal l"]
    by (simp add: nearestLTS_def atoi_decimal [OF assms] lts_atoi)
  then show ?thesis by (auto simp: javaLTS_def lts_values)
qed

theorem java_lts_nearest_witness:
  "nearestLTS ''18'' \<in> set javaLTS \<and> decimal ''18'' \<le> decimal (nearestLTS ''18'') \<and> nearestLTS ''26'' = ''25''"
  using java_lts_nearest [of "''18''"] java_lts_nearest [of "''26''"]
  by (simp add: decimal_def byte_def is_digit_def less_eq_char_def)

section \<open>Where the code and its comments disagree\<close>

text \<open>
  \<^verbatim>\<open>cloneAt\<close> does not look at the commit when the revision has the reference of a branch or a tag: it
  clones what the reference points to then, so that a branch that has moved since the revision was
  resolved is discovered at another commit than the one the Service records. (Its comment says that it
  checks out exactly the revision.)
\<close>

lemma clone_ignores_commit:
  assumes "is_branch_or_tag (rev_ref (dq_rev q))"
  shows "Discover H (q\<lparr>dq_rev := (dq_rev q)\<lparr>rev_sha := sha\<rparr>\<rparr>) = Discover H q"
proof -
  have "cloneAt H dir repo ((dq_rev q)\<lparr>rev_sha := sha\<rparr>) token = cloneAt H dir repo (dq_rev q) token" for dir repo token
    using assms by (simp add: cloneAt_def Let_def split: sum.split)
  moreover have "DiscoverDir root (q\<lparr>dq_rev := x\<rparr>) = DiscoverDir root q" for root x
    by (cases q, hypsubst) (unfold DiscoverDir_def discover_file_def describeContext_def discovery_request.simps, rule refl)
  ultimately show ?thesis by (simp add: Discover_def split: option.split sum.split)
qed

lemma clone_ignores_commit_example:
  "Discover H (demo_request\<lparr>dq_rev := \<lparr>rev_sha = ''def'', rev_ref = ''refs/heads/main''\<rparr>\<rparr>) = Discover H demo_request"
  using clone_ignores_commit [of demo_request H "''def''"]
  by (simp add: demo_request_def is_branch_or_tag_def has_prefix_def)

section \<open>Explicit languages\<close>

text \<open>What is missing in the Dockerfile of a language that was not found.\<close>

definition broken_lines :: "(string \<times> string) list" where
  "broken_lines = [(''go'', ''ENTRYPOINT null''), (''rust'', ''CMD null''), (''java'', ''FROM <no value> AS build''), (''python'', ''RUN ''),
     (''ruby'', ''CMD null'')]"

lemma fmt_nat_length: "n < 10 ^ Suc k \<Longrightarrow> length (fmt_nat n) \<le> Suc k"
proof (induction k arbitrary: n)
  case 0
  then show ?case by (simp add: fmt_nat.simps [of n])
next
  case (Suc k)
  then have "n div 10 < 10 ^ Suc k" by (simp add: less_mult_imp_div_less mult.commute)
  from Suc.IH [OF this] show ?case by (simp add: fmt_nat.simps [of n])
qed

lemma port_length: "0 < p \<Longrightarrow> p < 65536 \<Longrightarrow> length (fmt_d p) \<le> 5"
  using fmt_nat_length [of "nat p" 4] by (simp add: fmt_d_def)

lemma json_null: "json_strings [] = ''null''"
  by (simp add: json_strings_def)

lemma no_values: "checkSingleLine f = None" if "list_all one_line (fact_values f)" "list_all (\<lambda>v. CHR 0x0D \<notin> set v) (fact_values f)"
  using that by (auto simp: checkSingleLine_def find_None_iff contains_any_iff one_line_def list_all_iff split: option.split)

definition unfound :: "facts \<Rightarrow> string \<Rightarrow> bool" where
  \<comment> \<open>what is rendered from the defaults, for any port\<close>
  "unfound f line \<longleftrightarrow> (\<forall>p. 0 < p \<and> p < 65536 \<longrightarrow> (\<exists>d ls. Render (f\<lparr>f_port := p\<rparr>) = Inr d \<and> length d < max_token
     \<and> split_on CHR 0x0A d = ls @ [''''] \<and> line \<in> set ls))"

lemma unfoundI:
  assumes "map_of templates (f_language f) = Some t" "checkSingleLine f = None"
    "\<And>p. checkSingleLine (f\<lparr>f_port := p\<rparr>) = checkSingleLine f"
    "\<And>p. length (fmt_d p) \<le> 5 \<Longrightarrow> length (unlines_text (t (f\<lparr>f_port := p\<rparr>))) < max_token"
    "\<And>p. line \<in> set (t (f\<lparr>f_port := p\<rparr>))"
  shows "unfound f line"
  unfolding unfound_def
proof (intro allI impI)
  fix p :: int assume p: "0 < p \<and> p < 65536"
  have r: "Render (f\<lparr>f_port := p\<rparr>) = Inr (unlines_text (t (f\<lparr>f_port := p\<rparr>)))"
    using assms(1-3) p by (simp add: Render_def)
  obtain t' where "map_of templates (f_language f) = Some t'"
    "split_on CHR 0x0A (unlines_text (t (f\<lparr>f_port := p\<rparr>))) = t' (f\<lparr>f_port := p\<rparr>) @ ['''']"
    using Render_rules [OF r] by auto
  with r assms(1) assms(4) [of p] assms(5) [of p] port_length [of p] p
  show "\<exists>d ls. Render (f\<lparr>f_port := p\<rparr>) = Inr d \<and> length d < max_token \<and> split_on CHR 0x0A d = ls @ [''''] \<and> line \<in> set ls"
    by auto
qed

lemma port_unchecked: "checkSingleLine (f\<lparr>f_port := p\<rparr>) = checkSingleLine f"
  by (simp add: checkSingleLine_def fact_values_def)

lemmas unfound_simps = Let_def newFacts_def templates_def checkSingleLine_def fact_values_def contains_any_iff unlines_text_def
  json_null max_token_def extra_def tmpl_extra_def

lemma unfound_Go:
  assumes "\<not> snd (Go_Detect fs)"
  shows "unfound (fst (Go_Detect fs)) ''ENTRYPOINT null''"
proof -
  have f: "fst (Go_Detect fs) = (newFacts ''go'' ''1.24'')\<lparr>f_package_manager := ''go modules'', f_entrypoint := ''.''\<rparr>"
    using assms by (auto simp: Go_Detect_def Let_def goDefaultVersion_def split: if_splits)
  show ?thesis
    unfolding f by (rule unfoundI [of _ go_template, OF _ _ port_unchecked]) (simp_all add: go_template_def unfound_simps)
qed

lemma unfound_Rust:
  assumes "\<not> snd (Rust_Detect fs)"
  shows "unfound (fst (Rust_Detect fs)) ''CMD null''"
proof -
  have f: "fst (Rust_Detect fs) = (newFacts ''rust'' ''1'')\<lparr>f_package_manager := ''cargo'', f_entrypoint := ''app''\<rparr>"
    using assms by (auto simp: Rust_Detect_def Let_def rustDefaultVersion_def split: if_splits)
  show ?thesis
    unfolding f by (rule unfoundI [of _ rust_template, OF _ _ port_unchecked]) (simp_all add: rust_template_def unfound_simps)
qed

lemma unfound_Java:
  assumes "\<not> snd (Java_Detect fs)"
  shows "unfound (fst (Java_Detect fs)) ''FROM <no value> AS build''"
proof -
  have f: "fst (Java_Detect fs) = (newFacts ''java'' ''21'')\<lparr>f_entrypoint := ''app.jar'',
      f_start_cmd := shellCmd ''java $JAVA_OPTS -Dserver.port=${PORT} -jar /app/app.jar''\<rparr>"
    using assms by (auto simp: Java_Detect_def javaDefaultVersion_def Let_def split: if_splits)
  have json: "length (json_strings (shellCmd ''java $JAVA_OPTS -Dserver.port=${PORT} -jar /app/app.jar'')) \<le> 100"
    by code_simp
  show ?thesis
    unfolding f
    by (rule unfoundI [of _ java_template, OF _ _ port_unchecked])
      (use json in \<open>simp_all add: java_template_def unfound_simps shellCmd_def\<close>)
qed

lemma unfound_Python:
  assumes "\<not> snd (Python_Detect fs)"
  shows "unfound (fst (Python_Detect fs)) ''RUN ''"
proof -
  have f: "fst (Python_Detect fs) = newFacts ''python'' ''3.12''"
    using assms by (auto simp: Python_Detect_def Let_def pythonDefaultVersion_def split: if_splits)
  show ?thesis
    unfolding f by (rule unfoundI [of _ python_template, OF _ _ port_unchecked]) (simp_all add: python_template_def unfound_simps)
qed

lemma unfound_Ruby:
  assumes "\<not> snd (Ruby_Detect fs)"
  shows "unfound (fst (Ruby_Detect fs)) ''CMD null''"
proof -
  have f: "fst (Ruby_Detect fs) = (newFacts ''ruby'' ''3.3'')\<lparr>f_package_manager := ''bundler''\<rparr>"
    using assms by (auto simp: Ruby_Detect_def Let_def rubyDefaultVersion_def split: if_splits)
  show ?thesis
    unfolding f by (rule unfoundI [of _ ruby_template, OF _ _ port_unchecked]) (simp_all add: ruby_template_def unfound_simps)
qed

lemma broken_unfound:
  assumes "ByName lang = Some l" "(lang, line) \<in> set broken_lines" "\<not> snd (ln_detect l fs)"
  shows "unfound (fst (ln_detect l fs)) line"
proof -
  have l: "l \<in> set Registry" "ln_name l = lang" using assms(1) by (auto simp: ByName_def dest: find_SomeD)
  from l(1) show ?thesis
    by (cases rule: registry_cases)
      (use assms(2,3) l(2) unfound_Go unfound_Rust unfound_Java unfound_Python unfound_Ruby in
        \<open>auto simp: registry_defs broken_lines_def\<close>)
qed

text \<open>C38: an explicit language cannot make a Dockerfile out of nothing: when a repository without a Dockerfile
  names Go, Rust, Java, Python or Ruby as its language and has none of its files, the engine reports
  success with a Dockerfile no builder can run: an entry point or command \<^verbatim>\<open>null\<close>, a base image
  \<^verbatim>\<open><no value>\<close>, which is how a template prints a missing fact, or an empty \<^verbatim>\<open>RUN\<close>. (The interface's comment says that the facts hold the defaults an explicit
  \<^verbatim>\<open>spec.build.language\<close> can be rendered from.)
\<close>

theorem explicit_language_unusable:
  assumes "ByName (dq_language q) = Some l" "(dq_language q, line) \<in> set broken_lines" "\<not> snd (ln_detect l root)"
    and "dq_context_dir q = ''''" "dq_dockerfile_path q = ''''" "try_names root dockerfileNames = Inr None"
    and "0 < dq_port q" "dq_port q < 65536"
  shows "\<exists>r ls. DiscoverDir root q = Inr r \<and> dr_source r = ''template'' \<and> split_on CHR 0x0A (dr_dockerfile r) = ls @ [''''] \<and> line \<in> set ls"
proof -
  let ?f = "fst (ln_detect l root)"
  have "dq_language q \<noteq> ''''" using assms(2) by (auto simp: broken_lines_def)
  then have det: "detect root (dq_language q) = Inr (Some ?f)" using assms(1) by (simp add: detect_def)
  obtain d ls where d: "Render (?f\<lparr>f_port := dq_port q\<rparr>) = Inr d" "length d < max_token" "split_on CHR 0x0A d = ls @ ['''']" "line \<in> set ls"
    using broken_unfound [OF assms(1-3)] assms(7,8) unfolding unfound_def by blast
  then show ?thesis
    using det assms(4-6) by (simp add: DiscoverDir_def discover_file_def locateDockerfile_def render_valid Let_def)
qed

theorem explicit_language_unusable_witness:
  "\<exists>r ls. DiscoverDir demo_go (demo_request\<lparr>dq_language := ''rust''\<rparr>) = Inr r
     \<and> split_on CHR 0x0A (dr_dockerfile r) = ls @ [''''] \<and> ''CMD null'' \<in> set ls"
proof -
  have "full_path ''/r'' ''Cargo.toml'' \<notin> {''/r'', ''/r/go.mod''}" by code_simp
  then have "ReadString demo_go ''Cargo.toml'' = ''''" by (simp add: ReadString_def ReadFile_def demo_go_resolve)
  then have "\<not> snd (ln_detect Rust demo_go)" by (simp add: Rust_def Rust_Detect_def)
  moreover have "ByName ''rust'' = Some Rust" by (simp add: ByName_def Registry_def registry_defs)
  ultimately show ?thesis
    using explicit_language_unusable [of "demo_request\<lparr>dq_language := ''rust''\<rparr>" Rust "''CMD null''" demo_go] demo_go_names
    by (auto simp: demo_request_def broken_lines_def)
qed

section \<open>TOML files\<close>

text \<open>A flat document: sections with their keys, and the text a program writes for it.\<close>

type_synonym toml_doc = "(string \<times> (string \<times> string) list) list"

definition toml_member :: "string \<times> string \<Rightarrow> string" where
  "toml_member kv = fst kv @ '' = '' @ dq @ snd kv @ dq"

definition toml_text :: "toml_doc \<Rightarrow> string list" where
  "toml_text doc = concat (map (\<lambda>(s, kvs). (''['' @ s @ '']'') # map toml_member kvs) doc)"

definition toml_get :: "toml_doc \<Rightarrow> string \<Rightarrow> string \<Rightarrow> string option" where
  "toml_get doc s k = map_of (concat (map snd (filter (\<lambda>(s', kvs). s' = s) doc))) k"

definition toml_name :: "string \<Rightarrow> bool" where
  "toml_name n \<longleftrightarrow> n \<noteq> '''' \<and> list_all (\<lambda>c. word_char c \<or> c = CHR ''-'' \<or> c = CHR ''.'') n"

definition toml_ok :: "toml_doc \<Rightarrow> bool" where
  "toml_ok doc \<longleftrightarrow> list_all (\<lambda>(s, kvs). toml_name s
     \<and> list_all (\<lambda>(k, v). toml_name k \<and> one_line v \<and> CHR 0x22 \<notin> set v) kvs) doc"

lemma toml_char: "word_char c \<or> c = CHR ''-'' \<or> c = CHR ''.'' \<Longrightarrow> visible c \<and> c \<notin> {CHR ''['', CHR '']'', CHR '' '', CHR ''='', CHR ''#'', CHR 0x0A}"
  by (auto simp: word_char_def is_alnum_def is_lower_def is_upper_def is_digit_def visible_def less_eq_char_def)

lemma toml_name_chars:
  assumes "toml_name n" "c \<in> set n"
  shows "visible c" "c \<notin> {CHR ''['', CHR '']'', CHR '' '', CHR ''='', CHR ''#'', CHR 0x0A}"
  using assms toml_char [of c] unfolding toml_name_def list_all_iff by blast+

lemma toml_name_line: "toml_name n \<Longrightarrow> one_line n \<and> trimmed n \<and> n \<noteq> ''''"
proof -
  assume n: "toml_name n"
  then have "n \<noteq> ''''" by (simp add: toml_name_def)
  with toml_name_chars [OF n] show ?thesis by (auto simp: one_line_def trimmed_def)
qed

lemma drop_cr_keep: "l \<noteq> '''' \<Longrightarrow> last l \<noteq> CHR 0x0D \<Longrightarrow> drop_cr l = l"
  by (cases l rule: rev_cases) (auto simp: drop_cr_def trim_suffix_def has_suffix_def)

lemma trim_set_name:
  assumes "toml_name s"
  shows "trim_set (''['' @ s @ '']'') ''[] '' = s"
proof -
  have c: "\<forall>c\<in>set s. c \<notin> set ''[] ''" using toml_name_chars(2) [OF assms] by auto
  have ne: "s \<noteq> ''''" using assms by (simp add: toml_name_def)
  have l: "trim_left (t @ u) ''[] '' = t @ u" if "\<forall>c\<in>set t. c \<notin> set ''[] ''" "t \<noteq> []" for t u
    using that by (cases t) (simp_all add: trim_left_def)
  have "trim_left (''['' @ s @ '']'') ''[] '' = s @ '']''"
    using l [OF c ne, of "'']''"] by (simp add: trim_left_def)
  moreover have "trim_left (rev (s @ '']'')) ''[] '' = rev s"
    using l [of "rev s" "[]"] c ne by (simp add: trim_left_def)
  ultimately show ?thesis by (simp add: trim_set_def)
qed

lemma toml_header_line:
  assumes "toml_name s"
  shows "toml_lines (drop_cr (''['' @ s @ '']'') # ls) cur section key = toml_lines ls s section key"
proof -
  have "drop_cr (''['' @ s @ '']'') = ''['' @ s @ '']''" by (rule drop_cr_keep) simp_all
  moreover have "trim_space (''['' @ s @ '']'') = ''['' @ s @ '']''"
    by (rule trim_space_trimmed) (simp add: trimmed_def visible_def)
  ultimately show ?thesis using trim_set_name [OF assms] by (simp add: Let_def has_prefix_def)
qed

lemma toml_member_line:
  assumes "toml_name k" "CHR 0x22 \<notin> set v"
  shows "toml_lines (drop_cr (toml_member (k, v)) # ls) cur section key
    = (if cur = section \<and> k = key then v else toml_lines ls cur section key)"
proof -
  note k = toml_name_line [OF assms(1)]
  then obtain c k' where ck: "k = c # k'" by (cases k) auto
  have hd: "c \<noteq> CHR ''['' \<and> c \<noteq> CHR ''#''" using toml_name_chars(2) [OF assms(1), of c] ck by auto
  have line: "toml_member (k, v) = (k @ '' '') @ CHR ''='' # CHR '' '' # (dq @ v @ dq)" by (simp add: toml_member_def)
  have l: "toml_member (k, v) \<noteq> ''''" "last (toml_member (k, v)) = CHR 0x22" "hd (toml_member (k, v)) = hd k"
    using ck by (simp_all add: toml_member_def)
  then have cr: "drop_cr (toml_member (k, v)) = toml_member (k, v)" by (intro drop_cr_keep) simp_all
  have tr: "trim_space (toml_member (k, v)) = toml_member (k, v)"
  proof (rule trim_space_trimmed)
    have "visible (hd k)" using k unfolding trimmed_def by blast
    moreover have "visible (CHR 0x22)" by (simp add: visible_def)
    ultimately show "trimmed (toml_member (k, v))" by (simp add: trimmed_def l)
  qed
  have "CHR ''='' \<notin> set (k @ '' '')" using toml_name_chars(2) [OF assms(1)] by auto
  then have cut: "cut (toml_member (k, v)) CHR ''='' = (k @ '' '', CHR '' '' # (dq @ v @ dq), True)"
    unfolding line by (rule cut_append)
  have "trimmed (dq @ v @ dq)" by (simp add: trimmed_def visible_def)
  then have val: "trim_space (CHR '' '' # (dq @ v @ dq)) = dq @ v @ dq" by (simp only: trim_space_blank trim_space_trimmed)
  have "unquote (dq @ v @ dq) = v" using assms(2) by (auto simp: unquote_def takeWhile_append)
  moreover have "trim_space (k @ '' '') = k" using k by (intro trim_space_blank_right) simp_all
  moreover have "\<not> has_prefix (toml_member (k, v)) ''#''" "\<not> has_prefix (toml_member (k, v)) ''[''"
    using hd by (simp_all add: toml_member_def ck has_prefix_def)
  ultimately have "toml_lines (drop_cr (toml_member (k, v)) # ls) cur section key
      = (if cur \<noteq> section then toml_lines ls cur section key
         else if k \<noteq> key then toml_lines ls cur section key else v)"
    using l(1) val by (simp only: toml_lines.simps Let_def cr tr cut prod.case simp_thms if_True if_False)
  then show ?thesis by simp
qed

lemma toml_members_lines:
  assumes "list_all (\<lambda>(k, v). toml_name k \<and> CHR 0x22 \<notin> set v) kvs"
  shows "toml_lines (map drop_cr (map toml_member kvs) @ ls) cur section key
    = (case (if cur = section then map_of kvs key else None) of Some v \<Rightarrow> v | None \<Rightarrow> toml_lines ls cur section key)"
  using assms by (induction kvs) (auto simp: toml_member_line simp del: toml_lines.simps)

lemma toml_doc_lines:
  assumes "toml_ok doc"
  shows "toml_lines (map drop_cr (toml_text doc)) cur section key = (case toml_get doc section key of Some v \<Rightarrow> v | None \<Rightarrow> '''')"
  using assms
proof (induction doc arbitrary: cur)
  case Nil
  then show ?case by (simp add: toml_text_def toml_get_def)
next
  case (Cons p doc)
  obtain s kvs where p: "p = (s, kvs)" by force
  have ok: "toml_name s" "list_all (\<lambda>(k, v). toml_name k \<and> CHR 0x22 \<notin> set v) kvs" "toml_ok doc"
    using Cons.prems by (auto simp: p toml_ok_def list_all_iff)
  have "map drop_cr (toml_text (p # doc)) = drop_cr (''['' @ s @ '']'') # map drop_cr (map toml_member kvs) @ map drop_cr (toml_text doc)"
    by (simp add: p toml_text_def)
  then show ?case
    using Cons.IH [OF ok(3), of s]
    by (simp only: toml_header_line [OF ok(1)] toml_members_lines [OF ok(2)])
      (auto simp: p toml_get_def map_add_def split: option.split)
qed

lemma toml_text_lines: "toml_ok doc \<Longrightarrow> list_all one_line (toml_text doc)"
  using toml_name_line by (fastforce simp: toml_ok_def toml_text_def toml_member_def list_all_iff)

text \<open>C40: the reader of TOML files is right on what it is meant for: in a document of sections with quoted
  values, written one member per line, it finds the first value of the key in the sections of that name,
  and the empty string when there is none; no other section, key, value or order of sections confuses it.
  (The document is shorter than a line the scanner can hold; values are on one line and without quotes.)
\<close>

theorem toml_roundtrip:
  assumes "toml_ok doc" "length (unlines_text (toml_text doc)) < max_token"
  shows "TOMLValue (unlines_text (toml_text doc)) section key = (case toml_get doc section key of Some v \<Rightarrow> v | None \<Rightarrow> '''')"
  unfolding TOMLValue_def scan_unlines [OF toml_text_lines [OF assms(1)] assms(2)] by (rule toml_doc_lines [OF assms(1)])

definition demo_toml :: toml_doc where
  "demo_toml = [(''package'', [(''name'', ''shop''), (''edition'', ''2021'')]), (''bin'', [(''name'', ''# x'')])]"

theorem toml_roundtrip_witness:
  "TOMLValue (unlines_text (toml_text demo_toml)) ''package'' ''name'' = ''shop''
     \<and> TOMLValue (unlines_text (toml_text demo_toml)) ''bin'' ''name'' = ''# x''
     \<and> TOMLValue (unlines_text (toml_text demo_toml)) ''bin'' ''edition'' = ''''"
proof -
  have "toml_ok demo_toml"
    by (simp add: toml_ok_def demo_toml_def toml_name_def word_char_def is_alnum_def is_lower_def is_upper_def is_digit_def less_eq_char_def)
  moreover have "length (unlines_text (toml_text demo_toml)) < max_token"
    by (simp add: demo_toml_def toml_text_def toml_member_def unlines_text_def max_token_def)
  ultimately show ?thesis by (simp add: toml_roundtrip) (simp add: toml_get_def demo_toml_def)
qed

end
