(* ===== verification/Transport.thy ===== *)
theory Transport
  imports Kube "HOL-Library.Word"
begin

text \<open>
  \<^verbatim>\<open>internal/notify/transport.go\<close>: the dialer of the client that notifications are posted with refuses
  addresses of the node and of the cloud's metadata service, after the host's name was resolved. What
  package \<^verbatim>\<open>net\<close> makes of the text of an address is modelled as far as \<^verbatim>\<open>refuseBlocked\<close> uses it:
  \<^verbatim>\<open>SplitHostPort\<close>, \<^verbatim>\<open>ParseIP\<close> for IPv4 and IPv6 with its abbreviations, the classes of addresses
  and the text of one. Theory \<open>TransportProofs\<close> relates the check to the blocks of addresses it stands for.
\<close>

unbundle bit_operations_syntax

section \<open>Addresses\<close>

text \<open>An address has 16 bytes, also one of IPv4, which has the prefix of the mapped addresses.\<close>

type_synonym ip = "8 word list"

definition v4_prefix :: ip where "v4_prefix = replicate 10 0 @ [0xFF, 0xFF]"

definition To4 :: "ip \<Rightarrow> ip option" where
  "To4 a = (if take 12 a = v4_prefix then Some (drop 12 a) else None)"

definition IsUnspecified :: "ip \<Rightarrow> bool" where
  "IsUnspecified a \<longleftrightarrow> a = v4_prefix @ [0, 0, 0, 0] \<or> a = replicate 16 0"

definition IsLoopback :: "ip \<Rightarrow> bool" where
  "IsLoopback a = (case To4 a of Some v \<Rightarrow> v ! 0 = 127 | None \<Rightarrow> a = replicate 15 0 @ [1])"

definition IsMulticast :: "ip \<Rightarrow> bool" where
  "IsMulticast a = (case To4 a of Some v \<Rightarrow> v ! 0 AND 0xF0 = 0xE0 | None \<Rightarrow> a ! 0 = 0xFF)"

definition IsLinkLocalMulticast :: "ip \<Rightarrow> bool" where
  "IsLinkLocalMulticast a = (case To4 a of Some v \<Rightarrow> v ! 0 = 224 \<and> v ! 1 = 0 \<and> v ! 2 = 0
     | None \<Rightarrow> a ! 0 = 0xFF \<and> a ! 1 AND 0x0F = 0x02)"

definition IsLinkLocalUnicast :: "ip \<Rightarrow> bool" where
  "IsLinkLocalUnicast a = (case To4 a of Some v \<Rightarrow> v ! 0 = 169 \<and> v ! 1 = 254
     | None \<Rightarrow> a ! 0 = 0xFE \<and> a ! 1 AND 0xC0 = 0x80)"

section \<open>Reading an address\<close>

fun ipv4_fields :: "string \<Rightarrow> nat \<Rightarrow> nat \<Rightarrow> 8 word list \<Rightarrow> ip option" where
  \<comment> \<open>value and number of digits of the current octet, and the octets before it\<close>
  "ipv4_fields [] val len octets = (if length octets < 3 then None else Some (octets @ [word_of_nat val]))"
| "ipv4_fields (c # s) val len octets =
     (if is_digit c then
        (if len = 1 \<and> val = 0 then None
         else let val = val * 10 + (of_char c - 48) in
           if val > 255 then None else ipv4_fields s val (len + 1) octets)
      else if c = CHR ''.'' then
        (if len = 0 \<or> s = [] \<or> length octets = 3 then None
         else ipv4_fields s 0 0 (octets @ [word_of_nat val]))
      else None)"

definition hex_char :: "char \<Rightarrow> nat option" where
  "hex_char c = (if is_digit c then Some (of_char c - 48)
     else if CHR ''a'' \<le> c \<and> c \<le> CHR ''f'' then Some (of_char c - 87)
     else if CHR ''A'' \<le> c \<and> c \<le> CHR ''F'' then Some (of_char c - 55) else None)"

definition hex_field :: "string \<Rightarrow> (nat \<times> string) option" where
  \<comment> \<open>the hexadecimal number at the start, of one to four digits, and the text after it\<close>
  "hex_field s = (let ds = takeWhile (\<lambda>c. hex_char c \<noteq> None) s in
     if ds = [] \<or> length ds > 4 then None
     else Some (foldl (\<lambda>n c. n * 16 + the (hex_char c)) 0 ds, drop (length ds) s))"

fun ipv6_groups :: "nat \<Rightarrow> string \<Rightarrow> ip \<Rightarrow> nat option \<Rightarrow> (string \<times> ip \<times> nat option) option" where
  \<comment> \<open>the loop of \<^verbatim>\<open>parseIPv6\<close>, with the number of groups that still fit: the rest of the text, the bytes, and where \<^verbatim>\<open>::\<close> was\<close>
  "ipv6_groups 0 s a ellipsis = Some (s, a, ellipsis)"
| "ipv6_groups (Suc n) s a ellipsis = (case hex_field s of
       None \<Rightarrow> None
     | Some (v, rest) \<Rightarrow>
         if has_prefix rest ''.'' then
           (if ellipsis = None \<and> length a \<noteq> 12 \<or> length a + 4 > 16 then None
            else (case ipv4_fields s 0 0 [] of None \<Rightarrow> None | Some v4 \<Rightarrow> Some ('''', a @ v4, ellipsis)))
         else
           let a = a @ [word_of_nat (v div 256), word_of_nat v] in
           (case rest of
              [] \<Rightarrow> Some ('''', a, ellipsis)
            | c # s \<Rightarrow>
                if c \<noteq> CHR '':'' \<or> s = [] then None
                else if has_prefix s '':'' then
                  (if ellipsis \<noteq> None then None
                   else if tl s = [] then Some ('''', a, Some (length a))
                   else ipv6_groups n (tl s) a (Some (length a)))
                else ipv6_groups n s a ellipsis))"

definition parseIPv6 :: "string \<Rightarrow> ip option" where
  "parseIPv6 s =
     (if s = ''::'' then Some (replicate 16 0)
      else case (if has_prefix s ''::'' then ipv6_groups 8 (drop 2 s) [] (Some 0) else ipv6_groups 8 s [] None) of
          None \<Rightarrow> None
        | Some (rest, a, ellipsis) \<Rightarrow>
            if rest \<noteq> '''' then None
            else if length a < 16 then
              (case ellipsis of None \<Rightarrow> None
               | Some e \<Rightarrow> Some (take e a @ replicate (16 - length a) 0 @ drop e a))
            else if ellipsis \<noteq> None then None
            else Some a)"

definition ParseIP :: "string \<Rightarrow> ip option" where
  \<comment> \<open>an address with a zone is none\<close>
  "ParseIP s = (case find (\<lambda>c. c \<in> {CHR ''.'', CHR '':'', CHR ''%''}) s of
       None \<Rightarrow> None
     | Some c \<Rightarrow>
         if c = CHR ''.'' then map_option (\<lambda>v4. v4_prefix @ v4) (ipv4_fields s 0 0 [])
         else if c = CHR '':'' \<and> CHR ''%'' \<notin> set s then parseIPv6 s
         else None)"

section \<open>The text of an address\<close>

fun hex_text :: "nat \<Rightarrow> string" where
  "hex_text n = (if n < 16 then [hex_digit n] else hex_text (n div 16) @ [hex_digit (n mod 16)])"

declare hex_text.simps [simp del]

definition dotted :: "ip \<Rightarrow> string" where
  "dotted v = join (map (\<lambda>b. fmt_nat (unat b)) v) ''.''"

fun pairs :: "ip \<Rightarrow> nat list" where
  "pairs (h # l # a) = (unat h * 256 + unat l) # pairs a"
| "pairs a = []"

definition zero_run :: "nat list \<Rightarrow> nat" where
  "zero_run gs = length (takeWhile (\<lambda>g. g = 0) gs)"

definition longest_zeros :: "nat list \<Rightarrow> nat \<times> nat" where
  \<comment> \<open>start and length of the first longest run of at least two zero groups\<close>
  "longest_zeros gs = foldl (\<lambda>(start, len) i. let l = zero_run (drop i gs) in if l \<ge> 2 \<and> l > len then (i, l) else (start, len))
     (0, 0) [0..<length gs]"

definition ip_string :: "ip \<Rightarrow> string" where
  \<comment> \<open>\<^verbatim>\<open>IP.String\<close>\<close>
  "ip_string a = (case To4 a of
       Some v \<Rightarrow> dotted v
     | None \<Rightarrow> let gs = pairs a in
         (case longest_zeros gs of (start, len) \<Rightarrow>
            if len = 0 then join (map hex_text gs) '':''
            else join (map hex_text (take start gs)) '':'' @ ''::'' @ join (map hex_text (drop (start + len) gs)) '':''))"

section \<open>SplitHostPort\<close>

definition addr_error :: "string \<Rightarrow> string \<Rightarrow> gerror" where
  "addr_error address why = errorf (''address '' @ address @ '': '' @ why)"

definition SplitHostPort :: "string \<Rightarrow> gerror + string \<times> string" where
  "SplitHostPort hostport = (case last_segment hostport CHR '':'' of
       None \<Rightarrow> Inl (addr_error hostport ''missing port in address'')
     | Some port \<Rightarrow>
         let i = length hostport - length port - 1;
             brackets = (\<lambda>host j k.
               if CHR ''['' \<in> set (drop j hostport) then Inl (addr_error hostport (''unexpected '' @ [CHR 0x27] @ ''['' @ [CHR 0x27] @ '' in address''))
               else if CHR '']'' \<in> set (drop k hostport) then Inl (addr_error hostport (''unexpected '' @ [CHR 0x27] @ '']'' @ [CHR 0x27] @ '' in address''))
               else Inr (host, port))
         in if has_prefix hostport ''['' then
              (if CHR '']'' \<notin> set hostport then Inl (addr_error hostport (''missing '' @ [CHR 0x27] @ '']'' @ [CHR 0x27] @ '' in address''))
               else
                 let end = length (takeWhile (\<lambda>c. c \<noteq> CHR '']'') hostport) in
                 if end + 1 = length hostport then Inl (addr_error hostport ''missing port in address'')
                 else if end + 1 = i then brackets (drop 1 (take end hostport)) 1 (end + 1)
                 else if hostport ! (end + 1) = CHR '':'' then Inl (addr_error hostport ''too many colons in address'')
                 else Inl (addr_error hostport ''missing port in address''))
            else
              let host = take i hostport in
              if CHR '':'' \<in> set host then Inl (addr_error hostport ''too many colons in address'')
              else brackets host 0 0)"

section \<open>The check\<close>

definition errBlockedAddress :: gerror where
  "errBlockedAddress = errorf ''destination address is not allowed''"

definition blocked_address :: "string \<Rightarrow> gerror" where
  \<comment> \<open>\<^verbatim>\<open>fmt.Errorf("%w: %s", errBlockedAddress, x)\<close>\<close>
  "blocked_address x = errBlockedAddress\<lparr>err_msg := err_msg errBlockedAddress @ '': '' @ x\<rparr>"

definition refuseBlocked :: "string \<Rightarrow> gerror option" where
  "refuseBlocked address = (case SplitHostPort address of
       Inl err \<Rightarrow> Some err
     | Inr (host, _) \<Rightarrow> (case ParseIP host of
         None \<Rightarrow> Some (blocked_address host)
       | Some a \<Rightarrow>
           if IsLoopback a \<or> IsLinkLocalUnicast a \<or> IsLinkLocalMulticast a \<or> IsUnspecified a \<or> IsMulticast a
           then Some (blocked_address (ip_string a)) else None))"

end
