(* ===== verification/TransportProofs.thy ===== *)
theory TransportProofs
  imports Transport
begin

text \<open>
  The address filter of the notification transport (theory \<open>Transport\<close>): the text of an address is read
  back to the address, octet by octet for IPv4 and group by group for IPv6, and the addresses that are
  refused are exactly eight blocks.
\<close>

unbundle bit_operations_syntax

section \<open>The octets of an IPv4 address\<close>

lemma decimal_digit: "n < 10 \<Longrightarrow> is_digit (char_of (48 + n)) \<and> (of_char (char_of (48 + n)) :: nat) - 48 = n"
  by (simp add: is_digit_def less_eq_char_def)

lemma fmt_digits: "list_all is_digit (fmt_nat n)"
proof (induction n rule: fmt_nat.induct)
  case (1 n)
  have "is_digit (char_of (48 + k))" if "k < 10" for k :: nat using decimal_digit [OF that] by blast
  with 1 show ?case by (subst fmt_nat.simps) simp
qed

lemma fmt_nat_octet:
  assumes "n < 256"
  obtains "n < 10" "fmt_nat n = [char_of (48 + n)]"
  | "10 \<le> n" "n < 100" "fmt_nat n = [char_of (48 + n div 10), char_of (48 + n mod 10)]"
  | "100 \<le> n" "fmt_nat n = [char_of (48 + n div 100), char_of (48 + n div 10 mod 10), char_of (48 + n mod 10)]"
proof -
  consider "n < 10" | "10 \<le> n" "n < 100" | "100 \<le> n" by linarith
  then show thesis
  proof cases
    case 1
    then show thesis using that(1) by (simp add: fmt_nat.simps)
  next
    case 2
    then show thesis using that(2) by (simp add: fmt_nat.simps [of n] fmt_nat.simps [of "n div 10"])
  next
    case 3
    have "n div 10 div 10 < 10" "\<not> n div 10 < 10" "n div 10 div 10 = n div 100" using 3 assms by (auto simp: div_mult2_eq [symmetric])
    with 3 show thesis
      using that(3) by (simp add: fmt_nat.simps [of n] fmt_nat.simps [of "n div 10"] fmt_nat.simps [of "n div 10 div 10"] fmt_nat.simps [of "n div 100"])
  qed
qed

lemma ipv4_digit:
  assumes "d < 10" "\<not> (len = 1 \<and> val = 0)" "val * 10 + d \<le> 255"
  shows "ipv4_fields (char_of (48 + d) # s) val len octets = ipv4_fields s (val * 10 + d) (len + 1) octets"
  using decimal_digit [OF assms(1)] assms(2,3) by (auto simp add: Let_def simp del: of_char_of)

lemma ipv4_digits_two:
  assumes "a < 10" "b < 10" "0 < a"
  shows "ipv4_fields (char_of (48 + a) # char_of (48 + b) # s) 0 0 octets = ipv4_fields s (a * 10 + b) 2 octets"
  using ipv4_digit [of a 0 0 "char_of (48 + b) # s" octets] ipv4_digit [of b 1 a s octets] assms
  by (simp add: numeral_2_eq_2 del: ipv4_fields.simps)

lemma ipv4_digits_three:
  assumes "a < 10" "b < 10" "c < 10" "0 < a" "(a * 10 + b) * 10 + c \<le> 255"
  shows "ipv4_fields (char_of (48 + a) # char_of (48 + b) # char_of (48 + c) # s) 0 0 octets
    = ipv4_fields s ((a * 10 + b) * 10 + c) 3 octets"
  using ipv4_digits_two [of a b "char_of (48 + c) # s" octets] ipv4_digit [of c 2 "a * 10 + b" s octets] assms
  by (simp add: numeral_3_eq_3 numeral_2_eq_2 del: ipv4_fields.simps)

lemma ipv4_octet:
  assumes "n < 256"
  shows "ipv4_fields (fmt_nat n @ s) 0 0 octets = ipv4_fields s n (length (fmt_nat n)) octets"
  using assms
proof (cases rule: fmt_nat_octet)
  case 1
  then show ?thesis using ipv4_digit [of n 0 0 s octets] by simp
next
  case 2
  have l: "n div 10 < 10" "n mod 10 < 10" "0 < n div 10" and e: "n div 10 * 10 + n mod 10 = n" using 2(1,2) by auto
  have len: "length (fmt_nat n) = 2" unfolding 2(3) by simp
  show ?thesis unfolding len unfolding 2(3) append_Cons append_Nil ipv4_digits_two [OF l] e ..
next
  case 3
  have "n div 100 = n div 10 div 10" by (simp add: div_mult2_eq [symmetric])
  then have e: "(n div 100 * 10 + n div 10 mod 10) * 10 + n mod 10 = n" by (simp only: div_mult_mod_eq)
  have l: "n div 100 < 10" "n div 10 mod 10 < 10" "n mod 10 < 10" "0 < n div 100" using 3(1) assms by auto
  have b: "(n div 100 * 10 + n div 10 mod 10) * 10 + n mod 10 \<le> 255" unfolding e using assms by simp
  have len: "length (fmt_nat n) = 3" unfolding 3(2) by simp
  show ?thesis unfolding len unfolding 3(2) append_Cons append_Nil ipv4_digits_three [OF l b] e ..
qed

lemma ipv4_fields_dotted:
  "ipv4_fields (dotted [a, b, c, d]) 0 0 [] = Some [a, b, c, d]"
proof -
  have n: "unat (x :: 8 word) < 256" for x using unsigned_less [of x, where 'a = nat] by simp
  have dot: "ipv4_fields (CHR ''.'' # s) v (length (fmt_nat k)) octets = ipv4_fields s 0 0 (octets @ [word_of_nat v])"
    if "s \<noteq> []" "length octets \<noteq> 3" for s v k octets
    using that by (simp add: is_digit_def less_eq_char_def)
  show ?thesis
    by (simp add: dotted_def ipv4_octet [OF n] dot ipv4_octet [OF n, of _ "[]", simplified] del: ipv4_fields.simps(2))
qed

section \<open>The groups of an IPv6 address\<close>

lemma hex_digit_char: "n < 16 \<Longrightarrow> hex_char (hex_digit n) = Some n"
proof -
  have "list_all (\<lambda>n. hex_char (hex_digit n) = Some n) [0..<16]" by code_simp
  then show "n < 16 \<Longrightarrow> hex_char (hex_digit n) = Some n" by (simp add: list_all_iff)
qed

lemma hex_text_chars: "list_all (\<lambda>c. hex_char c \<noteq> None) (hex_text n)"
proof (induction n rule: hex_text.induct)
  case (1 n)
  then show ?case by (subst hex_text.simps) (simp add: hex_digit_char)
qed

lemma hex_text_nonempty [simp]: "hex_text n \<noteq> []"
  by (subst hex_text.simps) simp

lemma hex_text_value: "foldl (\<lambda>n c. n * 16 + the (hex_char c)) 0 (hex_text n) = n"
proof (induction n rule: hex_text.induct)
  case (1 n)
  then show ?case by (subst hex_text.simps) (simp add: hex_digit_char)
qed

lemma hex_text_length: "n < 16 ^ Suc k \<Longrightarrow> length (hex_text n) \<le> Suc k"
proof (induction k arbitrary: n)
  case 0
  then show ?case by (simp add: hex_text.simps [of n])
next
  case (Suc k)
  then have "n div 16 < 16 ^ Suc k" by (simp add: less_mult_imp_div_less mult.commute)
  from Suc.IH [OF this] show ?case by (simp add: hex_text.simps [of n])
qed

definition no_hex :: "string \<Rightarrow> bool" where
  "no_hex s \<longleftrightarrow> s = [] \<or> hex_char (hd s) = None"

lemma hex_field_text:
  assumes "n < 65536" "no_hex s"
  shows "hex_field (hex_text n @ s) = Some (n, s)"
proof -
  have "takeWhile (\<lambda>c. hex_char c \<noteq> None) s = []"
    using assms(2) by (cases s) (auto simp: no_hex_def)
  then have "takeWhile (\<lambda>c. hex_char c \<noteq> None) (hex_text n @ s) = hex_text n"
    using hex_text_chars [of n] by (simp add: takeWhile_append2 list_all_iff)
  moreover have "length (hex_text n) \<le> 4" using hex_text_length [of n 3] assms(1) by simp
  ultimately show ?thesis by (simp add: hex_field_def Let_def hex_text_value)
qed

definition group_bytes :: "nat \<Rightarrow> ip" where
  "group_bytes v = [word_of_nat (v div 256), word_of_nat v]"

definition groups_text :: "nat list \<Rightarrow> string" where
  "groups_text gs = join (map hex_text gs) '':''"

lemma separators: "hex_char CHR '':'' = None" "hex_char CHR ''.'' = None" "hex_char CHR ''%'' = None" "hex_char CHR ''['' = None"
  "hex_char CHR '']'' = None"
  by (simp_all add: hex_char_def is_digit_def less_eq_char_def)

lemma hex_text_hd: "hex_text n @ s = c # t \<Longrightarrow> hex_char c \<noteq> None"
  using hex_text_chars [of n] by (cases "hex_text n") auto

lemma groups_text_Cons:
  "groups_text (g # gs) = hex_text g @ (if gs = [] then '''' else CHR '':'' # groups_text gs)"
  by (cases gs) (simp_all add: groups_text_def)

lemma groups_text_hd: "gs \<noteq> [] \<Longrightarrow> groups_text gs @ s = c # t \<Longrightarrow> hex_char c \<noteq> None"
  by (cases gs) (auto simp: groups_text_Cons dest: hex_text_hd)

lemma groups_text_nonempty: "gs \<noteq> [] \<Longrightarrow> groups_text gs \<noteq> []"
  by (cases gs) (simp_all add: groups_text_Cons)

lemma groups_text_colon: "gs \<noteq> [] \<Longrightarrow> \<not> has_prefix (groups_text gs @ s) '':''"
  using groups_text_hd [of gs s] separators(1) by (cases "groups_text gs @ s") (auto simp: has_prefix_def)

lemma ipv6_groups_text:
  assumes "gs \<noteq> []" "length gs \<le> n" "list_all (\<lambda>g. g < 65536) gs"
  shows "ipv6_groups n (groups_text gs) a e = Some ('''', a @ concat (map group_bytes gs), e)"
  using assms
proof (induction gs arbitrary: n a)
  case (Cons g gs)
  then obtain m where n: "n = Suc m" "length gs \<le> m" by (cases n) auto
  show ?case
  proof (cases "gs = []")
    case True
    then show ?thesis
      using hex_field_text [of g "''''"] Cons.prems by (simp add: n groups_text_Cons no_hex_def group_bytes_def has_prefix_def)
  next
    case False
    have "hex_field (groups_text (g # gs)) = Some (g, CHR '':'' # groups_text gs)"
      using hex_field_text [of g "CHR '':'' # groups_text gs"] Cons.prems False separators(1)
      by (simp add: groups_text_Cons no_hex_def)
    then show ?thesis
      using Cons.IH [OF False n(2)] Cons.prems(3) groups_text_nonempty [OF False] groups_text_colon [OF False, of "''''"]
      by (simp add: n group_bytes_def)
  qed
qed simp

lemma ipv6_groups_ellipsis:
  assumes "gs \<noteq> []" "length gs + length hs < n" "list_all (\<lambda>g. g < 65536) gs" "list_all (\<lambda>g. g < 65536) hs"
  shows "ipv6_groups n (groups_text gs @ ''::'' @ groups_text hs) a None
    = Some ('''', a @ concat (map group_bytes (gs @ hs)), Some (length a + 2 * length gs))"
  using assms
proof (induction gs arbitrary: n a)
  case (Cons g gs)
  then obtain m where n: "n = Suc m" "length gs + length hs < m" by (cases n) auto
  show ?case
  proof (cases "gs = []")
    case True
    have f: "hex_field (hex_text g @ ''::'' @ groups_text hs) = Some (g, ''::'' @ groups_text hs)"
      using hex_field_text [of g "''::'' @ groups_text hs"] Cons.prems separators(1) by (simp add: no_hex_def)
    show ?thesis
    proof (cases "hs = []")
      case True
      with \<open>gs = []\<close> f show ?thesis by (simp add: n groups_text_Cons groups_text_def group_bytes_def)
    next
      case hs: False
      from ipv6_groups_text [OF hs, of m] n Cons.prems(4) True f groups_text_nonempty [OF hs] show ?thesis
        by (simp add: groups_text_Cons group_bytes_def [of g])
    qed
  next
    case False
    have "hex_field (groups_text (g # gs) @ ''::'' @ groups_text hs) = Some (g, CHR '':'' # groups_text gs @ ''::'' @ groups_text hs)"
      using hex_field_text [of g "CHR '':'' # groups_text gs @ ''::'' @ groups_text hs"] Cons.prems False separators(1)
      by (simp add: groups_text_Cons no_hex_def)
    then show ?thesis
      using Cons.IH [OF False n(2)] Cons.prems(3,4) groups_text_nonempty [OF False]
        groups_text_colon [OF False, of "''::'' @ groups_text hs"]
      by (simp add: n group_bytes_def)
  qed
qed simp

section \<open>Reading back the text of an address\<close>

lemma pairs_bytes: "even (length a) \<Longrightarrow> concat (map group_bytes (pairs a)) = a"
proof (induction a rule: pairs.induct)
  case (1 h l a)
  have u: "unat l < 256" using unsigned_less [of l, where 'a = nat] by simp
  have "(unat h * 256 + unat l) div 256 = unat h" using u by simp
  moreover have "(word_of_nat (unat h * 256 + unat l) :: 8 word) = l"
    by (rule word_unat_eq_iff [THEN iffD2]) (use u in \<open>simp add: unat_of_nat take_bit_eq_mod del: of_nat_add\<close>)
  ultimately show ?case using 1 by (simp add: group_bytes_def)
qed simp_all

lemma pairs_length: "length (pairs a) = length a div 2"
  by (induction a rule: pairs.induct) simp_all

lemma pairs_small: "list_all (\<lambda>g. g < 65536) (pairs a)"
proof (induction a rule: pairs.induct)
  case (1 h l a)
  have "unat h < 256" "unat l < 256" using unsigned_less [of h, where 'a = nat] unsigned_less [of l, where 'a = nat] by simp_all
  with 1 show ?case by simp
qed simp_all

lemma zero_run_zeros: "take (zero_run gs) gs = replicate (zero_run gs) 0"
  unfolding zero_run_def by (induction gs) auto

lemma zero_run_length: "zero_run gs \<le> length gs"
  unfolding zero_run_def by (rule length_takeWhile_le)

lemma longest_zeros_run:
  assumes "longest_zeros gs = (start, len)"
  shows "len = 0 \<or> len \<ge> 2 \<and> start + len \<le> length gs \<and> take len (drop start gs) = replicate len 0"
proof -
  let ?ok = "\<lambda>(start, len). len = 0 \<or> len \<ge> 2 \<and> start + len \<le> length gs \<and> take len (drop start gs) = replicate len 0"
  let ?step = "\<lambda>(start, len) i. let l = zero_run (drop i gs) in if l \<ge> 2 \<and> l > len then (i, l) else (start, len)"
  have "?ok (foldl ?step (0, 0) [0..<length gs])"
  proof (rule foldl_invariant [of ?ok])
    fix p i assume "?ok p" "i \<in> set [0..<length gs]"
    then show "?ok (?step p i)"
      using zero_run_zeros [of "drop i gs"] zero_run_length [of "drop i gs"] by (auto simp: Let_def split: prod.splits)
  qed simp
  with assms show ?thesis by (simp add: longest_zeros_def)
qed

lemma bytes_length: "length (concat (map group_bytes gs)) = 2 * length gs"
  by (induction gs) (simp_all add: group_bytes_def)

lemma zero_bytes: "concat (replicate n (group_bytes 0)) = replicate (2 * n) 0"
  by (induction n) (simp_all add: group_bytes_def)

lemma parse_full:
  assumes "length gs = 8" "list_all (\<lambda>g. g < 65536) gs"
  shows "parseIPv6 (groups_text gs) = Some (concat (map group_bytes gs))"
proof -
  have ne: "gs \<noteq> []" using assms(1) by auto
  have "\<not> has_prefix (groups_text gs) '':''" using groups_text_colon [OF ne, of "''''"] by simp
  then have "groups_text gs \<noteq> ''::''" "\<not> has_prefix (groups_text gs) ''::''" by (auto simp: has_prefix_iff)
  then show ?thesis using ipv6_groups_text [OF ne _ assms(2), of 8] assms(1) by (simp add: parseIPv6_def bytes_length)
qed

lemma parse_short:
  assumes "length gs + n + length hs = 8" "n \<ge> 2" "list_all (\<lambda>g. g < 65536) gs" "list_all (\<lambda>g. g < 65536) hs"
  shows "parseIPv6 (groups_text gs @ ''::'' @ groups_text hs) = Some (concat (map group_bytes (gs @ replicate n 0 @ hs)))"
proof (cases "gs = []")
  case True
  show ?thesis
  proof (cases "hs = []")
    case hs: True
    with True assms(1) have "n = 8" by simp
    moreover have "parseIPv6 ''::'' = Some (replicate 16 0)" by (simp add: parseIPv6_def)
    ultimately show ?thesis using True hs zero_bytes [of 8] by (simp add: groups_text_def)
  next
    case False
    then have "''::'' @ groups_text hs \<noteq> ''::''" using groups_text_nonempty by simp
    moreover have "16 - 2 * length hs = 2 * n" "length hs < 8" using assms(1,2) True by auto
    ultimately show ?thesis
      using ipv6_groups_text [OF False _ assms(4), of 8 "[]" "Some 0"] True
      by (simp add: parseIPv6_def bytes_length zero_bytes groups_text_def [of "[]"])
  qed
next
  case False
  have "\<not> has_prefix (groups_text gs @ ''::'' @ groups_text hs) '':''" by (rule groups_text_colon [OF False])
  then have np: "groups_text gs @ ''::'' @ groups_text hs \<noteq> ''::''" "\<not> has_prefix (groups_text gs @ ''::'' @ groups_text hs) ''::''"
    by (auto simp: has_prefix_iff)
  have len: "16 - (2 * length gs + 2 * length hs) = 2 * n" "2 * length gs + 2 * length hs < 16" using assms(1,2) by auto
  have "length gs + length hs < 8" using assms(1,2) by simp
  from ipv6_groups_ellipsis [OF False this assms(3,4), of "[]"] np len show ?thesis
    by (simp add: parseIPv6_def bytes_length zero_bytes)
qed

lemma text_chars:
  assumes "c \<in> set (groups_text gs)"
  shows "hex_char c \<noteq> None \<or> c = CHR '':''"
  using assms
proof (induction gs)
  case (Cons g gs)
  then show ?case using hex_text_chars [of g] by (auto simp: groups_text_Cons list_all_iff split: if_splits)
qed (simp add: groups_text_def)

lemma parse_separated:
  assumes "\<forall>c\<in>set s. hex_char c \<noteq> None \<or> c = CHR '':''" "CHR '':'' \<in> set s"
  shows "ParseIP s = parseIPv6 s"
proof -
  let ?sep = "\<lambda>c. c \<in> {CHR ''.'', CHR '':'', CHR ''%''}"
  have chars: "\<forall>c\<in>set s. ?sep c \<longrightarrow> c = CHR '':''" using assms(1) separators by auto
  then have "find ?sep s = Some CHR '':''"
    using assms(2) by (induction s) auto
  moreover have "CHR ''%'' \<notin> set s" using assms(1) separators(3) by auto
  ultimately show ?thesis by (simp add: ParseIP_def)
qed

lemma ip_string_v6:
  assumes "To4 a = None" "length a = 16"
  shows "parseIPv6 (ip_string a) = Some a"
    and "CHR '':'' \<in> set (ip_string a)" "\<forall>c\<in>set (ip_string a). hex_char c \<noteq> None \<or> c = CHR '':''"
proof -
  let ?gs = "pairs a"
  have gs: "length ?gs = 8" "list_all (\<lambda>g. g < 65536) ?gs" "concat (map group_bytes ?gs) = a"
    using pairs_length [of a] pairs_small pairs_bytes [of a] assms(2) by simp_all
  obtain start len where z: "longest_zeros ?gs = (start, len)" by force
  let ?A = "take start ?gs" and ?B = "drop (start + len) ?gs"
  have str: "ip_string a = (if len = 0 then groups_text ?gs else groups_text ?A @ ''::'' @ groups_text ?B)"
    by (simp add: ip_string_def assms(1) z groups_text_def Let_def)
  show "\<forall>c\<in>set (ip_string a). hex_char c \<noteq> None \<or> c = CHR '':''"
    using text_chars by (auto simp: str)
  have "CHR '':'' \<in> set (groups_text gs)" if "length gs > 1" for gs
    using that by (cases gs; cases "tl gs") (auto simp: groups_text_Cons)
  with gs(1) show "CHR '':'' \<in> set (ip_string a)" by (simp add: str)
  show "parseIPv6 (ip_string a) = Some a"
  proof (cases "len = 0")
    case True
    with parse_full [OF gs(1,2)] gs(3) show ?thesis by (simp add: str)
  next
    case False
    with longest_zeros_run [OF z] gs(1) have r: "len \<ge> 2" "start + len \<le> 8" "take len (drop start ?gs) = replicate len 0" by auto
    have split: "?A @ replicate len 0 @ ?B = ?gs"
      by (metis r(3) append_take_drop_id drop_drop add.commute)
    have "list_all (\<lambda>g. g < 65536) ?A" "list_all (\<lambda>g. g < 65536) ?B"
      using gs(2) by (auto simp: list_all_iff dest: in_set_takeD in_set_dropD)
    with parse_short [of ?A len ?B] r gs(1) have "parseIPv6 (groups_text ?A @ ''::'' @ groups_text ?B) = Some (concat (map group_bytes ?gs))"
      unfolding split by simp
    with False gs(3) show ?thesis by (simp add: str)
  qed
qed

lemma dotted_chars: "c \<in> set (dotted v) \<Longrightarrow> is_digit c \<or> c = CHR ''.''"
proof -
  assume c: "c \<in> set (dotted v)"
  have "c \<in> set (join ws ''.'') \<Longrightarrow> (\<exists>w\<in>set ws. c \<in> set w) \<or> c = CHR ''.''" for ws
    by (induction ws "''.''" rule: join.induct) auto
  from this [of "map (\<lambda>b. fmt_nat (unat b)) v"] c have "(\<exists>b\<in>set v. c \<in> set (fmt_nat (unat b))) \<or> c = CHR ''.''"
    by (simp add: dotted_def)
  then show ?thesis using fmt_digits by (auto simp: list_all_iff)
qed

lemma ParseIP_string:
  assumes "length a = 16"
  shows "ParseIP (ip_string a) = Some a"
proof (cases "To4 a")
  case None
  show ?thesis
    using parse_separated [OF ip_string_v6(3,2) [OF None assms]] ip_string_v6(1) [OF None assms] by simp
next
  case (Some v)
  then have v: "a = v4_prefix @ v" "length v = 4" using assms by (auto simp: To4_def split: if_splits) (metis append_take_drop_id)
  then obtain w x y z where w: "v = [w, x, y, z]" by (auto simp: length_Suc_conv numeral_eq_Suc)
  have "find (\<lambda>c. c \<in> {CHR ''.'', CHR '':'', CHR ''%''}) (dotted v) = Some CHR ''.''"
  proof -
    have "find (\<lambda>c. c \<in> {CHR ''.'', CHR '':'', CHR ''%''}) s = Some CHR ''.''"
      if "\<forall>c\<in>set s. is_digit c \<or> c = CHR ''.''" "CHR ''.'' \<in> set s" for s
      using that by (induction s) (auto simp: is_digit_def less_eq_char_def)
    moreover have "CHR ''.'' \<in> set (dotted v)" by (simp add: dotted_def w)
    ultimately show ?thesis using dotted_chars by blast
  qed
  then show ?thesis using ipv4_fields_dotted [of w x y z] Some v(1) by (simp add: ParseIP_def ip_string_def w)
qed

section \<open>What is refused\<close>

definition JoinHostPort :: "string \<Rightarrow> string \<Rightarrow> string" where
  \<comment> \<open>the text of the address a connection goes to, as package \<^verbatim>\<open>net\<close> passes it to \<^verbatim>\<open>Control\<close>\<close>
  "JoinHostPort host port = (if CHR '':'' \<in> set host then ''['' @ host @ '']:'' @ port else host @ '':'' @ port)"

definition plain_port :: "string \<Rightarrow> bool" where
  "plain_port port \<longleftrightarrow> list_all is_digit port"

lemma plain_port_chars: "plain_port port \<Longrightarrow> CHR '':'' \<notin> set port \<and> CHR ''['' \<notin> set port \<and> CHR '']'' \<notin> set port"
  by (auto simp: plain_port_def list_all_iff is_digit_def less_eq_char_def)

lemma split_join:
  assumes "plain_port port" "CHR ''['' \<notin> set host" "CHR '']'' \<notin> set host"
  shows "SplitHostPort (JoinHostPort host port) = Inr (host, port)"
proof (cases "CHR '':'' \<in> set host")
  case True
  let ?s = "''['' @ host @ '']:'' @ port"
  have last: "last_segment ?s CHR '':'' = Some port"
    using last_segment_append [of "CHR '':''" port "''['' @ host @ '']''"] plain_port_chars [OF assms(1)] by simp
  have tw: "takeWhile (\<lambda>c. c \<noteq> CHR '']'') ?s = ''['' @ host"
    using assms(3) by (auto simp: takeWhile_append)
  show ?thesis
    unfolding JoinHostPort_def SplitHostPort_def using True last tw assms(2,3) plain_port_chars [OF assms(1)]
    by (simp add: Let_def)
next
  case False
  have last: "last_segment (host @ '':'' @ port) CHR '':'' = Some port"
    using last_segment_append [of "CHR '':''" port host] plain_port_chars [OF assms(1)] by simp
  have nb: "\<not> has_prefix (host @ '':'' @ port) ''[''" using assms(2) by (cases host) (auto simp: has_prefix_def)
  show ?thesis
    unfolding JoinHostPort_def SplitHostPort_def using False last nb assms(2,3) plain_port_chars [OF assms(1)]
    by (simp add: Let_def)
qed

text \<open>The address blocks, each a prefix of a number of bits.\<close>

definition address_bits :: "ip \<Rightarrow> bool list" where
  "address_bits a = concat (map (\<lambda>b. map (bit b) [7, 6, 5, 4, 3, 2, 1, 0]) a)"

definition in_block :: "ip \<Rightarrow> ip \<times> nat \<Rightarrow> bool" where
  "in_block a blk \<longleftrightarrow> take (snd blk) (address_bits a) = take (snd blk) (address_bits (fst blk))"

definition refused_blocks :: "(ip \<times> nat) list" where
  \<comment> \<open>\<open>::\<close>, \<open>::1\<close>, \<open>fe80::/10\<close>, \<open>ff00::/8\<close>; \<open>0.0.0.0\<close>, \<open>127.0.0.0/8\<close>, \<open>169.254.0.0/16\<close>, \<open>224.0.0.0/4\<close>\<close>
  "refused_blocks = [(replicate 16 0, 128), (replicate 15 0 @ [1], 128), ([0xFE, 0x80] @ replicate 14 0, 10), ([0xFF] @ replicate 15 0, 8),
     (v4_prefix @ [0, 0, 0, 0], 128), (v4_prefix @ [127, 0, 0, 0], 104), (v4_prefix @ [169, 254, 0, 0], 112),
     (v4_prefix @ [224, 0, 0, 0], 100)]"

lemma byte_bits_eq: "map (bit (b :: 8 word)) [7, 6, 5, 4, 3, 2, 1, 0] = map (bit c) [7, 6, 5, 4, 3, 2, 1, 0] \<longleftrightarrow> b = c"
proof
  assume eq: "map (bit b) [7, 6, 5, 4, 3, 2, 1, 0] = map (bit c) [7, 6, 5, 4, 3, 2, 1, 0]"
  show "b = c"
  proof (rule bit_word_eqI)
    fix n assume "n < LENGTH(8)"
    then consider "n = 0" | "n = 1" | "n = 2" | "n = 3" | "n = 4" | "n = 5" | "n = 6" | "n = 7" by fastforce
    then show "bit b n = bit c n" using eq by cases simp_all
  qed
qed simp

lemma address_bits_Cons: "address_bits (b # a) = map (bit b) [7, 6, 5, 4, 3, 2, 1, 0] @ address_bits a"
  by (simp add: address_bits_def)

lemma take_bytes:
  "k \<le> length a \<Longrightarrow> k \<le> length p \<Longrightarrow> take (8 * k + r) (address_bits a) = take (8 * k + r) (address_bits p)
     \<longleftrightarrow> take k a = take k p \<and> take r (address_bits (drop k a)) = take r (address_bits (drop k p))"
proof (induction k arbitrary: a p)
  case (Suc k)
  then obtain b a' c p' where [simp]: "a = b # a'" "p = c # p'" by (metis Suc_le_length_iff)
  have "take (8 * Suc k + r) (address_bits (x # xs)) = map (bit x) [7, 6, 5, 4, 3, 2, 1, 0] @ take (8 * k + r) (address_bits xs)"
    (is "_ = ?m @ _") for x xs
  proof -
    have "take (8 * Suc k + r) ?m = ?m" by (rule take_all) simp
    moreover have "8 * Suc k + r - length ?m = 8 * k + r" by simp
    ultimately show ?thesis unfolding address_bits_Cons take_append by (simp only:)
  qed
  then have "take (8 * Suc k + r) (address_bits a) = take (8 * Suc k + r) (address_bits p)
    \<longleftrightarrow> b = c \<and> take (8 * k + r) (address_bits a') = take (8 * k + r) (address_bits p')"
    using byte_bits_eq [of b c] by (simp only: \<open>a = b # a'\<close> \<open>p = c # p'\<close>, simp, blast)
  with Suc show ?case by simp
qed simp

lemma top_bits:
  fixes b :: "8 word"
  shows "b AND 0xC0 = 0x80 \<longleftrightarrow> bit b 7 \<and> \<not> bit b 6"
    and "b AND 0xF0 = 0xE0 \<longleftrightarrow> bit b 7 \<and> bit b 6 \<and> bit b 5 \<and> \<not> bit b 4"
proof -
  have all: "list_all (\<lambda>n. ((word_of_nat n :: 8 word) AND 0xC0 = 0x80 \<longleftrightarrow> bit (word_of_nat n :: 8 word) 7 \<and> \<not> bit (word_of_nat n :: 8 word) 6)
    \<and> ((word_of_nat n :: 8 word) AND 0xF0 = 0xE0 \<longleftrightarrow> bit (word_of_nat n :: 8 word) 7 \<and> bit (word_of_nat n :: 8 word) 6
        \<and> bit (word_of_nat n :: 8 word) 5 \<and> \<not> bit (word_of_nat n :: 8 word) 4)) [0..<256]"
    by code_simp
  obtain n where "b = word_of_nat n" "n \<in> set [0..<256]"
  proof
    show "b = word_of_nat (unat b)" by simp
    show "unat b \<in> set [0..<256]" using unsigned_less [of b, where 'a = nat] by simp
  qed
  with all show "b AND 0xC0 = 0x80 \<longleftrightarrow> bit b 7 \<and> \<not> bit b 6"
    "b AND 0xF0 = 0xE0 \<longleftrightarrow> bit b 7 \<and> bit b 6 \<and> bit b 5 \<and> \<not> bit b 4"
    unfolding list_all_iff by blast+
qed

lemma in_blocks:
  assumes "length a = 16"
  shows "list_ex (in_block a) refused_blocks
    \<longleftrightarrow> IsLoopback a \<or> IsLinkLocalUnicast a \<or> IsLinkLocalMulticast a \<or> IsUnspecified a \<or> IsMulticast a"
proof -
  obtain b0 b1 b2 b3 b4 b5 b6 b7 b8 b9 b10 b11 b12 b13 b14 b15
    where a: "a = [b0, b1, b2, b3, b4, b5, b6, b7, b8, b9, b10, b11, b12, b13, b14, b15]"
    using assms by (auto simp: length_Suc_conv numeral_eq_Suc)
  have whole: "in_block a (p, 8 * k) \<longleftrightarrow> take k a = take k p" if "length p = 16" "k \<le> 16" for p k
    using take_bytes [of k a p 0] that assms by (simp add: in_block_def)
  have part: "in_block a (p, 8 * k + r) \<longleftrightarrow> take k a = take k p \<and> take r (address_bits (drop k a)) = take r (address_bits (drop k p))"
    if "length p = 16" "k \<le> 16" for p k r
    using take_bytes [of k a p r] that assms by (simp add: in_block_def)
  have blocks: "in_block a (replicate 16 0, 128) \<longleftrightarrow> a = replicate 16 0"
    "in_block a (replicate 15 0 @ [1], 128) \<longleftrightarrow> a = replicate 15 0 @ [1]"
    "in_block a ([0xFF] @ replicate 15 0, 8) \<longleftrightarrow> b0 = 0xFF"
    "in_block a (v4_prefix @ [0, 0, 0, 0], 128) \<longleftrightarrow> a = v4_prefix @ [0, 0, 0, 0]"
    "in_block a (v4_prefix @ [127, 0, 0, 0], 104) \<longleftrightarrow> take 12 a = v4_prefix \<and> b12 = 127"
    "in_block a (v4_prefix @ [169, 254, 0, 0], 112) \<longleftrightarrow> take 12 a = v4_prefix \<and> b12 = 169 \<and> b13 = 254"
    "in_block a ([0xFE, 0x80] @ replicate 14 0, 10) \<longleftrightarrow> b0 = 0xFE \<and> bit b1 7 \<and> \<not> bit b1 6"
    "in_block a (v4_prefix @ [224, 0, 0, 0], 100) \<longleftrightarrow> take 12 a = v4_prefix \<and> bit b12 7 \<and> bit b12 6 \<and> bit b12 5 \<and> \<not> bit b12 4"
    using whole [of "replicate 16 0" 16] whole [of "replicate 15 0 @ [1]" 16] whole [of "[0xFF] @ replicate 15 0" 1]
      whole [of "v4_prefix @ [0, 0, 0, 0]" 16] whole [of "v4_prefix @ [127, 0, 0, 0]" 13] whole [of "v4_prefix @ [169, 254, 0, 0]" 14]
      part [of "[0xFE, 0x80] @ replicate 14 0" 1 2] part [of "v4_prefix @ [224, 0, 0, 0]" 12 4]
    by (simp_all add: a v4_prefix_def address_bits_def numeral_eq_Suc)
  have ex: "list_ex (in_block a) refused_blocks \<longleftrightarrow> a = replicate 16 0 \<or> a = replicate 15 0 @ [1]
      \<or> b0 = 0xFE \<and> bit b1 7 \<and> \<not> bit b1 6 \<or> b0 = 0xFF \<or> a = v4_prefix @ [0, 0, 0, 0]
      \<or> take 12 a = v4_prefix \<and> (b12 = 127 \<or> b12 = 169 \<and> b13 = 254 \<or> bit b12 7 \<and> bit b12 6 \<and> bit b12 5 \<and> \<not> bit b12 4)"
    unfolding refused_blocks_def by (simp only: list_ex_Cons_iff list_ex_Nil_iff blocks) blast
  show ?thesis
  proof (cases "take 12 a = v4_prefix")
    case True
    then have t: "To4 a = Some [b12, b13, b14, b15]" and b0: "b0 = 0" and pre: "a = v4_prefix @ [b12, b13, b14, b15]"
      by (simp_all add: To4_def a v4_prefix_def numeral_eq_Suc)
    have "a ! 10 = 0xFF" "replicate 16 0 ! 10 = (0 :: 8 word)" "(replicate 15 0 @ [1]) ! 10 = (0 :: 8 word)"
      by (simp_all add: pre v4_prefix_def nth_append)
    moreover have "(0xFF :: 8 word) \<noteq> 0" by simp
    ultimately have "a \<noteq> replicate 16 0" "a \<noteq> replicate 15 0 @ [1]" by metis+
    then show ?thesis
      unfolding ex IsLoopback_def IsLinkLocalUnicast_def IsLinkLocalMulticast_def IsUnspecified_def IsMulticast_def t
      using True b0 top_bits(2) [of b12] by auto
  next
    case False
    then have t: "To4 a = None" by (simp add: To4_def)
    have "a \<noteq> v4_prefix @ [0, 0, 0, 0]" using False by (auto simp: v4_prefix_def)
    then show ?thesis
      unfolding ex IsLoopback_def IsLinkLocalUnicast_def IsLinkLocalMulticast_def IsUnspecified_def IsMulticast_def t
      using False top_bits(1) [of b1] by (auto simp: a)
  qed
qed

text \<open>C22: the dialer refuses exactly eight blocks of addresses. For every address, written as package \<^verbatim>\<open>net\<close>
  writes the address a connection goes to, with any port, \<^verbatim>\<open>refuseBlocked\<close> returns an error when the
  address lies in one of \<^verbatim>\<open>::/128\<close>, \<^verbatim>\<open>::1/128\<close>, \<^verbatim>\<open>fe80::/10\<close>, \<^verbatim>\<open>ff00::/8\<close>, \<^verbatim>\<open>0.0.0.0/32\<close>,
  \<^verbatim>\<open>127.0.0.0/8\<close>, \<^verbatim>\<open>169.254.0.0/16\<close> and \<^verbatim>\<open>224.0.0.0/4\<close> (also in the mapped form of IPv6), and
  lets every other one through: the text is parsed back to the address it was made from, abbreviations
  of zeros included.
\<close>

theorem dialer_refuses_blocks:
  assumes "length a = 16" "plain_port port"
  shows "refuseBlocked (JoinHostPort (ip_string a) port) \<noteq> None \<longleftrightarrow> list_ex (in_block a) refused_blocks"
proof -
  have "CHR ''['' \<notin> set (ip_string a) \<and> CHR '']'' \<notin> set (ip_string a)"
  proof (cases "To4 a")
    case None
    then show ?thesis using ip_string_v6(3) [OF None assms(1)] separators(4,5) by auto
  next
    case (Some v)
    have "\<not> is_digit CHR ''[''" "\<not> is_digit CHR '']''" by (simp_all add: is_digit_def less_eq_char_def)
    with Some dotted_chars [of "CHR ''[''" v] dotted_chars [of "CHR '']''" v] show ?thesis by (auto simp: ip_string_def)
  qed
  then have "SplitHostPort (JoinHostPort (ip_string a) port) = Inr (ip_string a, port)" using split_join [OF assms(2)] by blast
  then show ?thesis by (simp add: refuseBlocked_def ParseIP_string [OF assms(1)] in_blocks [OF assms(1)])
qed

definition demo_metadata :: ip where "demo_metadata = v4_prefix @ [169, 254, 169, 254]"

theorem dialer_refuses_blocks_witness:
  "refuseBlocked (JoinHostPort (ip_string demo_metadata) ''80'') \<noteq> None
     \<and> refuseBlocked (JoinHostPort (ip_string (v4_prefix @ [10, 0, 0, 5])) ''443'') = None"
proof -
  have "list_ex (in_block demo_metadata) refused_blocks" "\<not> list_ex (in_block (v4_prefix @ [10, 0, 0, 5])) refused_blocks"
    by code_simp+
  moreover have "length demo_metadata = 16" "plain_port ''80''" "plain_port ''443''" "length (v4_prefix @ [10, 0, 0, 5]) = 16"
    by code_simp+
  ultimately show ?thesis using dialer_refuses_blocks by blast
qed

end
