(* ===== verification/Runs.thy ===== *)
theory Runs
  imports Effects
begin

text \<open>
  Runs whose requests keep a condition as a whole, such as \<open>each ConfigMap stored was discovered
  before\<close>: \<open>grows m C R\<close> says it of every run of \<open>m\<close>. The locale \<open>composing\<close> is what such a condition
  has to keep; the theories that use it interpret it on theirs. Where \<open>emits\<close> looks at one request at a time,
  \<open>grows\<close> relates the requests of a run, and what it answers.
\<close>

definition grows :: "'a io \<Rightarrow> (trace \<Rightarrow> bool) \<Rightarrow> ('a \<Rightarrow> bool) \<Rightarrow> bool" where
  \<comment> \<open>every run appends requests with \<open>C\<close> and answers with \<open>R\<close>\<close>
  "grows m C R \<longleftrightarrow> (\<forall>t. wp m (\<lambda>x t'. \<exists>es. t' = t @ es \<and> C es \<and> R x) t)"

text \<open>A condition that holds of two histories one after the other when it holds of both.\<close>

locale composing =
  fixes C :: "trace \<Rightarrow> bool"
  assumes at_start: "C []"
    and append: "C a \<Longrightarrow> C b \<Longrightarrow> C (a @ b)"
begin

lemma grows_bind:
  assumes "grows m C R" "\<And>x. R x \<Longrightarrow> grows (f x) C R'"
  shows "grows (m \<bind> f) C R'"
  unfolding grows_def wp_bind
proof
  fix t
  have "wp (f x) (\<lambda>y t'. \<exists>es. t' = t @ es \<and> C es \<and> R' y) (t @ es)" if "C es" "R x" for x es
    using assms(2) [OF that(2), unfolded grows_def, rule_format, of "t @ es"]
    by (rule wp_mono) (use that(1) append in auto)
  then show "wp m (\<lambda>x. wp (f x) (\<lambda>y t'. \<exists>es. t' = t @ es \<and> C es \<and> R' y)) t"
    using assms(1) [unfolded grows_def, rule_format, of t] by (elim wp_mono) auto
qed

lemma grows_ret: "R x \<Longrightarrow> grows (ret x) C R"
  using at_start by (simp add: grows_def wp_ret)

lemma grows_now: "grows (now E) C (\<lambda>_. True)"
  using at_start by (simp add: grows_def wp_now)

end

lemma grows_emits: "emits m P \<Longrightarrow> (\<And>es. list_all P es \<Longrightarrow> C es) \<Longrightarrow> grows m C (\<lambda>_. True)"
  unfolding grows_def by (intro allI, rule wp_frame) auto

lemma grows_both:
  "emits m P \<Longrightarrow> (\<And>es. list_all P es \<Longrightarrow> C es) \<Longrightarrow> (\<And>t. wp m (\<lambda>x _. R x) t) \<Longrightarrow> grows m C R"
  unfolding grows_def by (intro allI, rule wp_both [where R = R]) auto

lemma grows_sum:
  "(\<And>e. r = Inl e \<Longrightarrow> grows (f e) C R) \<Longrightarrow> (\<And>x. r = Inr x \<Longrightarrow> grows (g x) C R) \<Longrightarrow>
   grows (case r of Inl e \<Rightarrow> f e | Inr x \<Rightarrow> g x) C R"
  by (simp split: sum.split)

lemma grows_option:
  "(r = None \<Longrightarrow> grows m C R) \<Longrightarrow> (\<And>x. r = Some x \<Longrightarrow> grows (g x) C R) \<Longrightarrow>
   grows (case r of None \<Rightarrow> m | Some x \<Rightarrow> g x) C R"
  by (simp split: option.split)

lemma grows_prod: "(\<And>a b. r = (a, b) \<Longrightarrow> grows (f a b) C R) \<Longrightarrow> grows (case r of (a, b) \<Rightarrow> f a b) C R"
  by (simp split: prod.split)

lemma grows_if: "(b \<Longrightarrow> grows m C R) \<Longrightarrow> (\<not> b \<Longrightarrow> grows n C R) \<Longrightarrow> grows (if b then m else n) C R"
  by simp

lemma grows_let: "grows (f v) C R \<Longrightarrow> grows (let x = v in f x) C R"
  by simp

lemmas grows_cases = grows_sum grows_option grows_prod grows_if grows_let

lemma grows_result: "grows m C (\<lambda>_. True) \<Longrightarrow> (\<And>t. wp m (\<lambda>x _. R x) t) \<Longrightarrow> grows m C R"
  unfolding grows_def by (intro allI wpI) (blast dest: wpD)

lemma grows_get:
  assumes "\<And>r. C [kd_event K (VGet key r)]"
  shows "grows (k_get E K key) C (\<lambda>r. \<exists>t. r = ka_get (kd_api K E) t key)"
  unfolding grows_def using assms by (auto simp: wp_k)

end
