(* ===== verification/ServiceCtrl.thy ===== *)
theory ServiceCtrl
  imports CICtrl Git
begin

text \<open>
  The Service reconciler: \<^verbatim>\<open>internal/controller/service_controller.go\<close>,
  \<^verbatim>\<open>service_discovery.go\<close>, \<^verbatim>\<open>service_pipeline.go\<close>, \<^verbatim>\<open>service_plugins.go\<close>,
  \<^verbatim>\<open>service_status.go\<close> and \<^verbatim>\<open>service_sync.go\<close>. It resolves the tracked revision,
  runs discovery, stores the Dockerfile in a ConfigMap, points the Service's CI at the revision,
  copies the Service's fields to its CD and derives its phase from both. Where the code changes
  \<^verbatim>\<open>svc.Status\<close> in place, the definitions return the changed Service.
\<close>

record service_reconciler =
  sr_default_registry :: string
  sr_policy :: secret_policy

section \<open>service\_status.go\<close>

definition setPhase :: "klib \<Rightarrow> time \<Rightarrow> service \<Rightarrow> service_phase \<Rightarrow> string \<Rightarrow> service" where
  "setPhase L t svc phase message =
     (let svc = svc\<lparr>sv_status_of := (sv_status_of svc)\<lparr>svst_phase := phase, svst_message := message\<rparr>\<rparr>
      in if phase \<noteq> ServicePhaseReady then
        svc\<lparr>sv_status_of := (sv_status_of svc)\<lparr>svst_conditions := lib_set_condition L t
          (new_condition ''Ready'' ConditionUnknown (service_phase_string phase) message)
          (svst_conditions (sv_status_of svc))\<rparr>\<rparr>
      else svc)"

definition markFailed :: "klib \<Rightarrow> time \<Rightarrow> service \<Rightarrow> string \<Rightarrow> string \<Rightarrow> service" where
  "markFailed L t svc reason msg = svc\<lparr>sv_status_of := (sv_status_of svc)\<lparr>
     svst_phase := ServicePhaseFailed, svst_error := msg, svst_message := msg,
     svst_observed_generation := m_generation (sv_meta svc),
     svst_conditions := lib_set_condition L t (new_condition ''Ready'' ConditionFalse reason msg)
       (lib_remove_condition L ''Ready'' (svst_conditions (sv_status_of svc)))\<rparr>\<rparr>"

definition validateSource :: "klib \<Rightarrow> service \<Rightarrow> gerror option" where
  "validateSource L svc =
     (case validate_git_url L (src_repo (svs_source (sv_spec_of svc))) of
        Some err \<Rightarrow> Some err
      | None \<Rightarrow> (case validate_revision (src_revision (svs_source (sv_spec_of svc))) of
          Some err \<Rightarrow> Some err
        | None \<Rightarrow> (case svs_build (sv_spec_of svc) of
            None \<Rightarrow> None
          | Some b \<Rightarrow> (case validate_rel_path ''spec.build.contextDir'' (bs_context_dir b) of
              Some err \<Rightarrow> Some err
            | None \<Rightarrow> validate_rel_path ''spec.build.dockerfilePath'' (bs_dockerfile_path b)))))"

definition retryWait :: "klib \<Rightarrow> time \<Rightarrow> service \<Rightarrow> time" where
  "retryWait L t svc = (case lib_find_condition L ''Ready'' (svst_conditions (sv_status_of svc)) of
       None \<Rightarrow> 0 | Some c \<Rightarrow> c_transition c + failedRetryInterval - t)"

definition gitToken :: "env \<Rightarrow> service_reconciler \<Rightarrow> service \<Rightarrow> (gerror + string) io" where
  "gitToken E R svc = (case src_secret_ref (svs_source (sv_spec_of svc)) of
       None \<Rightarrow> ret (Inr '''')
     | Some ref \<Rightarrow> do {
         r \<leftarrow> get_secret (sr_policy R) (k_get E secrets) (m_namespace (sv_meta svc)) (sk_name ref);
         ret (case r of
             Inl err \<Rightarrow> Inl (wrapf ''git token: '' err)
           | Inr s \<Rightarrow>
               let key = (if sk_key ref = '''' then ''token'' else sk_key ref) in
               (case sec_data s key of
                  None \<Rightarrow> Inl (errorf (''secret '' @ fmt_q (sk_name ref) @ '' has no key '' @ fmt_q key))
                | Some token \<Rightarrow> Inr token))
       })"

definition svc_patch :: "env \<Rightarrow> service \<Rightarrow> service \<Rightarrow> gerror option io" where
  "svc_patch E orig svc = do { r \<leftarrow> k_patch_status E services True orig svc; ret (err_of r) }"

definition svc_finish :: "env \<Rightarrow> service \<Rightarrow> service \<Rightarrow> ctrl_result \<Rightarrow> outcome io" where
  \<comment> \<open>\<^verbatim>\<open>return res, r.patchStatus(ctx, orig, &svc)\<close>\<close>
  "svc_finish E orig svc res = do { err \<leftarrow> svc_patch E orig svc; ret (res, err) }"

section \<open>service\_plugins.go\<close>

fun join_with :: "string \<Rightarrow> string list \<Rightarrow> string" where
  \<comment> \<open>\<^verbatim>\<open>strings.Join\<close> for a separator of any length\<close>
  "join_with sep [] = ''''"
| "join_with sep [s] = s"
| "join_with sep (s # ss) = s @ sep @ join_with sep ss"

fun first_invalid :: "ciplugin list \<Rightarrow> gerror option" where
  "first_invalid [] = None"
| "first_invalid (p # ps) = (case Validate p of
      Some err \<Rightarrow> Some (wrapf (''CIPlugin '' @ m_name (pl_meta p) @ '' is invalid: '') err)
    | None \<Rightarrow> first_invalid ps)"

definition select_plugins :: "klib \<Rightarrow> service \<Rightarrow> ciplugin list \<Rightarrow> gerror + ciplugin_ref list" where
  \<comment> \<open>\<^verbatim>\<open>resolvePlugins\<close> on the list it read\<close>
  "select_plugins L svc items =
     (case Resolve L id svc items of (attached, missing) \<Rightarrow>
        if missing \<noteq> [] then Inl (errorf (''CIPlugin '' @ join_with '', '' missing @ '' not found in namespace ''
          @ m_namespace (sv_meta svc)))
        else (case first_invalid attached of Some err \<Rightarrow> Inl err | None \<Rightarrow> Inr (Refs attached)))"

definition resolvePlugins :: "env \<Rightarrow> klib \<Rightarrow> service \<Rightarrow> (gerror + ciplugin_ref list) io" where
  "resolvePlugins E L svc = do {
     r \<leftarrow> k_list E ciplugins (m_namespace (sv_meta svc)) ListAll;
     ret (case r of Inl err \<Rightarrow> Inl err | Inr items \<Rightarrow> select_plugins L svc items)
   }"

definition servicesForPlugin :: "env \<Rightarrow> obj_meta \<Rightarrow> nsname list io" where
  "servicesForPlugin E m = do {
     r \<leftarrow> k_list E services (m_namespace m) ListAll;
     ret (case r of Inl err \<Rightarrow> [] | Inr svcs \<Rightarrow> map (\<lambda>s. meta_key (sv_meta s)) svcs)
   }"

section \<open>service\_discovery.go\<close>

definition dockerfileKey :: string where "dockerfileKey = ''Dockerfile''"
definition dockerignoreKey :: string where "dockerignoreKey = ''.dockerignore''"

definition dr_language :: "discovery_result \<Rightarrow> string" where
  \<comment> \<open>\<^verbatim>\<open>Result.Language\<close>\<close>
  "dr_language res = (case dr_facts res of None \<Rightarrow> ''dockerfile'' | Some f \<Rightarrow> f_language f)"

definition discoveryRequest :: "service \<Rightarrow> revision \<Rightarrow> string \<Rightarrow> discovery_request" where
  "discoveryRequest svc rv token =
     (let req = \<lparr>dq_repo = src_repo (svs_source (sv_spec_of svc)), dq_rev = rv, dq_token = token,
            dq_context_dir = '''', dq_dockerfile_path = '''', dq_language = '''', dq_port = servicePort svc\<rparr>
      in case svs_build (sv_spec_of svc) of None \<Rightarrow> req
         | Some b \<Rightarrow> req\<lparr>dq_context_dir := bs_context_dir b, dq_dockerfile_path := bs_dockerfile_path b,
             dq_language := bs_language b\<rparr>)"

definition recordDiscovery :: "klib \<Rightarrow> time \<Rightarrow> service \<Rightarrow> discovery_result \<Rightarrow> service" where
  "recordDiscovery L t svc res =
     (let (reason, message) = (if dr_source res = ''template''
            then (''Template'', ''Dockerfile generated for '' @ dr_language res)
            else (''Repository'', ''Dockerfile taken from the repository''))
      in svc\<lparr>sv_status_of := (sv_status_of svc)\<lparr>
        svst_service_type := dr_language res,
        svst_dockerfile_source := dr_source res,
        svst_detected := map_option (\<lambda>f. \<lparr>ds_language = f_language f, ds_version = f_version f,
          ds_package_manager = f_package_manager f, ds_framework = f_framework f,
          ds_entrypoint = f_entrypoint f\<rparr>) (dr_facts res),
        svst_conditions := lib_set_condition L t (new_condition ''DockerfileGenerated'' ConditionTrue reason message)
          (svst_conditions (sv_status_of svc))\<rparr>\<rparr>)"

definition service_owner :: "service \<Rightarrow> owner_ref" where
  "service_owner svc = \<lparr>or_kind = ''Service'', or_name = m_name (sv_meta svc), or_uid = m_uid (sv_meta svc)\<rparr>"

definition dockerfile_name :: "klib \<Rightarrow> service \<Rightarrow> string \<Rightarrow> string \<Rightarrow> string" where
  "dockerfile_name L svc dockerfile ignore = m_name (sv_meta svc) @ ''-dockerfile-''
     @ fmt_x (take 4 (lib_sha256 L (dockerfile @ [CHR 0x00] @ ignore)))"

definition dockerfile_object :: "klib \<Rightarrow> service \<Rightarrow> string \<Rightarrow> string \<Rightarrow> config_map \<Rightarrow> gerror + config_map" where
  \<comment> \<open>the mutate function of \<^verbatim>\<open>ensureDockerfile\<close>\<close>
  "dockerfile_object L svc dockerfile ignore c =
     (let c = c\<lparr>cm_meta := (cm_meta c)\<lparr>m_labels := (m_labels (cm_meta c))(labelService \<mapsto> m_name (sv_meta svc))\<rparr>,
            cm_data := (if ignore \<noteq> '''' then [dockerfileKey \<mapsto> dockerfile, dockerignoreKey \<mapsto> ignore]
                        else [dockerfileKey \<mapsto> dockerfile])\<rparr>
      in (case lib_set_controller L (service_owner svc) (cm_meta c) of
            Inl err \<Rightarrow> Inl err | Inr m \<Rightarrow> Inr (c\<lparr>cm_meta := m\<rparr>)))"

definition old_dockerfile :: "klib \<Rightarrow> service \<Rightarrow> string \<Rightarrow> config_map \<Rightarrow> bool" where
  \<comment> \<open>\<^verbatim>\<open>old.Items[i].Name != cm.Name && metav1.IsControlledBy(&old.Items[i], svc)\<close>\<close>
  "old_dockerfile L svc name c \<longleftrightarrow> m_name (cm_meta c) \<noteq> name \<and> lib_controlled_by L (sv_meta svc) (cm_meta c)"

fun delete_old :: "env \<Rightarrow> klib \<Rightarrow> service \<Rightarrow> string \<Rightarrow> config_map list \<Rightarrow> gerror option io" where
  "delete_old E L svc name [] = ret None"
| "delete_old E L svc name (c # cs) =
     (if old_dockerfile L svc name c then do {
        r \<leftarrow> k_delete E config_maps c;
        (case r of
           Inl err \<Rightarrow> (case ignore_not_found err of
               Some _ \<Rightarrow> ret (Some err) | None \<Rightarrow> delete_old E L svc name cs)
         | Inr _ \<Rightarrow> delete_old E L svc name cs)
      } else delete_old E L svc name cs)"

definition ensureDockerfile :: "env \<Rightarrow> klib \<Rightarrow> service \<Rightarrow> string \<Rightarrow> string \<Rightarrow> (gerror + string) io" where
  "ensureDockerfile E L svc dockerfile ignore = do {
     r \<leftarrow> create_or_update E config_maps
       \<lparr>cm_meta = fresh_meta (dockerfile_name L svc dockerfile ignore) (m_namespace (sv_meta svc)), cm_data = Map.empty\<rparr>
       (dockerfile_object L svc dockerfile ignore);
     (case r of
        Inl err \<Rightarrow> ret (Inl err)
      | Inr c \<Rightarrow> do {
          old \<leftarrow> k_list E config_maps (m_namespace (sv_meta svc)) (ListLabel labelService (m_name (sv_meta svc)));
          (case old of
             Inl err \<Rightarrow> ret (Inl err)
           | Inr items \<Rightarrow> do {
               err \<leftarrow> delete_old E L svc (m_name (cm_meta c)) items;
               ret (case err of Some err \<Rightarrow> Inl err | None \<Rightarrow> Inr (m_name (cm_meta c)))
             })
        })
   }"

record ci_target =
  ct_language :: string
  ct_sha :: string
  ct_dockerfile_cm :: string
  ct_plugins :: "ciplugin_ref list"

definition applyRegistry :: "service_reconciler \<Rightarrow> service \<Rightarrow> ci \<Rightarrow> ci" where
  "applyRegistry R svc x =
     (let rs = cis_registry (ci_spec_of x);
          rs = (case svs_image (sv_spec_of svc) of None \<Rightarrow> rs
            | Some img \<Rightarrow> rs\<lparr>rs_registry := im_registry img, rs_repo := im_repo img,
                rs_credentials_secret := im_credentials_secret img\<rparr>);
          rs = (if rs_registry rs = '''' then rs\<lparr>rs_registry := sr_default_registry R\<rparr> else rs);
          rs = (if rs_registry rs = '''' then rs\<lparr>rs_registry := ''docker.io''\<rparr> else rs);
          rs = (if rs_repo rs = '''' then rs\<lparr>rs_repo := m_name (sv_meta svc)\<rparr> else rs)
      in x\<lparr>ci_spec_of := (ci_spec_of x)\<lparr>cis_registry := rs\<rparr>\<rparr>)"

definition ci_object :: "klib \<Rightarrow> service_reconciler \<Rightarrow> service \<Rightarrow> ci_target \<Rightarrow> ci \<Rightarrow> gerror + ci" where
  \<comment> \<open>the mutate function of \<^verbatim>\<open>ensureCI\<close>\<close>
  "ci_object L R svc target x =
     (let x = x\<lparr>ci_meta := (ci_meta x)\<lparr>m_labels := (m_labels (ci_meta x))(labelService \<mapsto> m_name (sv_meta svc),
                labelLanguage \<mapsto> ct_language target)\<rparr>,
              ci_spec_of := (ci_spec_of x)\<lparr>cis_service := \<lparr>ref_name = m_name (sv_meta svc)\<rparr>,
                cis_revision := ct_sha target, cis_dockerfile_config_map := ct_dockerfile_cm target,
                cis_plugins := ct_plugins target,
                cis_context_dir := (case svs_build (sv_spec_of svc) of None \<Rightarrow> '''' | Some b \<Rightarrow> bs_context_dir b)\<rparr>\<rparr>;
          x = applyRegistry R svc x
      in (case lib_get_controller L (ci_meta x) of
            Some _ \<Rightarrow> Inr x
          | None \<Rightarrow> (case lib_set_controller L (service_owner svc) (ci_meta x) of
              Inl err \<Rightarrow> Inl err | Inr m \<Rightarrow> Inr (x\<lparr>ci_meta := m\<rparr>))))"

definition empty_ci :: "string \<Rightarrow> string \<Rightarrow> ci" where
  "empty_ci name ns = \<lparr>ci_meta = fresh_meta name ns,
     ci_spec_of = \<lparr>cis_service = \<lparr>ref_name = ''''\<rparr>,
       cis_registry = \<lparr>rs_registry = '''', rs_repo = '''', rs_credentials_secret = '''', rs_creds = None\<rparr>,
       cis_revision = '''', cis_dockerfile_config_map = '''', cis_context_dir = '''', cis_plugins = [],
       cis_extra_steps = []\<rparr>,
     ci_status_of = \<lparr>cst_phase = CIPhaseUnset, cst_revision = '''', cst_image = '''', cst_build_count = 0,
       cst_build_time = None, cst_message = '''', cst_build_pod = '''', cst_building_revision = '''',
       cst_plugin_results = [], cst_observed_generation = 0, cst_conditions = []\<rparr>\<rparr>"

definition ci_name_for :: "service \<Rightarrow> ci list \<Rightarrow> gerror + string" where
  \<comment> \<open>the loop of \<^verbatim>\<open>ensureCI\<close> over the CIs of the namespace\<close>
  "ci_name_for svc items = (case find (\<lambda>c. ref_name (cis_service (ci_spec_of c)) = m_name (sv_meta svc)) items of
       None \<Rightarrow> Inr (m_name (sv_meta svc) @ ''-ci'')
     | Some c \<Rightarrow> if m_deletion (ci_meta c) \<noteq> None
         then Inl \<lparr>err_class = ErrConflict, err_msg = ''Operation cannot be fulfilled on cis.koptan.felukka.org ''
           @ fmt_q (m_name (ci_meta c)) @ '': CI is being deleted''\<rparr>
         else Inr (m_name (ci_meta c)))"

definition ensureCI :: "env \<Rightarrow> klib \<Rightarrow> service_reconciler \<Rightarrow> service \<Rightarrow> ci_target \<Rightarrow> (gerror + string) io" where
  "ensureCI E L R svc target = do {
     r \<leftarrow> k_list E cis (m_namespace (sv_meta svc)) ListAll;
     (case r of
        Inl err \<Rightarrow> ret (Inl err)
      | Inr items \<Rightarrow> (case ci_name_for svc items of
          Inl err \<Rightarrow> ret (Inl err)
        | Inr name \<Rightarrow> do {
            s \<leftarrow> create_or_update E cis (empty_ci name (m_namespace (sv_meta svc))) (ci_object L R svc target);
            ret (case s of Inl err \<Rightarrow> Inl err | Inr _ \<Rightarrow> Inr name)
          }))
   }"

definition record_build :: "klib \<Rightarrow> time \<Rightarrow> service \<Rightarrow> discovery_result \<Rightarrow> string \<Rightarrow> string \<Rightarrow> string \<Rightarrow> service" where
  \<comment> \<open>the end of \<^verbatim>\<open>discoverAndBuild\<close>\<close>
  "record_build L t svc res sha cm_name ci_name =
     (let svc = recordDiscovery L t svc res;
          svc = svc\<lparr>sv_status_of := (sv_status_of svc)\<lparr>svst_latest_revision := sha,
            svst_dockerfile_config_map := cm_name, svst_ci_ref := ci_name,
            svst_observed_generation := m_generation (sv_meta svc), svst_error := ''''\<rparr>\<rparr>
      in setPhase L t svc ServicePhaseBuilding (''CI '' @ ci_name @ '' building '' @ short_rev sha))"

text \<open>The Service as changed so far comes back with the result and the error.\<close>

definition build_from :: "env \<Rightarrow> klib \<Rightarrow> service_reconciler \<Rightarrow> service \<Rightarrow> string \<Rightarrow> discovery_result
    \<Rightarrow> ciplugin_ref list \<Rightarrow> (service \<times> outcome) io" where
  \<comment> \<open>\<^verbatim>\<open>discoverAndBuild\<close> after discovery succeeded\<close>
  "build_from E L R svc sha res refs = do {
     stored \<leftarrow> ensureDockerfile E L svc (dr_dockerfile res) (dr_dockerignore res);
     t \<leftarrow> now E;
     (case stored of
        Inl err \<Rightarrow> ret (markFailed L t svc ''DockerfileFailed'' (''store Dockerfile: '' @ err_msg err), (no_requeue, Some err))
      | Inr cm_name \<Rightarrow> do {
          r \<leftarrow> ensureCI E L R svc \<lparr>ct_language = dr_language res, ct_sha = sha, ct_dockerfile_cm = cm_name, ct_plugins = refs\<rparr>;
          t \<leftarrow> now E;
          ret (case r of
              Inl err \<Rightarrow>
                if is_conflict err \<or> is_already_exists err then (svc, (requeue_after (seconds 5), None))
                else (markFailed L t svc ''CIInitFailed'' (''create CI: '' @ err_msg err), (no_requeue, Some err))
            | Inr ci_name \<Rightarrow> (record_build L t svc res sha cm_name ci_name, (no_requeue, None)))
        })
   }"

definition discoverAndBuild :: "env \<Rightarrow> klib \<Rightarrow> service_reconciler \<Rightarrow> service \<Rightarrow> revision \<Rightarrow> string
    \<Rightarrow> ciplugin_ref list \<Rightarrow> (service \<times> outcome) io" where
  "discoverAndBuild E L R svc rv token refs = do {
     t \<leftarrow> now E;
     let svc = setPhase L t svc ServicePhaseDiscovering
       (''Discovering '' @ src_repo (svs_source (sv_spec_of svc)) @ '' at '' @ short_rev (rev_sha rv)) in do {
       r \<leftarrow> perform (\<lambda>t. env_discover E t (discoveryRequest svc rv token)) (EvDiscover (discoveryRequest svc rv token));
       t \<leftarrow> now E;
       (case r of
          Inl err \<Rightarrow> ret (markFailed L t svc ''DiscoveryFailed'' (''discover: '' @ err_msg err),
              (requeue_after failedRetryInterval, None))
        | Inr res \<Rightarrow> build_from E L R svc (rev_sha rv) res refs)
     }
   }"

section \<open>service\_pipeline.go\<close>

definition reasonCIFailed :: string where "reasonCIFailed = ''CIFailed''"
definition reasonCDFailed :: string where "reasonCDFailed = ''CDFailed''"

definition pipelineFailure :: "klib \<Rightarrow> service \<Rightarrow> bool" where
  "pipelineFailure L svc \<longleftrightarrow> svst_phase (sv_status_of svc) = ServicePhaseFailed
     \<and> (case lib_find_condition L ''Ready'' (svst_conditions (sv_status_of svc)) of
          None \<Rightarrow> False | Some c \<Rightarrow> c_reason c = reasonCIFailed \<or> c_reason c = reasonCDFailed)"

definition discovered :: "klib \<Rightarrow> service \<Rightarrow> bool" where
  "discovered L svc \<longleftrightarrow>
     (if svst_observed_generation (sv_status_of svc) \<noteq> m_generation (sv_meta svc)
         \<or> svst_ci_ref (sv_status_of svc) = '''' then False
      else if svst_phase (sv_status_of svc) = ServicePhaseBuilding \<or> svst_phase (sv_status_of svc) = ServicePhaseReady
      then True else pipelineFailure L svc)"

definition ensureOwnCI :: "env \<Rightarrow> klib \<Rightarrow> service_reconciler \<Rightarrow> service \<Rightarrow> ciplugin_ref list
    \<Rightarrow> (service \<times> gerror option) io" where
  "ensureOwnCI E L R svc refs = do {
     r \<leftarrow> ensureCI E L R svc \<lparr>ct_language = svst_service_type (sv_status_of svc),
       ct_sha = svst_latest_revision (sv_status_of svc),
       ct_dockerfile_cm = svst_dockerfile_config_map (sv_status_of svc), ct_plugins = refs\<rparr>;
     ret (case r of Inl err \<Rightarrow> (svc, Some err)
        | Inr name \<Rightarrow> (svc\<lparr>sv_status_of := (sv_status_of svc)\<lparr>svst_ci_ref := name\<rparr>\<rparr>, None))
   }"

definition setPipelineFailed :: "klib \<Rightarrow> time \<Rightarrow> service \<Rightarrow> string \<Rightarrow> string \<Rightarrow> service" where
  "setPipelineFailed L t svc reason msg = svc\<lparr>sv_status_of := (sv_status_of svc)\<lparr>
     svst_phase := ServicePhaseFailed, svst_message := msg,
     svst_conditions := lib_set_condition L t (new_condition ''Ready'' ConditionFalse reason msg)
       (svst_conditions (sv_status_of svc))\<rparr>\<rparr>"

definition setRunning :: "klib \<Rightarrow> time \<Rightarrow> service \<Rightarrow> service" where
  "setRunning L t svc =
     (let svc = setPhase L t svc ServicePhaseReady (''Running '' @ short_rev (svst_latest_revision (sv_status_of svc)))
      in svc\<lparr>sv_status_of := (sv_status_of svc)\<lparr>svst_conditions := lib_set_condition L t
        (new_condition ''Ready'' ConditionTrue ''Running'' (svst_message (sv_status_of svc)))
        (svst_conditions (sv_status_of svc))\<rparr>\<rparr>)"

definition ci_verdict :: "klib \<Rightarrow> time \<Rightarrow> service \<Rightarrow> ci \<Rightarrow> service option" where
  \<comment> \<open>the first switch of \<^verbatim>\<open>setPipelinePhase\<close>; \<open>None\<close> when it falls through to the CD\<close>
  "ci_verdict L t svc x =
     (let latest = svst_latest_revision (sv_status_of svc) in
      if cis_revision (ci_spec_of x) \<noteq> latest then
        Some (setPhase L t svc ServicePhaseBuilding (''CI '' @ m_name (ci_meta x) @ '' moving to '' @ short_rev latest))
      else if cst_phase (ci_status_of x) = CIPhaseFailed then
        Some (setPipelineFailed L t svc reasonCIFailed
          (''CI '' @ m_name (ci_meta x) @ '' failed: '' @ cst_message (ci_status_of x)))
      else if cst_phase (ci_status_of x) \<noteq> CIPhaseSucceeded \<or> cst_revision (ci_status_of x) \<noteq> latest then
        Some (setPhase L t svc ServicePhaseBuilding (''CI '' @ m_name (ci_meta x) @ '' building '' @ short_rev latest))
      else None)"

definition cd_verdict :: "klib \<Rightarrow> time \<Rightarrow> service \<Rightarrow> cd \<Rightarrow> service" where
  \<comment> \<open>its last switch\<close>
  "cd_verdict L t svc d =
     (let latest = svst_latest_revision (sv_status_of svc) in
      if cdst_phase (cd_status_of d) = CDPhaseFailed then
        setPipelineFailed L t svc reasonCDFailed
          (''CD '' @ m_name (cd_meta d) @ '' failed: '' @ cdst_message (cd_status_of d))
      else if cdst_phase (cd_status_of d) = CDPhaseRunning \<and> cdst_revision (cd_status_of d) = latest then
        setRunning L t svc
      else setPhase L t svc ServicePhaseBuilding (''CD '' @ m_name (cd_meta d) @ '' deploying '' @ short_rev latest))"

definition pipeline_cd :: "env \<Rightarrow> klib \<Rightarrow> service \<Rightarrow> (gerror + service) io" where
  \<comment> \<open>\<^verbatim>\<open>setPipelinePhase\<close> after the CI succeeded\<close>
  "pipeline_cd E L svc =
     (let latest = svst_latest_revision (sv_status_of svc); cd_ref = svst_cd_ref (sv_status_of svc) in
      if cd_ref = '''' then do {
        t \<leftarrow> now E;
        ret (Inr (setPhase L t svc ServicePhaseBuilding (''Waiting for the CD of '' @ short_rev latest)))
      } else do {
        r \<leftarrow> k_get E cds (m_namespace (sv_meta svc), cd_ref);
        t \<leftarrow> now E;
        ret (case r of
            Inl err \<Rightarrow> if is_not_found err
              then Inr (setPhase L t svc ServicePhaseBuilding (''Waiting for CD '' @ cd_ref)) else Inl err
          | Inr d \<Rightarrow> Inr (cd_verdict L t svc d))
      })"

definition setPipelinePhase :: "env \<Rightarrow> klib \<Rightarrow> service \<Rightarrow> (gerror + service) io" where
  "setPipelinePhase E L svc = do {
     r \<leftarrow> k_get E cis (m_namespace (sv_meta svc), svst_ci_ref (sv_status_of svc));
     t \<leftarrow> now E;
     (case r of
        Inl err \<Rightarrow> ret (if is_not_found err
          then Inr (setPhase L t svc ServicePhaseBuilding (''Waiting for CI '' @ svst_ci_ref (sv_status_of svc)))
          else Inl err)
      | Inr x \<Rightarrow> (case ci_verdict L t svc x of Some svc' \<Rightarrow> ret (Inr svc') | None \<Rightarrow> pipeline_cd E L svc))
   }"

section \<open>service\_sync.go\<close>

fun sync_cds :: "env \<Rightarrow> service \<Rightarrow> cd list \<Rightarrow> (service \<times> gerror option) io" where
  "sync_cds E svc [] = ret (svc, None)"
| "sync_cds E svc (d # ds) =
     (if m_deletion (cd_meta d) \<noteq> None then sync_cds E svc ds
      else do {
        r \<leftarrow> k_patch E cds d (applyServiceToCD svc d);
        (let svc = svc\<lparr>sv_status_of := (sv_status_of svc)\<lparr>svst_cd_ref := m_name (cd_meta d)\<rparr>\<rparr> in
         case r of
           Inl err \<Rightarrow> ret (svc, ignore_not_found err)
         | Inr _ \<Rightarrow> sync_cds E svc ds)
      })"

definition syncCD :: "env \<Rightarrow> service \<Rightarrow> (service \<times> gerror option) io" where
  "syncCD E svc = do {
     r \<leftarrow> k_list E cds (m_namespace (sv_meta svc)) (ListLabel labelService (m_name (sv_meta svc)));
     (case r of
        Inl err \<Rightarrow> ret (svc, Some err)
      | Inr ds \<Rightarrow> sync_cds E (svc\<lparr>sv_status_of := (sv_status_of svc)\<lparr>svst_cd_ref := ''''\<rparr>\<rparr>) ds)
   }"

section \<open>service\_controller.go\<close>

definition detect_push :: "klib \<Rightarrow> time \<Rightarrow> service \<Rightarrow> revision \<Rightarrow> service" where
  \<comment> \<open>what \<^verbatim>\<open>pollForCommit\<close> writes for a new commit\<close>
  "detect_push L t svc rv = svc\<lparr>sv_status_of := (sv_status_of svc)\<lparr>svst_last_push_detected := Some t,
     svst_conditions := lib_set_condition L t (new_condition ''CommitDetected'' ConditionTrue ''NewCommit''
       (''New commit '' @ short_rev (rev_sha rv) @ '' detected on '' @ src_repo (svs_source (sv_spec_of svc))))
       (svst_conditions (sv_status_of svc))\<rparr>\<rparr>"

definition pollForCommit :: "env \<Rightarrow> klib \<Rightarrow> service \<Rightarrow> string \<Rightarrow> (gerror + service \<times> revision option) io" where
  "pollForCommit E L svc token = do {
     r \<leftarrow> HasRevisionChanged E L (src_repo (svs_source (sv_spec_of svc))) (src_revision (svs_source (sv_spec_of svc)))
       (svst_latest_revision (sv_status_of svc)) token;
     t \<leftarrow> now E;
     ret (case r of Inl err \<Rightarrow> Inl err
        | Inr (changed, rv) \<Rightarrow> if \<not> changed then Inr (svc, None) else Inr (detect_push L t svc rv, Some rv))
   }"

definition settle_pipeline :: "env \<Rightarrow> klib \<Rightarrow> service \<Rightarrow> service \<Rightarrow> outcome io" where
  \<comment> \<open>\<^verbatim>\<open>reconcile\<close> from \<^verbatim>\<open>syncCD\<close> on\<close>
  "settle_pipeline E L orig svc = do {
     (svc, err) \<leftarrow> syncCD E svc;
     (case err of
        Some err \<Rightarrow> ret (no_requeue, Some err)
      | None \<Rightarrow> do {
          r \<leftarrow> setPipelinePhase E L svc;
          (case r of
             Inl err \<Rightarrow> ret (no_requeue, Some err)
           | Inr svc \<Rightarrow> do {
               err \<leftarrow> svc_patch E orig svc;
               ret (case err of Some err \<Rightarrow> (no_requeue, Some err) | None \<Rightarrow> (requeue_after pushPollInterval, None))
             })
        })
   }"

definition advance :: "env \<Rightarrow> klib \<Rightarrow> service_reconciler \<Rightarrow> service \<Rightarrow> service \<Rightarrow> revision option \<Rightarrow> string
    \<Rightarrow> ciplugin_ref list \<Rightarrow> outcome io" where
  \<comment> \<open>\<^verbatim>\<open>reconcile\<close> from \<^verbatim>\<open>if rev != nil\<close> on\<close>
  "advance E L R orig svc found token refs = (case found of
       Some rv \<Rightarrow> do {
         (svc, res, err) \<leftarrow> discoverAndBuild E L R svc rv token refs;
         (if err \<noteq> None \<or> res \<noteq> no_requeue then do {
            perr \<leftarrow> svc_patch E orig svc;
            ret (case perr of Some perr \<Rightarrow> (no_requeue, Some perr) | None \<Rightarrow> (res, err))
          } else settle_pipeline E L orig svc)
       }
     | None \<Rightarrow> do {
         (svc, err) \<leftarrow> ensureOwnCI E L R svc refs;
         (case err of
            Some err \<Rightarrow> if is_conflict err \<or> is_already_exists err then ret (requeue_after (seconds 5), None)
              else ret (no_requeue, Some err)
          | None \<Rightarrow> settle_pipeline E L orig svc)
       })"

definition find_revision :: "env \<Rightarrow> klib \<Rightarrow> service_reconciler \<Rightarrow> service \<Rightarrow> string \<Rightarrow> ciplugin_ref list \<Rightarrow> outcome io" where
  \<comment> \<open>\<^verbatim>\<open>reconcile\<close> once the token and the plugins are there\<close>
  "find_revision E L R svc token refs =
     (if svst_observed_generation (sv_status_of svc) \<noteq> m_generation (sv_meta svc) \<or> \<not> discovered L svc then do {
        r \<leftarrow> ResolveRevision E L (src_repo (svs_source (sv_spec_of svc))) (src_revision (svs_source (sv_spec_of svc))) token;
        t \<leftarrow> now E;
        (case r of
           Inl err \<Rightarrow> svc_finish E svc (markFailed L t svc ''RevisionUnresolved'' (''resolve revision: '' @ err_msg err))
             (requeue_after failedRetryInterval)
         | Inr rv \<Rightarrow> advance E L R svc svc (Some rv) token refs)
      } else do {
        r \<leftarrow> pollForCommit E L svc token;
        (case r of
           Inl err \<Rightarrow> svc_finish E svc (svc\<lparr>sv_status_of := (sv_status_of svc)\<lparr>
               svst_message := ''Could not check for new commits: '' @ err_msg err\<rparr>\<rparr>) (requeue_after pushPollInterval)
         | Inr (svc', found) \<Rightarrow> advance E L R svc svc' found token refs)
      })"

definition service_body :: "env \<Rightarrow> klib \<Rightarrow> service_reconciler \<Rightarrow> service \<Rightarrow> outcome io" where
  "service_body E L R svc = do {
     t \<leftarrow> now E;
     let spec_changed = (svst_observed_generation (sv_status_of svc) \<noteq> m_generation (sv_meta svc)) in
     (case validateSource L svc of
        Some err \<Rightarrow>
          if svst_phase (sv_status_of svc) \<noteq> ServicePhaseFailed \<or> spec_changed
          then svc_finish E svc (markFailed L t svc ''InvalidSource'' (err_msg err)) no_requeue
          else ret (no_requeue, None)
      | None \<Rightarrow>
          if svst_phase (sv_status_of svc) = ServicePhaseFailed \<and> \<not> pipelineFailure L svc \<and> \<not> spec_changed
             \<and> retryWait L t svc > 0
          then ret (requeue_after (retryWait L t svc), None)
          else do {
            tok \<leftarrow> gitToken E R svc;
            t \<leftarrow> now E;
            (case tok of
               Inl err \<Rightarrow> svc_finish E svc (markFailed L t svc ''SecretUnavailable'' (err_msg err))
                 (requeue_after failedRetryInterval)
             | Inr token \<Rightarrow> do {
                 r \<leftarrow> resolvePlugins E L svc;
                 t \<leftarrow> now E;
                 (case r of
                    Inl err \<Rightarrow> svc_finish E svc (markFailed L t svc ''PluginUnavailable'' (err_msg err))
                      (requeue_after failedRetryInterval)
                  | Inr refs \<Rightarrow> find_revision E L R svc token refs)
               })
          })
   }"

definition service_reconcile :: "env \<Rightarrow> klib \<Rightarrow> service_reconciler \<Rightarrow> nsname \<Rightarrow> outcome io" where
  "service_reconcile E L R key = restart_on_conflict
     (finalizer_step E L services sv_meta (\<lambda>f s. s\<lparr>sv_meta := f (sv_meta s)\<rparr>) serviceFinalizer key (service_body E L R))"

end
