(* ===== verification/ServiceProofs.thy ===== *)
theory ServiceProofs
  imports ServiceCtrl Demo
begin

text \<open>
  What a run of the Service reconciler may do (theory \<open>ServiceCtrl\<close>): \<open>service_flow\<close> gives the
  shape of every run, and the properties about the phase Ready, the CI and the pauses
  follow from it.
\<close>

section \<open>What the setters keep\<close>

text \<open>
  Every change of a run is to the status. \<open>same_object\<close> says so, and the functions that read the
  Service's metadata and spec do not see the change.
\<close>

definition same_object :: "service \<Rightarrow> service \<Rightarrow> bool" where
  "same_object svc s \<longleftrightarrow> sv_meta s = sv_meta svc \<and> sv_spec_of s = sv_spec_of svc"

lemma same_object_refl [simp]: "same_object svc svc"
  by (simp add: same_object_def)

lemma same_object_trans: "same_object svc s \<Longrightarrow> same_object s u \<Longrightarrow> same_object svc u"
  by (simp add: same_object_def)

lemma same_object_status [simp]: "same_object svc (s\<lparr>sv_status_of := st\<rparr>) = same_object svc s"
  by (simp add: same_object_def)

lemma same_object_setters [simp]:
  "same_object svc (setPhase L t s ph msg) = same_object svc s"
  "same_object svc (markFailed L t s reason msg) = same_object svc s"
  "same_object svc (setPipelineFailed L t s reason msg) = same_object svc s"
  "same_object svc (setRunning L t s) = same_object svc s"
  "same_object svc (detect_push L t s rv) = same_object svc s"
  "same_object svc (record_build L t s res sha cm nm) = same_object svc s"
  by (simp_all add: same_object_def setPhase_def markFailed_def setPipelineFailed_def setRunning_def detect_push_def
      record_build_def recordDiscovery_def Let_def split: prod.split)

lemma setter_phases [simp]:
  "svst_phase (sv_status_of (setPhase L t s ph msg)) = ph"
  "svst_phase (sv_status_of (markFailed L t s reason msg)) = ServicePhaseFailed"
  "svst_phase (sv_status_of (setPipelineFailed L t s reason msg)) = ServicePhaseFailed"
  "svst_phase (sv_status_of (setRunning L t s)) = ServicePhaseReady"
  "svst_phase (sv_status_of (record_build L t s res sha cm nm)) = ServicePhaseBuilding"
  by (simp_all add: setPhase_def markFailed_def setPipelineFailed_def setRunning_def record_build_def Let_def)

lemma setter_refs [simp]:
  "svst_latest_revision (sv_status_of (setRunning L t s)) = svst_latest_revision (sv_status_of s)"
  "svst_ci_ref (sv_status_of (setRunning L t s)) = svst_ci_ref (sv_status_of s)"
  "svst_cd_ref (sv_status_of (setRunning L t s)) = svst_cd_ref (sv_status_of s)"
  by (simp_all add: setRunning_def setPhase_def Let_def)

lemma same_object_objects:
  assumes "same_object svc s"
  shows "ci_object L R s target x = ci_object L R svc target x"
    and "dockerfile_object L s d i c = dockerfile_object L svc d i c"
    and "applyServiceToCD s c' = applyServiceToCD svc c'"
    and "old_dockerfile L s name c = old_dockerfile L svc name c"
proof -
  have eq: "sv_meta s = sv_meta svc" "sv_spec_of s = sv_spec_of svc" using assms by (simp_all add: same_object_def)
  show "ci_object L R s target x = ci_object L R svc target x"
    by (simp only: ci_object_def applyRegistry_def service_owner_def eq)
  show "dockerfile_object L s d i c = dockerfile_object L svc d i c"
    by (simp only: dockerfile_object_def service_owner_def eq)
  show "applyServiceToCD s c' = applyServiceToCD svc c'"
    by (simp only: applyServiceToCD_def servicePort_def eq)
  show "old_dockerfile L s name c = old_dockerfile L svc name c"
    by (simp only: old_dockerfile_def eq)
qed

section \<open>The requests of a run\<close>

text \<open>
  \<open>early\<close>: the requests until the plugins are selected. \<open>late L R svc refs\<close>: the others,
  but for the status; they write the CI with the plugins \<open>refs\<close>, the Service's CDs with the
  Service's fields, and ConfigMaps of the Service.
\<close>

fun early :: "event \<Rightarrow> bool" where
  "early (EvSecret (VGet k r)) = True"
| "early (EvPlugin (VList ns opt r)) = True"
| "early _ = False"

fun late :: "klib \<Rightarrow> service_reconciler \<Rightarrow> service \<Rightarrow> ciplugin_ref list \<Rightarrow> event \<Rightarrow> bool" where
  "late L R svc refs (EvListRefs repo auth r) = True"
| "late L R svc refs (EvDiscover q r) = True"
| "late L R svc refs (EvConfigMap (VFetch c r)) = True"
| "late L R svc refs (EvConfigMap (VStore c r)) = (\<exists>d i c0. dockerfile_object L svc d i c0 = Inr c)"
| "late L R svc refs (EvConfigMap (VList ns opt r)) = True"
| "late L R svc refs (EvConfigMap (VDelete c r)) = lib_controlled_by L (sv_meta svc) (cm_meta c)"
| "late L R svc refs (EvCI (VList ns opt r)) = True"
| "late L R svc refs (EvCI (VFetch x r)) = True"
| "late L R svc refs (EvCI (VStore x r)) = (\<exists>target x0. ct_plugins target = refs \<and> ci_object L R svc target x0 = Inr x)"
| "late L R svc refs (EvCI (VGet k r)) = True"
| "late L R svc refs (EvCD (VList ns opt r)) = True"
| "late L R svc refs (EvCD (VPatch d d' r)) = (m_deletion (cd_meta d) = None \<and> d' = applyServiceToCD svc d)"
| "late L R svc refs (EvCD (VGet k r)) = True"
| "late L R svc refs _ = False"

lemma emits_delete_old:
  "same_object svc s \<Longrightarrow> emits (delete_old E L s name cs) (late L R svc refs)"
proof (induction cs)
  case (Cons c cs)
  then show ?case
    by (auto simp: old_dockerfile_def same_object_def intro!: emits_intros)
qed (simp add: emits_ret)

lemma emits_ensureDockerfile:
  "same_object svc s \<Longrightarrow> emits (ensureDockerfile E L s d i) (late L R svc refs)"
  unfolding ensureDockerfile_def
  by (intro emits_intros emits_delete_old) (auto simp: same_object_objects)

lemma emits_ensureCI:
  "same_object svc s \<Longrightarrow> ct_plugins target = refs \<Longrightarrow> emits (ensureCI E L R s target) (late L R svc refs)"
  unfolding ensureCI_def by (intro emits_intros) (auto simp: same_object_objects)

lemma emits_build_from:
  "same_object svc s \<Longrightarrow> emits (build_from E L R s sha res refs) (late L R svc refs)"
  unfolding build_from_def by (intro emits_intros emits_ensureDockerfile emits_ensureCI) simp_all

lemma emits_discoverAndBuild:
  "same_object svc s \<Longrightarrow> emits (discoverAndBuild E L R s rv token refs) (late L R svc refs)"
  unfolding discoverAndBuild_def Let_def by (intro emits_intros emits_perform emits_build_from) simp_all

lemma emits_sync_cds: "same_object svc s \<Longrightarrow> emits (sync_cds E s ds) (late L R svc refs)"
proof (induction ds arbitrary: s)
  case (Cons d ds)
  then show ?case
    by (auto simp: same_object_objects Let_def intro!: emits_intros)
qed (simp add: emits_ret)

lemma emits_syncCD: "same_object svc s \<Longrightarrow> emits (syncCD E s) (late L R svc refs)"
  unfolding syncCD_def by (intro emits_intros emits_sync_cds) simp_all

lemma emits_late_revision:
  "emits (ResolveRevision E L repo rv token) (late L R svc refs)"
  "emits (HasRevisionChanged E L repo rv known token) (late L R svc refs)"
  by (rule emits_weaken [OF emits_ResolveRevision] emits_weaken [OF emits_HasRevisionChanged],
      elim safe_listing.elims, simp_all)+

text \<open>What a run has to have read before it writes the phase Ready.\<close>

definition ready_evidence :: "service \<Rightarrow> trace \<Rightarrow> bool" where
  "ready_evidence y es \<longleftrightarrow> (\<exists>x d. let ns = m_namespace (sv_meta y); latest = svst_latest_revision (sv_status_of y) in
     EvCI (VGet (ns, svst_ci_ref (sv_status_of y)) (Inr x)) \<in> set es
   \<and> cis_revision (ci_spec_of x) = latest \<and> cst_phase (ci_status_of x) = CIPhaseSucceeded
   \<and> cst_revision (ci_status_of x) = latest
   \<and> EvCD (VGet (ns, svst_cd_ref (sv_status_of y)) (Inr d)) \<in> set es
   \<and> cdst_phase (cd_status_of d) = CDPhaseRunning \<and> cdst_revision (cd_status_of d) = latest)"

lemma ready_evidence_append: "ready_evidence y es \<Longrightarrow> ready_evidence y (pre @ es)"
  unfolding ready_evidence_def Let_def by auto

definition with_message :: "service \<Rightarrow> string \<Rightarrow> service" where
  "with_message s msg = s\<lparr>sv_status_of := (sv_status_of s)\<lparr>svst_message := msg\<rparr>\<rparr>"

text \<open>
  The one other case: a Service that is Ready is polled for a new commit, the poll fails, and only the message changes. The
  poll is the last thing the run did, \<open>es\<close> being its requests from the history \<open>h\<close> on.
\<close>

definition poll_failed :: "env \<Rightarrow> klib \<Rightarrow> service \<Rightarrow> trace \<Rightarrow> trace \<Rightarrow> service \<Rightarrow> bool" where
  "poll_failed E L svc h es y \<longleftrightarrow> (\<exists>token pre err.
     run_state (HasRevisionChanged E L (src_repo (svs_source (sv_spec_of svc))) (src_revision (svs_source (sv_spec_of svc)))
       (svst_latest_revision (sv_status_of svc)) token) (h @ pre) = (Inl err, h @ es)
     \<and> y = with_message svc (''Could not check for new commits: '' @ err_msg err))"

lemma poll_failed_prepend: "poll_failed E L svc (h @ pre) es y \<Longrightarrow> poll_failed E L svc h (pre @ es) y"
  unfolding poll_failed_def by (metis append_assoc)

definition patch_ok :: "env \<Rightarrow> klib \<Rightarrow> service \<Rightarrow> trace \<Rightarrow> trace \<Rightarrow> service \<Rightarrow> bool" where
  "patch_ok E L svc h es y \<longleftrightarrow> same_object svc y \<and> (svst_phase (sv_status_of y) = ServicePhaseReady \<longrightarrow>
     poll_failed E L svc h es y \<or> ready_evidence y es)"

text \<open>The requests of a run from the history \<open>h\<close> on, once the plugins are selected.\<close>

inductive late_run :: "env \<Rightarrow> klib \<Rightarrow> service_reconciler \<Rightarrow> service \<Rightarrow> ciplugin_ref list \<Rightarrow> trace \<Rightarrow> trace \<Rightarrow> bool"
  for E L R svc refs h where
  open_run: "list_all (late L R svc refs) es \<Longrightarrow> late_run E L R svc refs h es"
| patched: "list_all (late L R svc refs) es \<Longrightarrow> patch_ok E L svc h es y \<Longrightarrow>
    late_run E L R svc refs h (es @ [EvService (VPatchStatus True svc y r)])"

lemma late_run_prepend:
  assumes "list_all (late L R svc refs) pre" "late_run E L R svc refs (h @ pre) es"
  shows "late_run E L R svc refs h (pre @ es)"
  using assms(2)
proof cases
  case open_run
  with assms(1) show ?thesis by (auto intro: late_run.open_run)
next
  case (patched es' y r)
  have "patch_ok E L svc h (pre @ es') y"
    using patched(3) ready_evidence_append poll_failed_prepend by (auto simp: patch_ok_def)
  with late_run.patched [of L R svc refs "pre @ es'" E h y r] assms(1) patched show ?thesis by simp
qed

lemma ci_verdict_cases:
  assumes "ci_verdict L t s x = v"
  shows "(\<exists>s'. v = Some s' \<and> same_object s s' \<and> svst_phase (sv_status_of s') \<noteq> ServicePhaseReady)
    \<or> (v = None \<and> cis_revision (ci_spec_of x) = svst_latest_revision (sv_status_of s)
        \<and> cst_phase (ci_status_of x) = CIPhaseSucceeded \<and> cst_revision (ci_status_of x) = svst_latest_revision (sv_status_of s))"
  using assms by (auto simp: ci_verdict_def Let_def split: if_splits)

lemma cd_verdict_cases:
  "same_object s (cd_verdict L t s d)"
  "svst_phase (sv_status_of (cd_verdict L t s d)) = ServicePhaseReady \<Longrightarrow>
     cd_verdict L t s d = setRunning L t s \<and> cdst_phase (cd_status_of d) = CDPhaseRunning
     \<and> cdst_revision (cd_status_of d) = svst_latest_revision (sv_status_of s)"
  by (auto simp: cd_verdict_def Let_def split: if_splits)

lemma wp_setPipelinePhase:
  assumes Q: "\<And>r es. list_all (late L R svc refs) es \<Longrightarrow>
     (\<And>y. r = Inr y \<Longrightarrow> same_object s y \<and> (svst_phase (sv_status_of y) = ServicePhaseReady \<longrightarrow> ready_evidence y es)) \<Longrightarrow>
     Q r (t @ es)"
  shows "wp (setPipelinePhase E L s) Q t"
proof -
  have ready: "same_object s (cd_verdict L n s d) \<and> (svst_phase (sv_status_of (cd_verdict L n s d)) = ServicePhaseReady \<longrightarrow>
      ready_evidence (cd_verdict L n s d) [EvCI (VGet (m_namespace (sv_meta s), svst_ci_ref (sv_status_of s)) (Inr x)),
        EvCD (VGet (m_namespace (sv_meta s), svst_cd_ref (sv_status_of s)) (Inr d))])"
    if "ci_verdict L n' s x = None" for n n' d x
    using ci_verdict_cases [OF that] cd_verdict_cases(1) [of s L n d] cd_verdict_cases(2) [of L n s d]
    by (auto simp: ready_evidence_def Let_def same_object_def)
  show ?thesis
    unfolding setPipelinePhase_def pipeline_cd_def Let_def
  proof (intro wp_intros, simp_all only: append_assoc kind_simps, goal_cases)
    case (1 r n err)
    show ?case by (rule Q) (auto split: if_splits)
  next
    case (2 r n x)
    show ?case by (rule Q) auto
  next
    case (3 r n x ra na)
    show ?case
    proof (rule Q)
      fix y assume "(case ra of Inl err \<Rightarrow>
          if is_not_found err then Inr (setPhase L na s ServicePhaseBuilding (''Waiting for CD '' @ svst_cd_ref (sv_status_of s)))
          else Inl err | Inr d \<Rightarrow> Inr (cd_verdict L na s d)) = Inr y"
      with 3 ready show "same_object s y \<and> (svst_phase (sv_status_of y) = ServicePhaseReady \<longrightarrow> ready_evidence y
          ([EvCI (VGet (m_namespace (sv_meta s), svst_ci_ref (sv_status_of s)) (Inr x))] @
           [EvCD (VGet (m_namespace (sv_meta s), svst_cd_ref (sv_status_of s)) ra)]))"
        by (auto split: sum.splits if_splits)
    qed simp
  next
    case (4 r n x s')
    with ci_verdict_cases [of L n s x "Some s'"] show ?case by (intro Q) auto
  qed
qed

lemma result_sync_cds: "same_object svc s \<Longrightarrow> wp (sync_cds E s ds) (\<lambda>r _. same_object svc (fst r)) t"
proof (induction ds arbitrary: s t)
  case (Cons d ds)
  show ?case
    unfolding sync_cds.simps Let_def
    by (intro wp_intros; (rule Cons.IH)?; (simp add: Cons.prems)?)
qed (simp add: wp_ret)

lemma result_syncCD: "same_object svc s \<Longrightarrow> wp (syncCD E s) (\<lambda>r _. same_object svc (fst r)) t"
  unfolding syncCD_def by (intro wp_intros; (rule result_sync_cds)?; simp)

text \<open>What comes back from \<open>discoverAndBuild\<close>: a Service that did not get to Ready.\<close>

definition built :: "service \<Rightarrow> service \<times> outcome \<Rightarrow> bool" where
  "built svc r \<longleftrightarrow> same_object svc (fst r) \<and> svst_phase (sv_status_of (fst r)) \<noteq> ServicePhaseReady"

lemma result_build_from:
  "same_object svc s \<Longrightarrow> svst_phase (sv_status_of s) \<noteq> ServicePhaseReady \<Longrightarrow>
   wp (build_from E L R s sha res refs) (\<lambda>r _. built svc r) t"
  unfolding build_from_def
  by (intro wp_intros wp_frame [OF emits_ensureDockerfile [OF same_object_refl]] wp_frame [OF emits_ensureCI [OF same_object_refl]])
    (auto simp: built_def split: sum.splits)

lemma result_discoverAndBuild:
  "same_object svc s \<Longrightarrow> wp (discoverAndBuild E L R s rv token refs) (\<lambda>r _. built svc r) t"
  unfolding discoverAndBuild_def Let_def
  by (intro wp_intros wp_perform [THEN iffD2] result_build_from) (simp_all add: built_def)

lemma wp_settle_pipeline:
  assumes same: "same_object svc s"
    and Q: "\<And>out es. late_run E L R svc refs t es \<Longrightarrow> Q out (t @ es)"
  shows "wp (settle_pipeline E L svc s) Q t"
proof -
  have quiet: "Q out (t @ es1 @ es2)" if "list_all (late L R svc refs) es1" "list_all (late L R svc refs) es2" for out es1 es2
    by (rule Q, rule late_run.open_run) (use that in simp)
  have fin: "Q out (t @ es1 @ es2 @ [EvService (VPatchStatus True svc y r)])"
    if "list_all (late L R svc refs) es1" "list_all (late L R svc refs) es2"
      "same_object svc s'" "same_object s' y" "svst_phase (sv_status_of y) = ServicePhaseReady \<longrightarrow> ready_evidence y es2"
    for out es1 es2 y r s'
    using Q [of "(es1 @ es2) @ [EvService (VPatchStatus True svc y r)]" out]
      late_run.patched [of L R svc refs "es1 @ es2" E t y r] that same_object_trans ready_evidence_append
    by (auto simp: patch_ok_def)
  have phase: "wp (setPipelinePhase E L s') Q' (t @ es1)"
    if "\<And>r es. list_all (late L R svc refs) es \<Longrightarrow>
     (\<And>y. r = Inr y \<Longrightarrow> same_object s' y \<and> (svst_phase (sv_status_of y) = ServicePhaseReady \<longrightarrow> ready_evidence y es)) \<Longrightarrow>
     Q' r ((t @ es1) @ es)" for s' es1 Q'
    by (rule wp_setPipelinePhase) (rule that)
  show ?thesis
    unfolding settle_pipeline_def svc_patch_def
  proof (intro wp_intros wp_both [OF emits_syncCD [OF same, where L = L and R = R and refs = refs] result_syncCD [OF same]] phase,
      simp_all only: append_assoc kind_simps fst_conv snd_conv prod.inject, goal_cases)
    case 1
    then show ?case by (intro quiet)
  next
    case 2
    then show ?case by (intro fin) auto
  next
    case 3
    then show ?case using quiet [where ?es1.0 = "[]"] by simp
  qed
qed

lemma wp_advance:
  assumes same: "same_object svc s"
    and Q: "\<And>out es. late_run E L R svc refs t es \<Longrightarrow> Q out (t @ es)"
  shows "wp (advance E L R svc s found token refs) Q t"
proof -
  have quiet: "Q out (t @ es)" if "list_all (late L R svc refs) es" for out es
    by (rule Q, rule late_run.open_run) (rule that)
  have fin: "Q out (t @ es @ [EvService (VPatchStatus True svc y r)])"
    if "list_all (late L R svc refs) es" "built s (y, out')" for out es y r out'
    using Q [of "es @ [EvService (VPatchStatus True svc y r)]" out]
      late_run.patched [of L R svc refs es E t y r] that same same_object_trans
    by (auto simp: patch_ok_def built_def)
  have settle: "wp (settle_pipeline E L svc s') Q (t @ es)"
    if "list_all (late L R svc refs) es" "same_object s s'" for s' es
  proof (rule wp_settle_pipeline [where L = L and R = R and refs = refs])
    show "same_object svc s'" using same that(2) by (rule same_object_trans)
    show "Q out ((t @ es) @ es')" if "late_run E L R svc refs (t @ es) es'" for out es'
      using Q [OF late_run_prepend [OF _ that]] \<open>list_all (late L R svc refs) es\<close> by simp
  qed
  have own: "wp (ensureOwnCI E L R s refs) (\<lambda>r _. same_object s (fst r)) t'" for t'
    unfolding ensureOwnCI_def
    by (intro wp_intros wp_frame [OF emits_ensureCI [OF same_object_refl]]) (auto split: sum.splits)
  have emits_own: "emits (ensureOwnCI E L R s refs) (late L R svc refs)"
    unfolding ensureOwnCI_def by (intro emits_intros emits_ensureCI same) simp
  show ?thesis
    unfolding advance_def svc_patch_def
  proof (intro wp_intros wp_both [OF emits_own own]
      wp_both [OF emits_discoverAndBuild [OF same, where L = L and R = R and refs = refs] result_discoverAndBuild [OF same_object_refl]],
      simp_all only: append_assoc kind_simps fst_conv snd_conv prod.inject, goal_cases)
    case 1
    then show ?case by (intro settle) auto
  next
    case 2
    then show ?case by (intro quiet)
  next
    case 3
    then show ?case by (intro quiet)
  next
    case 4
    then show ?case by (intro fin)
  next
    case 5
    then show ?case by (intro settle) (auto simp: built_def)
  qed
qed

lemma wp_pollForCommit:
  assumes Q: "\<And>r es. list_all (late L R svc refs) es \<Longrightarrow>
     (\<And>err. r = Inl err \<Longrightarrow> run_state (HasRevisionChanged E L (src_repo (svs_source (sv_spec_of svc)))
        (src_revision (svs_source (sv_spec_of svc))) (svst_latest_revision (sv_status_of svc)) token) t = (Inl err, t @ es)) \<Longrightarrow>
     (\<And>s found. r = Inr (s, found) \<Longrightarrow> same_object svc s) \<Longrightarrow> Q r (t @ es)"
  shows "wp (pollForCommit E L svc token) Q t"
proof (rule wpI)
  let ?m = "HasRevisionChanged E L (src_repo (svs_source (sv_spec_of svc))) (src_revision (svs_source (sv_spec_of svc)))
    (svst_latest_revision (sv_status_of svc)) token"
  fix r t' assume run: "run_state (pollForCommit E L svc token) t = (r, t')"
  obtain r0 t0 where r0: "run_state ?m t = (r0, t0)" by fastforce
  from emitsD [OF emits_late_revision(2) r0, of R svc refs] obtain es where es: "t0 = t @ es" "list_all (late L R svc refs) es" by blast
  have t': "t' = t @ es" and r: "r = (case r0 of Inl err \<Rightarrow> Inl err
      | Inr (changed, rv) \<Rightarrow> if \<not> changed then Inr (svc, None) else Inr (detect_push L (env_now E (t @ es)) svc rv, Some rv))"
    using run by (auto simp: pollForCommit_def r0 es(1))
  show "Q r t'"
    unfolding t'
  proof (rule Q [OF es(2)])
    show "run_state ?m t = (Inl err, t @ es)" if "r = Inl err" for err
      using that r0 es(1) unfolding r by (auto split: sum.splits prod.splits if_splits)
    show "same_object svc s" if "r = Inr (s, found)" for s found
      using that unfolding r by (auto split: sum.splits prod.splits if_splits)
  qed
qed

lemma wp_find_revision:
  assumes Q: "\<And>out es. late_run E L R svc refs t es \<Longrightarrow> Q out (t @ es)"
  shows "wp (find_revision E L R svc token refs) Q t"
proof -
  have fin: "Q out (t @ es @ [EvService (VPatchStatus True svc y r)])"
    if "list_all (late L R svc refs) es" "same_object svc y" "svst_phase (sv_status_of y) = ServicePhaseReady \<longrightarrow> poll_failed E L svc t es y"
    for out es y r
    using Q [of "es @ [EvService (VPatchStatus True svc y r)]" out]
      late_run.patched [of L R svc refs es E t y r] that by (auto simp: patch_ok_def)
  have fin_msg: "Q out (t @ es @ [EvService (VPatchStatus True svc (svc\<lparr>sv_status_of := (sv_status_of svc)\<lparr>svst_message :=
      ''Could not check for new commits: '' @ err_msg err\<rparr>\<rparr>) r)])"
    if "list_all (late L R svc refs) es" "run_state (HasRevisionChanged E L (src_repo (svs_source (sv_spec_of svc)))
      (src_revision (svs_source (sv_spec_of svc))) (svst_latest_revision (sv_status_of svc)) token) t = (Inl err, t @ es)" for out es err r
  proof (rule fin [OF that(1)])
    have "poll_failed E L svc t es (with_message svc (''Could not check for new commits: '' @ err_msg err))"
      unfolding poll_failed_def using that(2) by (metis append_Nil2)
    then show "svst_phase (sv_status_of (svc\<lparr>sv_status_of := (sv_status_of svc)\<lparr>svst_message := ''Could not check for new commits: '' @ err_msg err\<rparr>\<rparr>)) = ServicePhaseReady
        \<longrightarrow> poll_failed E L svc t es (svc\<lparr>sv_status_of := (sv_status_of svc)\<lparr>svst_message := ''Could not check for new commits: '' @ err_msg err\<rparr>\<rparr>)"
      unfolding with_message_def by (rule impI)
  qed simp
  have adv: "wp (advance E L R svc s found token refs) Q (t @ es)"
    if "list_all (late L R svc refs) es" "same_object svc s" for s found es
  proof (rule wp_advance [OF that(2)])
    show "Q out ((t @ es) @ es')" if "late_run E L R svc refs (t @ es) es'" for out es'
      using Q [OF late_run_prepend [OF _ that]] \<open>list_all (late L R svc refs) es\<close> by simp
  qed
  show ?thesis
    unfolding find_revision_def svc_finish_def svc_patch_def
  proof (intro wp_intros wp_pollForCommit [where R = R and refs = refs] wp_frame [OF emits_late_revision(1) [where L = L and R = R and svc = svc and refs = refs]],
      simp_all only: append_assoc kind_simps sum.case prod.case, goal_cases)
    case 1
    then show ?case by (intro fin) auto
  next
    case 2
    then show ?case by (intro adv) auto
  next
    case 3
    then show ?case by (intro fin_msg) auto
  next
    case 4
    then show ?case by (intro adv) auto
  qed
qed

text \<open>Every run after the Service was read.\<close>

inductive service_flow :: "env \<Rightarrow> klib \<Rightarrow> service_reconciler \<Rightarrow> service \<Rightarrow> trace \<Rightarrow> trace \<Rightarrow> bool" for E L R svc h where
  idle: "service_flow E L R svc h []"
| failed: "list_all early es \<Longrightarrow> same_object svc y \<Longrightarrow> svst_phase (sv_status_of y) = ServicePhaseFailed \<Longrightarrow>
    service_flow E L R svc h (es @ [EvService (VPatchStatus True svc y r)])"
| work: "list_all early es \<Longrightarrow> select_plugins L svc items = Inr refs \<Longrightarrow> late_run E L R svc refs (h @ es @ [EvPlugin (VList (m_namespace (sv_meta svc)) ListAll (Inr items))]) es' \<Longrightarrow>
    service_flow E L R svc h (es @ [EvPlugin (VList (m_namespace (sv_meta svc)) ListAll (Inr items))] @ es')"

lemma wp_service_body:
  assumes Q: "\<And>out es. service_flow E L R svc t es \<Longrightarrow> Q out (t @ es)"
  shows "wp (service_body E L R svc) Q t"
proof -
  have tok: "emits (gitToken E R svc) early"
    unfolding gitToken_def Let_def
    by (intro emits_intros emits_weaken [OF emits_get_secret]) (auto elim: is_secret_read.elims)
  have fin: "Q out (t @ es @ [EvService (VPatchStatus True svc (markFailed L n svc reason msg) r)])"
    if "list_all early es" for out es n reason msg r
    using Q [of "es @ [EvService (VPatchStatus True svc (markFailed L n svc reason msg) r)]" out]
      service_flow.failed [OF that, of svc "markFailed L n svc reason msg" E L R t r] by simp
  have work: "wp (find_revision E L R svc token refs) Q (t @ es @ [EvPlugin (VList (m_namespace (sv_meta svc)) ListAll (Inr items))])"
    if "list_all early es" "select_plugins L svc items = Inr refs" for es items refs token
  proof (rule wp_find_revision)
    show "Q out ((t @ es @ [EvPlugin (VList (m_namespace (sv_meta svc)) ListAll (Inr items))]) @ es')"
      if "late_run E L R svc refs (t @ es @ [EvPlugin (VList (m_namespace (sv_meta svc)) ListAll (Inr items))]) es'" for out es'
      using Q [OF service_flow.work [OF \<open>list_all early es\<close> \<open>select_plugins L svc items = Inr refs\<close> that]] by simp
  qed
  show ?thesis
    unfolding service_body_def resolvePlugins_def svc_finish_def svc_patch_def Let_def
  proof (intro wp_intros wp_frame [OF tok], simp_all only: append_assoc kind_simps, goal_cases)
    case (1 n)
    show ?case using Q [OF service_flow.idle, of "(requeue_after (retryWait L n svc), None)"] by simp
  next
    case 2
    then show ?case by (intro fin)
  next
    case (3 n tok es m token r k err)
    then have "list_all early (es @ [EvPlugin (VList (m_namespace (sv_meta svc)) ListAll r)])" by simp
    from fin [OF this] show ?case by simp
  next
    case (4 n tok es m token r k refs)
    from 4(5) obtain items where "r = Inr items" "select_plugins L svc items = Inr refs"
      by (auto split: sum.splits)
    with work 4(3) show ?case by simp
  next
    case 5
    then show ?case using fin [of "[]"] by simp
  next
    case (6 n)
    show ?case using Q [OF service_flow.idle, of "(no_requeue, None)"] by simp
  qed
qed

definition live_service :: "klib \<Rightarrow> service \<Rightarrow> bool" where
  "live_service L s \<longleftrightarrow> m_deletion (sv_meta s) = None \<and> lib_contains_finalizer L serviceFinalizer (sv_meta s)"

lemma run_service_reconcile:
  assumes "run_state (service_reconcile E L R key) t = (out, t')"
  obtains (read) r where "t' = t @ [EvService (VGet key r)]"
  | (finalizer) s s' u where "t' = t @ [EvService (VGet key (Inr s)), EvService (VUpdate s' u)]" "\<not> live_service L s"
  | (body) s es where "live_service L s" "t' = t @ EvService (VGet key (Inr s)) # es" "service_flow E L R s (t @ [EvService (VGet key (Inr s))]) es"
proof -
  let ?step = "finalizer_step E L services sv_meta (\<lambda>f s. s\<lparr>sv_meta := f (sv_meta s)\<rparr>) serviceFinalizer key (service_body E L R)"
  obtain out' where run: "run_state ?step t = (out', t')"
    using assms unfolding service_reconcile_def run_restart by (cases "run_state ?step t") auto
  from run show thesis
  proof (cases rule: service_kind.step_run)
    case (failed err)
    then show thesis using read by simp
  next
    case (finalizer s s' u)
    then show thesis using that(2) by (auto simp: live_service_def)
  next
    case (gone s)
    then show thesis using read by simp
  next
    case (body s)
    have "wp (service_body E L R s) (\<lambda>out t'. \<exists>es. service_flow E L R s (t @ [EvService (VGet key (Inr s))]) es \<and> t' = (t @ [EvService (VGet key (Inr s))]) @ es)
        (t @ [EvService (VGet key (Inr s))])"
      by (rule wp_service_body) blast
    from wpD [OF this] body(3) obtain es where
      "service_flow E L R s (t @ [EvService (VGet key (Inr s))]) es" "t' = (t @ [EvService (VGet key (Inr s))]) @ es" by auto
    with body(1,2) that(3) show thesis by (simp add: live_service_def)
  qed
qed

lemma early_not_patch: "list_all early es \<Longrightarrow> EvService v \<notin> set es"
  by (auto simp: list_all_iff)

lemma late_not_patch: "list_all (late L R svc refs) es \<Longrightarrow> EvService v \<notin> set es"
  by (auto simp: list_all_iff)

lemma patch_last:
  assumes "es @ [e] = pre @ [e'] @ suf" "e' \<notin> set es"
  shows "pre = es \<and> e' = e \<and> suf = []"
  using assms by (induction suf rule: rev_induct) (auto simp flip: append_assoc)

lemma service_flow_patch:
  assumes "service_flow E L R svc h es" "es = pre @ [EvService (VPatchStatus lock orig y r)] @ suf"
  shows "lock \<and> orig = svc \<and> suf = [] \<and> same_object svc y
     \<and> (svst_phase (sv_status_of y) = ServicePhaseReady \<longrightarrow> poll_failed E L svc h pre y \<or> ready_evidence y pre)"
  using assms(1)
proof cases
  case idle
  with assms(2) show ?thesis by simp
next
  case (failed es' y' r')
  from patch_last [OF _ early_not_patch [OF failed(2)]] failed(1) assms(2)
  have "pre = es'" "EvService (VPatchStatus lock orig y r) = EvService (VPatchStatus True svc y' r')" "suf = []" by metis+
  with failed show ?thesis by auto
next
  case (work es1 items refs es2)
  let ?list = "EvPlugin (VList (m_namespace (sv_meta svc)) ListAll (Inr items))"
  from work(4) show ?thesis
  proof cases
    case open_run
    have "EvService (VPatchStatus lock orig y r) \<notin> set es"
      using work(1) early_not_patch [OF work(2)] late_not_patch [OF open_run] by auto
    with assms(2) show ?thesis by simp
  next
    case (patched es' y' r')
    have "es = (es1 @ [?list] @ es') @ [EvService (VPatchStatus True svc y' r')]" using work(1) patched(1) by simp
    moreover have "EvService (VPatchStatus lock orig y r) \<notin> set (es1 @ [?list] @ es')"
      using early_not_patch [OF work(2)] late_not_patch [OF patched(2)] by auto
    ultimately have eq: "pre = es1 @ [?list] @ es'" "y = y'" "suf = []" "lock" "orig = svc"
      using patch_last [of "es1 @ [?list] @ es'" "EvService (VPatchStatus True svc y' r')" pre "EvService (VPatchStatus lock orig y r)" suf]
        assms(2) by auto
    from patched(3) eq show ?thesis
      using ready_evidence_append [of y' es' "es1 @ [?list]"] poll_failed_prepend [of E L svc h "es1 @ [?list]" es' y']
      by (auto simp: patch_ok_def)
  qed
qed

lemma service_flow_ci:
  assumes "service_flow E L R svc h es" "EvCI (VStore x r) \<in> set es"
  shows "\<exists>items target x0. EvPlugin (VList (m_namespace (sv_meta svc)) ListAll (Inr items)) \<in> set es
     \<and> select_plugins L svc items = Inr (ct_plugins target) \<and> ci_object L R svc target x0 = Inr x"
  using assms(1)
proof cases
  case (work es1 items refs es2)
  have "EvCI (VStore x r) \<notin> set es1" using work(2) by (auto simp: list_all_iff)
  moreover have "late L R svc refs (EvCI (VStore x r))" if "EvCI (VStore x r) \<in> set es2"
    using work(4) that by cases (auto simp: list_all_iff)
  ultimately show ?thesis using assms(2) work(1,3) by auto
qed (use assms(2) in \<open>auto simp: list_all_iff\<close>)

lemma ci_object_plugins:
  assumes "ci_object L R svc target x0 = Inr x"
  shows "cis_plugins (ci_spec_of x) = ct_plugins target \<and> cis_revision (ci_spec_of x) = ct_sha target
     \<and> ref_name (cis_service (ci_spec_of x)) = m_name (sv_meta svc)
     \<and> rs_registry (cis_registry (ci_spec_of x)) \<noteq> ''''"
  using assms by (auto simp: ci_object_def applyRegistry_def Let_def split: option.splits sum.splits if_splits)

lemma first_invalid_None: "first_invalid ps = None \<longleftrightarrow> list_all (\<lambda>p. Validate p = None) ps"
  by (induction ps) (auto split: option.splits)

lemma select_plugins_Inr:
  "select_plugins L svc items = Inr refs \<longleftrightarrow>
     (\<exists>attached. Resolve L id svc items = (attached, []) \<and> list_all (\<lambda>p. Validate p = None) attached \<and> refs = Refs attached)"
  by (cases "Resolve L id svc items")
    (auto simp: select_plugins_def simp flip: first_invalid_None split: if_splits option.splits)

section \<open>Properties\<close>

text \<open>C5: A run of the Service reconciler writes the phase Ready only on this evidence, read in the same run:
  the CI named in the status builds the latest revision and has succeeded with it, and the CD named in
  the status is Running that revision. The one exception: a Service that was Ready already, whose remote the run then
  polled for a new commit as the last thing before the write and without success, keeps its status but for the
  message, which gives the error of that poll.\<close>

theorem service_ready_evidence:
  assumes "run_state (service_reconcile E L R key) t = (out, t @ pre @ [EvService (VPatchStatus lock orig y r)] @ suf)"
    and "svst_phase (sv_status_of y) = ServicePhaseReady"
  shows "(\<exists>x d. EvCI (VGet (m_namespace (sv_meta y), svst_ci_ref (sv_status_of y)) (Inr x)) \<in> set pre
       \<and> cis_revision (ci_spec_of x) = svst_latest_revision (sv_status_of y)
       \<and> cst_phase (ci_status_of x) = CIPhaseSucceeded
       \<and> cst_revision (ci_status_of x) = svst_latest_revision (sv_status_of y)
       \<and> EvCD (VGet (m_namespace (sv_meta y), svst_cd_ref (sv_status_of y)) (Inr d)) \<in> set pre
       \<and> cdst_phase (cd_status_of d) = CDPhaseRunning
       \<and> cdst_revision (cd_status_of d) = svst_latest_revision (sv_status_of y))
     \<or> (EvService (VGet key (Inr orig)) \<in> set pre \<and> svst_phase (sv_status_of orig) = ServicePhaseReady
       \<and> (\<exists>token u err. run_state (HasRevisionChanged E L (src_repo (svs_source (sv_spec_of orig)))
             (src_revision (svs_source (sv_spec_of orig))) (svst_latest_revision (sv_status_of orig)) token) (t @ u)
               = (Inl err, t @ pre)
           \<and> y = with_message orig (''Could not check for new commits: '' @ err_msg err)))"
  using assms(1)
proof (cases rule: run_service_reconcile)
  case (read r')
  then show ?thesis by (auto simp: append_eq_Cons_conv Cons_eq_append_conv)
next
  case (finalizer s s' u)
  then show ?thesis by (auto simp: append_eq_Cons_conv Cons_eq_append_conv)
next
  case (body s es)
  then obtain rest where rest: "pre = EvService (VGet key (Inr s)) # rest"
    "es = rest @ [EvService (VPatchStatus lock orig y r)] @ suf"
    by (cases pre) auto
  from service_flow_patch [OF body(3) rest(2)] assms(2) have orig: "orig = s"
    and or: "poll_failed E L s (t @ [EvService (VGet key (Inr s))]) rest y \<or> ready_evidence y rest" by blast+
  from or show ?thesis
  proof
    assume "poll_failed E L s (t @ [EvService (VGet key (Inr s))]) rest y"
    then have p: "poll_failed E L s t pre y" using poll_failed_prepend [of E L s t "[EvService (VGet key (Inr s))]"] rest(1) by simp
    then have "svst_phase (sv_status_of s) = ServicePhaseReady"
      using assms(2) by (auto simp: poll_failed_def with_message_def)
    with p show ?thesis unfolding poll_failed_def using orig rest(1) by (intro disjI2) auto
  next
    assume "ready_evidence y rest"
    then show ?thesis unfolding ready_evidence_def Let_def using rest(1) by (intro disjI1) auto
  qed
qed

text \<open>C6: The Service reconciler points a CI at a build only with the plugins it resolved in the same run: all
  live plugins attached to the Service and every one its spec names, each of them valid, pinned at their
  generation. A build is never set up with a check silently left out.\<close>

theorem service_ci_checks_complete:
  assumes "run_state (service_reconcile E L R key) t = (out, t @ es)" "EvCI (VStore x r) \<in> set es"
  shows "\<exists>s items attached. EvService (VGet key (Inr s)) \<in> set es
     \<and> EvPlugin (VList (m_namespace (sv_meta s)) ListAll (Inr items)) \<in> set es
     \<and> set attached = attached_set L s items \<and> list_all (\<lambda>p. Validate p = None) attached
     \<and> filter (\<lambda>q. map_of (by_name s items) (plr_name q) = None) (svs_plugins (sv_spec_of s)) = []
     \<and> cis_plugins (ci_spec_of x) = Refs attached"
  using assms(1)
proof (cases rule: run_service_reconcile)
  case (body s es')
  then have es: "es = EvService (VGet key (Inr s)) # es'" by simp
  with assms(2) have "EvCI (VStore x r) \<in> set es'" by auto
  from service_flow_ci [OF body(3) this] obtain items target x0 where
    i: "EvPlugin (VList (m_namespace (sv_meta s)) ListAll (Inr items)) \<in> set es'"
    "select_plugins L s items = Inr (ct_plugins target)" "ci_object L R s target x0 = Inr x" by blast
  from i(2) obtain attached where att: "Resolve L id s items = (attached, [])"
    "list_all (\<lambda>p. Validate p = None) attached" "ct_plugins target = Refs attached"
    by (auto simp: select_plugins_Inr)
  have set: "set attached = attached_set L s items"
    "[] = map plr_name (filter (\<lambda>q. map_of (by_name s items) (plr_name q) = None) (svs_plugins (sv_spec_of s)))"
    using Resolve_spec [where order = id, OF _ att(1)] by simp_all
  show ?thesis
    by (rule exI [of _ s], rule exI [of _ items], rule exI [of _ attached])
      (use set att i es ci_object_plugins [OF i(3)] in simp)
qed (use assms(2) in auto)

text \<open>
  A Service whose pipeline is set up: it tracks a commit, names no Secret and no plugins, and has one CI, whose spec is at
  that commit, and one CD. The API server answers: there are no plugins, and the CI of that name is fetched.
\<close>

definition pipeline_answers :: "env \<Rightarrow> klib \<Rightarrow> nsname \<Rightarrow> service \<Rightarrow> ci \<Rightarrow> cd \<Rightarrow> bool" where
  "pipeline_answers E L key s x d \<longleftrightarrow>
     (\<forall>t. ka_get (env_service E) t key = Inr s)
   \<and> (\<forall>t ns opt. ka_list (env_plugin E) t ns opt = Inr [])
   \<and> (\<forall>t ns opt. ka_list (env_ci E) t ns opt = Inr [x])
   \<and> (\<forall>t. \<exists>b. ka_fetch (env_ci E) t (empty_ci (m_name (ci_meta x)) (m_namespace (sv_meta s))) = Inr b
        \<and> m_namespace (ci_meta b) = m_namespace (sv_meta s))
   \<and> (\<forall>t a. \<exists>b. ka_store (env_ci E) t a = Inr b)
   \<and> (\<forall>t. ka_get (env_ci E) t (m_namespace (sv_meta s), m_name (ci_meta x)) = Inr x)
   \<and> (\<forall>t ns opt. ka_list (env_cd E) t ns opt = Inr [d])
   \<and> (\<forall>t a b. \<exists>c. ka_patch (env_cd E) t a b = Inr c)
   \<and> (\<forall>t. ka_get (env_cd E) t (m_namespace (sv_meta s), m_name (cd_meta d)) = Inr d)
   \<and> (\<forall>t l a b. \<exists>c. ka_patch_status (env_service E) t l a b = Inr c)
   \<and> owner_lib L (service_owner s) (m_namespace (sv_meta s)) \<and> (\<forall>m. lib_get_controller L m = m_controller m)"

definition pipeline_set :: "klib \<Rightarrow> service \<Rightarrow> ci \<Rightarrow> cd \<Rightarrow> bool" where
  "pipeline_set L s x d \<longleftrightarrow> (let latest = svst_latest_revision (sv_status_of s) in
     validateSource L s = None \<and> src_secret_ref (svs_source (sv_spec_of s)) = None \<and> svs_plugins (sv_spec_of s) = []
   \<and> is_sha latest \<and> src_revision (svs_source (sv_spec_of s)) = latest
   \<and> discovered L s \<and> svst_phase (sv_status_of s) \<noteq> ServicePhaseFailed
   \<and> ref_name (cis_service (ci_spec_of x)) = m_name (sv_meta s) \<and> m_deletion (ci_meta x) = None
   \<and> cis_revision (ci_spec_of x) = latest \<and> m_name (cd_meta d) \<noteq> '''' \<and> m_deletion (cd_meta d) = None)"

text \<open>The pipeline is through: the CI has built the commit and the CD runs it.\<close>

definition pipeline_through :: "klib \<Rightarrow> service \<Rightarrow> ci \<Rightarrow> cd \<Rightarrow> bool" where
  "pipeline_through L s x d \<longleftrightarrow> (let latest = svst_latest_revision (sv_status_of s) in
     pipeline_set L s x d \<and> cst_phase (ci_status_of x) = CIPhaseSucceeded \<and> cst_revision (ci_status_of x) = latest
   \<and> cdst_phase (cd_status_of d) = CDPhaseRunning \<and> cdst_revision (cd_status_of d) = latest)"

lemma Resolve_none: "svs_plugins (sv_spec_of s) = [] \<Longrightarrow> Resolve L id s [] = ([], [])"
  by (simp add: Resolve_def by_name_def)

definition with_refs :: "service \<Rightarrow> ci \<Rightarrow> cd \<Rightarrow> service" where
  \<comment> \<open>the Service in memory once its CI and its CD are found\<close>
  "with_refs s x d = s\<lparr>sv_status_of := (sv_status_of s)\<lparr>svst_ci_ref := m_name (ci_meta x), svst_cd_ref := m_name (cd_meta d)\<rparr>\<rparr>"

lemma with_refs_simps [simp]:
  "sv_meta (with_refs s x d) = sv_meta s" "svst_latest_revision (sv_status_of (with_refs s x d)) = svst_latest_revision (sv_status_of s)"
  "svst_ci_ref (sv_status_of (with_refs s x d)) = m_name (ci_meta x)" "svst_cd_ref (sv_status_of (with_refs s x d)) = m_name (cd_meta d)"
  by (simp_all add: with_refs_def)

lemma run_ensureOwnCI:
  assumes E: "pipeline_answers E L key s x d" and p: "pipeline_set L s x d"
  shows "\<exists>es. run_state (ensureOwnCI E L R s []) t
      = ((s\<lparr>sv_status_of := (sv_status_of s)\<lparr>svst_ci_ref := m_name (ci_meta x)\<rparr>\<rparr>, None), t @ es) \<and> (\<exists>w u. EvCI (VStore w u) \<in> set es)"
proof -
  have name: "ci_name_for s [x] = Inr (m_name (ci_meta x))"
    using p by (simp add: ci_name_for_def pipeline_set_def Let_def)
  let ?e = "empty_ci (m_name (ci_meta x)) (m_namespace (sv_meta s))"
  let ?t = "t @ [EvCI (VList (m_namespace (sv_meta s)) ListAll (Inr [x]))]"
  have "\<forall>t. \<exists>b. ka_fetch (env_ci E) t ?e = Inr b \<and> m_namespace (ci_meta b) = m_namespace (sv_meta s)"
    using E by (simp add: pipeline_answers_def)
  then obtain b where b: "ka_fetch (env_ci E) ?t ?e = Inr b" "m_namespace (ci_meta b) = m_namespace (sv_meta s)" by blast
  have L: "owner_lib L (service_owner s) (m_namespace (sv_meta s))" "\<And>m. lib_get_controller L m = m_controller m"
    using E by (simp_all add: pipeline_answers_def)
  have "\<exists>c. ci_object L R s target b = Inr c" for target
    using owner_libD [OF L(1), of "(ci_meta b)\<lparr>m_labels := (m_labels (ci_meta b))(labelService \<mapsto> m_name (sv_meta s),
        labelLanguage \<mapsto> ct_language target)\<rparr>"] b(2)
    by (auto simp: ci_object_def applyRegistry_def Let_def L(2) split: option.split)
  then obtain oc where oc: "\<And>target. ci_object L R s target b = Inr (oc target)" by metis
  obtain sc where sc: "\<And>t a. ka_store (env_ci E) t a = Inr (sc t a)" using E unfolding pipeline_answers_def by metis
  show ?thesis
    using E name b(1) by (simp add: ensureOwnCI_def ensureCI_def create_or_update_def k_defs pipeline_answers_def sc oc)
qed

lemma run_settle_pipeline:
  assumes E: "pipeline_answers E L key s x d" and p: "pipeline_set L s x d"
  shows "\<exists>es y r n n'. run_state (settle_pipeline E L s (s\<lparr>sv_status_of := (sv_status_of s)\<lparr>svst_ci_ref := m_name (ci_meta x)\<rparr>\<rparr>)) t
      = ((requeue_after pushPollInterval, None), t @ es @ [EvService (VPatchStatus True s y r)])
    \<and> y = (case ci_verdict L n (with_refs s x d) x of Some y \<Rightarrow> y | None \<Rightarrow> cd_verdict L n' (with_refs s x d) d)"
proof -
  let ?s1 = "s\<lparr>sv_status_of := (sv_status_of s)\<lparr>svst_ci_ref := m_name (ci_meta x)\<rparr>\<rparr>"
  let ?s2 = "with_refs s x d"
  obtain pd where pd: "\<And>t a b. ka_patch (env_cd E) t a b = Inr (pd t a b)" using E unfolding pipeline_answers_def by metis
  obtain ps where ps: "\<And>t l a b. ka_patch_status (env_service E) t l a b = Inr (ps t l a b)"
    using E unfolding pipeline_answers_def by metis
  obtain es1 where es1: "run_state (syncCD E ?s1) t = ((?s2, None), t @ es1)"
    using E p by (simp add: syncCD_def k_defs pipeline_answers_def pipeline_set_def Let_def pd with_refs_def)
  have "\<exists>es n n'. run_state (setPipelinePhase E L ?s2) (t @ es1) = (Inr (case ci_verdict L n ?s2 x of Some y \<Rightarrow> y
      | None \<Rightarrow> cd_verdict L n' ?s2 d), (t @ es1) @ es)"
  proof (cases "ci_verdict L (env_now E ((t @ es1) @ [EvCI (VGet (m_namespace (sv_meta s), m_name (ci_meta x)) (Inr x))])) ?s2 x")
    case None
    then show ?thesis
      using E p by (intro exI [of _ "[EvCI (VGet (m_namespace (sv_meta s), m_name (ci_meta x)) (Inr x)),
          EvCD (VGet (m_namespace (sv_meta s), m_name (cd_meta d)) (Inr d))]"]
          exI [of _ "env_now E ((t @ es1) @ [EvCI (VGet (m_namespace (sv_meta s), m_name (ci_meta x)) (Inr x))])"]
          exI [of _ "env_now E ((t @ es1) @ [EvCI (VGet (m_namespace (sv_meta s), m_name (ci_meta x)) (Inr x)),
            EvCD (VGet (m_namespace (sv_meta s), m_name (cd_meta d)) (Inr d))])"])
        (simp add: setPipelinePhase_def pipeline_cd_def k_defs pipeline_answers_def pipeline_set_def Let_def)
  next
    case (Some y)
    then show ?thesis
      using E p by (intro exI [of _ "[EvCI (VGet (m_namespace (sv_meta s), m_name (ci_meta x)) (Inr x))]"]
          exI [of _ "env_now E ((t @ es1) @ [EvCI (VGet (m_namespace (sv_meta s), m_name (ci_meta x)) (Inr x))])"])
        (simp add: setPipelinePhase_def k_defs pipeline_answers_def pipeline_set_def Let_def)
  qed
  then obtain es2 n n' where es2: "run_state (setPipelinePhase E L ?s2) (t @ es1) = (Inr (case ci_verdict L n ?s2 x of Some y \<Rightarrow> y
      | None \<Rightarrow> cd_verdict L n' ?s2 d), (t @ es1) @ es2)" by blast
  let ?y = "case ci_verdict L n ?s2 x of Some y \<Rightarrow> y | None \<Rightarrow> cd_verdict L n' ?s2 d"
  have "run_state (settle_pipeline E L s ?s1) t = ((requeue_after pushPollInterval, None),
      t @ (es1 @ es2) @ [EvService (VPatchStatus True s ?y (Inr (ps (t @ es1 @ es2) True s ?y)))])"
    using es2 by (simp add: settle_pipeline_def svc_patch_def k_defs es1 ps)
  then show ?thesis by blast
qed

text \<open>Such a Service is settled in one run: the status written is the verdict on the CI and the CD.\<close>

lemma run_service_settles:
  assumes E: "pipeline_answers E L key s x d" and live: "live_service L s" and p: "pipeline_set L s x d"
  shows "\<exists>es y r n n'. run_state (service_reconcile E L R key) t = ((requeue_after pushPollInterval, None),
      t @ es @ [EvService (VPatchStatus True s y r)])
    \<and> y = (case ci_verdict L n (with_refs s x d) x of Some y \<Rightarrow> y | None \<Rightarrow> cd_verdict L n' (with_refs s x d) d)
    \<and> (\<exists>w u. EvCI (VStore w u) \<in> set es)"
proof -
  let ?s1 = "s\<lparr>sv_status_of := (sv_status_of s)\<lparr>svst_ci_ref := m_name (ci_meta x)\<rparr>\<rparr>"
  have valid: "validateSource L s = None" "src_secret_ref (svs_source (sv_spec_of s)) = None"
    "svs_plugins (sv_spec_of s) = []" "is_sha (src_revision (svs_source (sv_spec_of s)))"
    "src_revision (svs_source (sv_spec_of s)) = svst_latest_revision (sv_status_of s)"
    "discovered L s" "svst_phase (sv_status_of s) \<noteq> ServicePhaseFailed"
    using p by (simp_all add: pipeline_set_def Let_def)
  have gen: "svst_observed_generation (sv_status_of s) = m_generation (sv_meta s)"
    using valid(6) by (simp add: discovered_def split: if_splits)
  have get: "ka_get (env_service E) t key = Inr s" "ka_list (env_plugin E) t' ns opt = Inr []" for t t' ns opt
    using E by (simp_all add: pipeline_answers_def)
  let ?t1 = "t @ [EvService (VGet key (Inr s))]"
  let ?t2 = "?t1 @ [EvPlugin (VList (m_namespace (sv_meta s)) ListAll (Inr []))]"
  obtain es1 where es1: "run_state (ensureOwnCI E L R s []) ?t2 = ((?s1, None), ?t2 @ es1)"
    and store: "\<exists>w u. EvCI (VStore w u) \<in> set es1" using run_ensureOwnCI [OF E p] by blast
  obtain es2 y r n n' where es2: "run_state (settle_pipeline E L s ?s1) (?t2 @ es1) = ((requeue_after pushPollInterval, None),
      (?t2 @ es1) @ es2 @ [EvService (VPatchStatus True s y r)])"
    and y: "y = (case ci_verdict L n (with_refs s x d) x of Some y \<Rightarrow> y | None \<Rightarrow> cd_verdict L n' (with_refs s x d) d)"
    using run_settle_pipeline [OF E p] by blast
  have "run_state (advance E L R s s None '''' []) ?t2 = ((requeue_after pushPollInterval, None),
      (?t2 @ es1) @ es2 @ [EvService (VPatchStatus True s y r)])"
    using es1 es2 by (simp add: advance_def)
  then have "run_state (service_body E L R s) ?t1 = ((requeue_after pushPollInterval, None),
      (?t2 @ es1) @ es2 @ [EvService (VPatchStatus True s y r)])"
    using valid gen get
    by (simp add: service_body_def gitToken_def resolvePlugins_def k_defs select_plugins_def Resolve_none Refs_def
        find_revision_def pollForCommit_def HasRevisionChanged_def ResolveRevision_def)
  then have "run_state (service_reconcile E L R key) t = ((requeue_after pushPollInterval, None),
      t @ ([EvService (VGet key (Inr s)), EvPlugin (VList (m_namespace (sv_meta s)) ListAll (Inr []))] @ es1 @ es2)
        @ [EvService (VPatchStatus True s y r)])"
    using live get by (simp add: service_reconcile_def run_restart finalizer_step_def k_defs live_service_def)
  moreover have "\<exists>w u. EvCI (VStore w u)
      \<in> set ([EvService (VGet key (Inr s)), EvPlugin (VList (m_namespace (sv_meta s)) ListAll (Inr []))] @ es1 @ es2)"
    using store by auto
  ultimately show ?thesis using y by blast
qed

lemma run_service_through:
  assumes "pipeline_answers E L key s x d" "live_service L s" "pipeline_through L s x d"
  shows "\<exists>es y r. run_state (service_reconcile E L R key) t = ((requeue_after pushPollInterval, None),
      t @ es @ [EvService (VPatchStatus True s y r)])
    \<and> svst_phase (sv_status_of y) = ServicePhaseReady
    \<and> svst_latest_revision (sv_status_of y) = svst_latest_revision (sv_status_of s)
    \<and> (\<exists>w u. EvCI (VStore w u) \<in> set es)"
proof -
  have p: "pipeline_set L s x d" using assms(3) by (simp add: pipeline_through_def Let_def)
  have ready: "(case ci_verdict L n (with_refs s x d) x of Some y \<Rightarrow> y | None \<Rightarrow> cd_verdict L n' (with_refs s x d) d)
      = setRunning L n' (with_refs s x d)" for n n'
    using assms(3) by (simp add: pipeline_through_def pipeline_set_def Let_def ci_verdict_def cd_verdict_def)
  show ?thesis using run_service_settles [OF assms(1,2) p, of R t] unfolding ready by fastforce
qed

definition demo_tracking :: service where
  "demo_tracking = demo_service\<lparr>sv_spec_of := (sv_spec_of demo_service)\<lparr>svs_source :=
       \<lparr>src_repo = ''https://git.example/shop/api'', src_revision = demo_sha, src_secret_ref = None\<rparr>\<rparr>,
     sv_status_of := (sv_status_of demo_service)\<lparr>svst_phase := ServicePhaseBuilding, svst_latest_revision := demo_sha,
       svst_ci_ref := ''api-ci'', svst_observed_generation := 1\<rparr>\<rparr>"

definition demo_through_ci :: ci where
  "demo_through_ci = demo_ci\<lparr>ci_status_of := (ci_status_of demo_ci)\<lparr>cst_phase := CIPhaseSucceeded,
     cst_image := ''registry.example/shop/api:0123456789ab'', cst_revision := demo_sha\<rparr>\<rparr>"

definition demo_through_cd :: cd where
  "demo_through_cd = (empty_cd ''api-cd'' ''shop'')\<lparr>cd_status_of := (cd_status_of (empty_cd ''api-cd'' ''shop''))\<lparr>
     cdst_phase := CDPhaseRunning, cdst_revision := demo_sha\<rparr>\<rparr>"

definition demo_through_env :: env where
  "demo_through_env = env_ref\<lparr>env_service := kapi_ref\<lparr>ka_get := (\<lambda>t key. Inr demo_tracking)\<rparr>,
     env_ci := kapi_ref\<lparr>ka_get := (\<lambda>t key. Inr demo_through_ci), ka_list := (\<lambda>t ns opt. Inr [demo_through_ci])\<rparr>,
     env_cd := kapi_ref\<lparr>ka_get := (\<lambda>t key. Inr demo_through_cd), ka_list := (\<lambda>t ns opt. Inr [demo_through_cd])\<rparr>\<rparr>"

definition demo_service_reconciler :: service_reconciler where
  "demo_service_reconciler = \<lparr>sr_default_registry = ''registry.example'', sr_policy = \<lparr>sp_allow_unlabeled = False\<rparr>\<rparr>"

lemma validateSource_parse:
  "lib_url_parse L = lib_url_parse L' \<Longrightarrow> validateSource L s = validateSource L' s"
  by (simp add: validateSource_def validate_git_url_def cong: option.case_cong)

lemma demo_through:
  "pipeline_answers demo_through_env demo_owner_lib (''shop'', ''api'') demo_tracking demo_through_ci demo_through_cd"
  "live_service demo_owner_lib demo_tracking"
  "pipeline_through demo_owner_lib demo_tracking demo_through_ci demo_through_cd"
proof -
  show "pipeline_answers demo_through_env demo_owner_lib (''shop'', ''api'') demo_tracking demo_through_ci demo_through_cd"
    by (simp add: pipeline_answers_def demo_through_env_def env_ref_def kapi_ref_def demo_owner_lib_def owner_lib_def klib_ref_def
        empty_ci_def fresh_meta_def demo_tracking_def demo_service_def)
  show "live_service demo_owner_lib demo_tracking"
    by (simp add: live_service_def demo_owner_lib_def klib_ref_def demo_tracking_def demo_service_def fresh_meta_def)
  have parse: "lib_url_parse demo_owner_lib = lib_url_parse klib_ref" by (simp add: demo_owner_lib_def)
  have "validateSource klib_ref demo_tracking = None" by code_simp
  then have v: "validateSource demo_owner_lib demo_tracking = None" using validateSource_parse [OF parse] by simp
  have sha: "is_sha demo_sha" by code_simp
  show "pipeline_through demo_owner_lib demo_tracking demo_through_ci demo_through_cd"
    using v sha by (simp add: pipeline_through_def pipeline_set_def demo_tracking_def demo_through_ci_def demo_through_cd_def discovered_def
        demo_service_def demo_ci_def empty_cd_def fresh_meta_def)
qed

lemma demo_stores:
  "\<exists>w r. EvCI (VStore w r) \<in> set (snd (run_state (service_reconcile demo_through_env demo_owner_lib demo_service_reconciler (''shop'', ''api'')) []))"
proof -
  obtain es y r where run: "run_state (service_reconcile demo_through_env demo_owner_lib demo_service_reconciler (''shop'', ''api'')) []
      = ((requeue_after pushPollInterval, None), [] @ es @ [EvService (VPatchStatus True demo_tracking y r)])"
    and "\<exists>w u. EvCI (VStore w u) \<in> set es"
    using run_service_through [OF demo_through, of demo_service_reconciler "[]"] by blast
  then show ?thesis by auto
qed



theorem service_ready_evidence_witness:
  "\<exists>pre y r x. snd (run_state (service_reconcile demo_through_env demo_owner_lib demo_service_reconciler (''shop'', ''api'')) [])
       = pre @ [EvService (VPatchStatus True demo_tracking y r)]
     \<and> EvCI (VGet (m_namespace (sv_meta y), svst_ci_ref (sv_status_of y)) (Inr x)) \<in> set pre"
proof -
  obtain es y r where run: "run_state (service_reconcile demo_through_env demo_owner_lib demo_service_reconciler (''shop'', ''api'')) []
      = ((requeue_after pushPollInterval, None), [] @ es @ [EvService (VPatchStatus True demo_tracking y r)] @ [])"
    and y: "svst_phase (sv_status_of y) = ServicePhaseReady"
    using run_service_through [OF demo_through, of demo_service_reconciler "[]"] by auto
  have "svst_phase (sv_status_of demo_tracking) \<noteq> ServicePhaseReady" by (simp add: demo_tracking_def)
  with service_ready_evidence [OF run y] have
    "\<exists>x. EvCI (VGet (m_namespace (sv_meta y), svst_ci_ref (sv_status_of y)) (Inr x)) \<in> set es" by blast
  with run show ?thesis by (metis append_Nil append_Nil2 snd_conv)
qed

theorem service_ci_checks_complete_witness:
  "\<exists>w r. EvCI (VStore w r) \<in> set (snd (run_state (service_reconcile demo_through_env demo_owner_lib demo_service_reconciler (''shop'', ''api'')) []))
     \<and> (\<exists>attached. cis_plugins (ci_spec_of w) = Refs attached)"
proof -
  let ?run = "run_state (service_reconcile demo_through_env demo_owner_lib demo_service_reconciler (''shop'', ''api'')) []"
  have run: "?run = (fst ?run, [] @ snd ?run)" by simp
  obtain w r where w: "EvCI (VStore w r) \<in> set (snd ?run)" using demo_stores by blast
  from service_ci_checks_complete [OF run w] w show ?thesis by blast
qed

text \<open>A Service that failed in a step of its own and whose spec has not changed is left alone until a minute has
  passed: the run makes no request after reading it and asks to be called when the pause is over, which is at
  most the pause itself away.\<close>

lemma service_retry_pause:
  assumes "\<And>t. ka_get (env_service E) t key = Inr s" "live_service L s" "validateSource L s = None"
    and "svst_phase (sv_status_of s) = ServicePhaseFailed" "\<not> pipelineFailure L s"
    and "svst_observed_generation (sv_status_of s) = m_generation (sv_meta s)"
    and "lib_find_condition L ''Ready'' (svst_conditions (sv_status_of s)) = Some c"
    and "\<And>t. c_transition c \<le> env_now E t \<and> env_now E t < c_transition c + failedRetryInterval"
  shows "\<exists>d. run_state (service_reconcile E L R key) t = ((requeue_after d, None), t @ [EvService (VGet key (Inr s))])
     \<and> 0 < d \<and> d \<le> failedRetryInterval"
proof -
  let ?t = "t @ [EvService (VGet key (Inr s))]"
  have w: "retryWait L (env_now E ?t) s > 0 \<and> retryWait L (env_now E ?t) s \<le> failedRetryInterval"
    using assms(7) assms(8) [of ?t] by (simp add: retryWait_def)
  have "run_state (service_reconcile E L R key) t
      = ((requeue_after (retryWait L (env_now E ?t) s), None), t @ [EvService (VGet key (Inr s))])"
    using assms w by (simp add: service_reconcile_def run_restart finalizer_step_def k_defs live_service_def service_body_def)
  with w show ?thesis by blast
qed

definition demo_failed :: service where
  "demo_failed = demo_service\<lparr>sv_status_of := (sv_status_of demo_service)\<lparr>svst_phase := ServicePhaseFailed,
     svst_observed_generation := 1,
     svst_conditions := [(new_condition ''Ready'' ConditionFalse ''DiscoveryFailed'' ''x'')\<lparr>c_transition := 0\<rparr>]\<rparr>\<rparr>"

lemma service_retry_pause_example:
  "snd (run_state (service_reconcile (env_ref\<lparr>env_service := kapi_ref\<lparr>ka_get := (\<lambda>t k. Inr demo_failed)\<rparr>\<rparr>) klib_ref
     demo_service_reconciler (''shop'', ''api'')) []) = [EvService (VGet (''shop'', ''api'') (Inr demo_failed))]"
proof -
  let ?E = "env_ref\<lparr>env_service := kapi_ref\<lparr>ka_get := (\<lambda>t k. Inr demo_failed)\<rparr>\<rparr>"
  let ?c = "(new_condition ''Ready'' ConditionFalse ''DiscoveryFailed'' ''x'')\<lparr>c_transition := 0\<rparr>"
  have get: "ka_get (env_service ?E) t (''shop'', ''api'') = Inr demo_failed" for t by simp
  have live: "live_service klib_ref demo_failed"
    by (simp add: live_service_def klib_ref_def demo_failed_def demo_service_def fresh_meta_def)
  have v: "validateSource klib_ref demo_failed = None" by code_simp
  have ph: "svst_phase (sv_status_of demo_failed) = ServicePhaseFailed"
    "svst_observed_generation (sv_status_of demo_failed) = m_generation (sv_meta demo_failed)"
    by (simp_all add: demo_failed_def demo_service_def)
  have c: "lib_find_condition klib_ref ''Ready'' (svst_conditions (sv_status_of demo_failed)) = Some ?c"
    by (simp add: klib_ref_def demo_failed_def new_condition_def)
  have np: "\<not> pipelineFailure klib_ref demo_failed"
    using c by (simp add: pipelineFailure_def new_condition_def reasonCIFailed_def reasonCDFailed_def)
  have now: "c_transition ?c \<le> env_now ?E t \<and> env_now ?E t < c_transition ?c + failedRetryInterval" for t
    by (simp add: env_ref_def failedRetryInterval_def)
  from service_retry_pause [OF get live v ph(1) np ph(2) c now, of demo_service_reconciler "[]"] show ?thesis by auto
qed

text \<open>When the Service's source can never work, the run fails the Service without any other request: it never
  reads a Secret, lists plugins or contacts git, and once the failure is recorded it does nothing any more.\<close>

lemma service_invalid_source:
  assumes "ka_get (env_service E) t key = Inr s" "live_service L s" "validateSource L s = Some err"
  shows "\<exists>n r. snd (run_state (service_reconcile E L R key) t) = t @ [EvService (VGet key (Inr s))]
     @ (if svst_phase (sv_status_of s) = ServicePhaseFailed
           \<and> svst_observed_generation (sv_status_of s) = m_generation (sv_meta s) then []
        else [EvService (VPatchStatus True s (markFailed L n s ''InvalidSource'' (err_msg err)) r)])"
  using assms
  by (auto simp: service_reconcile_def run_restart finalizer_step_def k_defs live_service_def service_body_def
      svc_finish_def svc_patch_def split: prod.split)

lemma service_invalid_source_example:
  "\<exists>n r. snd (run_state (service_reconcile (env_ref\<lparr>env_service := kapi_ref\<lparr>ka_get := (\<lambda>t k.
       Inr (demo_service\<lparr>sv_spec_of := (sv_spec_of demo_service)\<lparr>svs_source := \<lparr>src_repo = ''--upload-pack=x'', src_revision = '''',
         src_secret_ref = None\<rparr>\<rparr>\<rparr>))\<rparr>\<rparr>) klib_ref demo_service_reconciler (''shop'', ''api'')) []) = [n, r]"
proof -
  define s where "s = demo_service\<lparr>sv_spec_of := (sv_spec_of demo_service)\<lparr>svs_source := \<lparr>src_repo = ''--upload-pack=x'', src_revision = '''',
         src_secret_ref = None\<rparr>\<rparr>\<rparr>"
  let ?E = "env_ref\<lparr>env_service := kapi_ref\<lparr>ka_get := (\<lambda>t k. Inr s)\<rparr>\<rparr>"
  have get: "ka_get (env_service ?E) [] (''shop'', ''api'') = Inr s" by simp
  have live: "live_service klib_ref s"
    by (simp add: live_service_def klib_ref_def s_def demo_service_def fresh_meta_def)
  have "validateSource klib_ref s \<noteq> None" unfolding s_def by code_simp
  then obtain err where v: "validateSource klib_ref s = Some err" by blast
  have "svst_phase (sv_status_of s) \<noteq> ServicePhaseFailed" by (simp add: s_def demo_service_def)
  with service_invalid_source [OF get live v, of demo_service_reconciler] show ?thesis
    unfolding s_def [symmetric] by auto
qed


definition demo_stale_ci :: ci where
  "demo_stale_ci = demo_ci\<lparr>ci_status_of := (ci_status_of demo_ci)\<lparr>cst_phase := CIPhaseFailed, cst_message := ''exit 1'',
     cst_building_revision := ''feedface''\<rparr>\<rparr>"

definition demo_stale_env :: env where
  "demo_stale_env = demo_through_env\<lparr>
     env_ci := kapi_ref\<lparr>ka_get := (\<lambda>t key. Inr demo_stale_ci), ka_list := (\<lambda>t ns opt. Inr [demo_stale_ci])\<rparr>\<rparr>"


end
