(* ===== verification/Pipeline.thy ===== *)
theory Pipeline
  imports Runs ServiceProofs DiscoveryProofs
begin

text \<open>
  The Service reconciler together with the discovery engine it calls
  (\<^verbatim>\<open>discoverAndBuild\<close> of \<^verbatim>\<open>service_discovery.go\<close> and \<^verbatim>\<open>Engine.Discover\<close> of
  \<^verbatim>\<open>internal/service/discovery.go\<close>): the environment answers a discovery request as the engine
  does on some host. What the engine promises of a Dockerfile then holds of every ConfigMap a run
  stores, whatever the repository holds.
\<close>

section \<open>What a stored ConfigMap holds\<close>

definition discovery_host :: "env \<Rightarrow> (trace \<Rightarrow> host) \<Rightarrow> bool" where
  \<comment> \<open>the reconciler's engine is the one of \<^verbatim>\<open>internal/service\<close>, on some host\<close>
  "discovery_host E H \<longleftrightarrow> (\<forall>t q. env_discover E t q = Discover (H t) q)"

definition request_of :: "service \<Rightarrow> discovery_request \<Rightarrow> bool" where
  "request_of svc q \<longleftrightarrow> (\<exists>rv token. q = discoveryRequest svc rv token)"

definition discovered_by :: "service \<Rightarrow> trace \<Rightarrow> discovery_result \<Rightarrow> bool" where
  "discovered_by svc es res \<longleftrightarrow> (\<exists>q H. request_of svc q \<and> EvDiscover q (Inr res) \<in> set es \<and> Discover H q = Inr res)"

definition stores_discovered :: "klib \<Rightarrow> service \<Rightarrow> trace \<Rightarrow> bool" where
  \<comment> \<open>each stored ConfigMap holds the Dockerfile of a discovery of the run\<close>
  "stores_discovered L svc es \<longleftrightarrow> (\<forall>c r. EvConfigMap (VStore c r) \<in> set es \<longrightarrow>
     (\<exists>res c0. discovered_by svc es res \<and> dockerfile_object L svc (dr_dockerfile res) (dr_dockerignore res) c0 = Inr c))"

lemma stores_append:
  "stores_discovered L svc a \<Longrightarrow> stores_discovered L svc b \<Longrightarrow> stores_discovered L svc (a @ b)"
  unfolding stores_discovered_def discovered_by_def by (simp add: Un_iff) blast

interpretation stored: composing "stores_discovered L svc" for L svc
  by unfold_locales (simp_all add: stores_append, simp add: stores_discovered_def)

fun no_config_map :: "event \<Rightarrow> bool" where
  "no_config_map (EvConfigMap (VStore c r)) = False"
| "no_config_map _ = True"

lemma no_config_map_stores: "list_all no_config_map es \<Longrightarrow> stores_discovered L svc es"
  by (auto simp: stores_discovered_def list_all_iff)

lemma request_same: "same_object svc s \<Longrightarrow> request_of svc (discoveryRequest s rv token)"
  by (auto simp: request_of_def discoveryRequest_def servicePort_def same_object_def)

lemma late_no_config_map:
  "emits (ensureCI E L R s target) no_config_map" "emits (ensureOwnCI E L R s refs) no_config_map"
  "emits (setPipelinePhase E L s) no_config_map" "emits (gitToken E R s) no_config_map"
  "emits (resolvePlugins E L s) no_config_map" "emits (svc_patch E o' s) no_config_map"
  "emits (ResolveRevision E L repo rv token) no_config_map"
  "emits (pollForCommit E L s token) no_config_map"
proof -
  show ci: "emits (ensureCI E L R s target) no_config_map" for target
    unfolding ensureCI_def by (intro emits_intros) auto
  show "emits (ensureOwnCI E L R s refs) no_config_map"
    unfolding ensureOwnCI_def by (intro emits_intros ci)
  show "emits (setPipelinePhase E L s) no_config_map"
    unfolding setPipelinePhase_def pipeline_cd_def by (intro emits_intros) auto
  show "emits (gitToken E R s) no_config_map"
    unfolding gitToken_def Let_def
    by (intro emits_intros emits_weaken [OF emits_get_secret]) (auto elim: is_secret_read.elims)
  show "emits (resolvePlugins E L s) no_config_map" "emits (svc_patch E o' s) no_config_map"
    unfolding resolvePlugins_def svc_patch_def by (intro emits_intros; simp)+
  show "emits (ResolveRevision E L repo rv token) no_config_map"
    by (rule emits_weaken [OF emits_ResolveRevision]) (elim safe_listing.elims, simp_all)
  have "emits (HasRevisionChanged E L repo rv known token) no_config_map" for repo rv known
    by (rule emits_weaken [OF emits_HasRevisionChanged]) (elim safe_listing.elims, simp_all)
  then show "emits (pollForCommit E L s token) no_config_map"
    unfolding pollForCommit_def by (intro emits_intros)
qed

lemma syncCD_no_config_map: "emits (syncCD E s) no_config_map"
proof -
  have "emits (sync_cds E s ds) no_config_map" for s ds
    by (induction ds arbitrary: s) (auto simp: Let_def intro!: emits_intros)
  then show ?thesis unfolding syncCD_def by (intro emits_intros) auto
qed

lemma settle_no_config_map: "emits (settle_pipeline E L o' s) no_config_map"
  unfolding settle_pipeline_def by (intro emits_intros syncCD_no_config_map late_no_config_map)

section \<open>The Service reconciler with the engine\<close>

fun stores_file :: "klib \<Rightarrow> service \<Rightarrow> discovery_result \<Rightarrow> event \<Rightarrow> bool" where
  "stores_file L svc res (EvConfigMap (VStore c r)) =
     (\<exists>c0. dockerfile_object L svc (dr_dockerfile res) (dr_dockerignore res) c0 = Inr c)"
| "stores_file L svc res _ = True"

lemma no_config_map_file: "no_config_map e \<Longrightarrow> stores_file L svc res e"
  by (cases e rule: no_config_map.cases) auto

lemma emits_file:
  assumes "same_object svc s"
  shows "emits (build_from E L R s sha res refs) (stores_file L svc res)"
proof -
  have delete: "emits (delete_old E L s name cs) (stores_file L svc res)" for name cs
    by (induction cs) (auto intro!: emits_intros)
  have "emits (ensureDockerfile E L s (dr_dockerfile res) (dr_dockerignore res)) (stores_file L svc res)"
    unfolding ensureDockerfile_def
    by (intro emits_intros delete) (auto simp: same_object_objects [OF assms])
  then show ?thesis
    unfolding build_from_def
    by (intro emits_intros emits_weaken [OF late_no_config_map(1)]) (simp_all add: no_config_map_file)
qed

lemma grows_discoverAndBuild:
  assumes "discovery_host E H" "same_object svc s"
  shows "grows (discoverAndBuild E L R s rv token refs) (stores_discovered L svc) (\<lambda>r. same_object svc (fst r))"
proof (rule grows_result)
  show "wp (discoverAndBuild E L R s rv token refs) (\<lambda>r _. same_object svc (fst r)) t" for t
    using result_discoverAndBuild [OF assms(2)] by (rule wp_mono) (simp add: built_def)
next
  define s' where "s' n = setPhase L n s ServicePhaseDiscovering
       (''Discovering '' @ src_repo (svs_source (sv_spec_of s)) @ '' at '' @ short_rev (rev_sha rv))" for n
  have same: "same_object svc (s' n)" for n using assms(2) by (simp add: s'_def)
  have stored: "stores_discovered L svc (EvDiscover (discoveryRequest (s' n) rv token) (Inr res) # es)"
    if "Discover (H t) (discoveryRequest (s' n) rv token) = Inr res" "list_all (stores_file L svc res) es" for n t res es
    unfolding stores_discovered_def discovered_by_def
  proof (intro allI impI)
    fix c r assume "EvConfigMap (VStore c r) \<in> set (EvDiscover (discoveryRequest (s' n) rv token) (Inr res) # es)"
    then have "stores_file L svc res (EvConfigMap (VStore c r))" using that(2) by (auto simp: list_all_iff)
    then obtain c0 where c0: "dockerfile_object L svc (dr_dockerfile res) (dr_dockerignore res) c0 = Inr c" by auto
    show "\<exists>res' c0. (\<exists>q H'. request_of svc q
          \<and> EvDiscover q (Inr res') \<in> set (EvDiscover (discoveryRequest (s' n) rv token) (Inr res) # es) \<and> Discover H' q = Inr res')
        \<and> dockerfile_object L svc (dr_dockerfile res') (dr_dockerignore res') c0 = Inr c"
      by (intro exI conjI, rule request_same [OF same], rule list.set_intros(1), rule that(1), rule c0)
  qed
  have answer: "env_discover E t q = Discover (H t) q" for t q using assms(1) by (simp add: discovery_host_def)
  show "grows (discoverAndBuild E L R s rv token refs) (stores_discovered L svc) (\<lambda>_. True)"
    unfolding grows_def discoverAndBuild_def Let_def s'_def [symmetric]
  proof (intro allI wp_intros wp_perform [THEN iffD2] wp_frame [OF emits_file [OF same]], goal_cases)
    case (1 t n m err)
    show ?case by (simp add: stores_discovered_def)
  next
    case (2 t n m res x es)
    then show ?case using stored [of t n res es] by (simp add: answer)
  qed
qed

lemma grows_advance:
  assumes H: "discovery_host E H" and same: "same_object svc s"
  shows "grows (advance E L R o' s found token refs) (stores_discovered L svc) (\<lambda>_. True)"
proof -
  note quiet = grows_emits [OF _ no_config_map_stores [of _ L svc]]
  show ?thesis
    unfolding advance_def
    by (intro grows_cases stored.grows_bind [OF grows_discoverAndBuild [OF H same]]
        stored.grows_bind [OF quiet [OF late_no_config_map(6)]]
        stored.grows_bind [OF quiet [OF late_no_config_map(2)]]
        quiet [OF settle_no_config_map] stored.grows_ret) simp_all
qed

lemma grows_find_revision:
  assumes H: "discovery_host E H"
  shows "grows (find_revision E L R svc token refs) (stores_discovered L svc) (\<lambda>_. True)"
proof -
  note quiet = grows_emits [OF _ no_config_map_stores [of _ L svc]]
  have fin: "emits (svc_finish E o' s res) no_config_map" for o' s res
    unfolding svc_finish_def by (intro emits_intros late_no_config_map)
  have poll_r: "wp (pollForCommit E L svc token) (\<lambda>r _. case r of Inl err \<Rightarrow> True | Inr (s, found) \<Rightarrow> same_object svc s) t" for t
    unfolding pollForCommit_def
    by (intro wp_intros wp_frame [OF emits_HasRevisionChanged]) (auto split: sum.splits)
  show ?thesis
    unfolding find_revision_def
    by (intro grows_cases stored.grows_bind [OF quiet [OF late_no_config_map(7)]]
        stored.grows_bind [OF stored.grows_now]
        stored.grows_bind [OF grows_both [OF late_no_config_map(8) no_config_map_stores poll_r]]
        quiet [OF fin] grows_advance [OF H]) auto
qed

lemma grows_service_body:
  assumes H: "discovery_host E H"
  shows "grows (service_body E L R svc) (stores_discovered L svc) (\<lambda>_. True)"
proof -
  note quiet = grows_emits [OF _ no_config_map_stores [of _ L svc]]
  have fin: "emits (svc_finish E o' s res) no_config_map" for o' s res
    unfolding svc_finish_def by (intro emits_intros late_no_config_map)
  show ?thesis
    unfolding service_body_def
    by (intro grows_cases stored.grows_bind [OF stored.grows_now]
        stored.grows_bind [OF quiet [OF late_no_config_map(4)]]
        stored.grows_bind [OF quiet [OF late_no_config_map(5)]]
        quiet [OF fin] stored.grows_ret grows_find_revision [OF H] TrueI)
qed

lemma DiscoverDir_valid:
  assumes "DiscoverDir root q = Inr res"
  shows "ValidateDockerfile (dr_dockerfile res) = None"
proof -
  define sub where "sub = (if dq_context_dir q \<noteq> '''' then
      (case Sub root (dq_context_dir q) of
         Inl err \<Rightarrow> Inl (wrapf (''spec.build.contextDir '' @ fmt_q (dq_context_dir q) @ '': '') err) | Inr sub \<Rightarrow> Inr sub)
    else Inr root)"
  show ?thesis
    using assms unfolding DiscoverDir_def sub_def [symmetric]
    by (cases sub) (auto split: sum.splits option.splits)
qed

lemma Discover_file:
  assumes "Discover H q = Inr res"
  shows "ValidateDockerfile (dr_dockerfile res) = None" "\<exists>root. DiscoverDir root q = Inr res"
proof -
  show root: "\<exists>root. DiscoverDir root q = Inr res"
    using assms unfolding Discover_def by (auto split: option.splits sum.splits)
  then show "ValidateDockerfile (dr_dockerfile res) = None"
    using DiscoverDir_valid by blast
qed

lemma dockerfile_object_data: "dockerfile_object L svc d i c0 = Inr c \<Longrightarrow> cm_data c ''Dockerfile'' = Some d"
  by (auto simp: dockerfile_object_def Let_def dockerfileKey_def dockerignoreKey_def split: sum.splits if_splits)

lemma service_run_stores:
  assumes "run_state (service_reconcile E L R key) t = (out, t @ es)" "discovery_host E H"
    and "EvConfigMap (VStore c r) \<in> set es"
  obtains s where "EvService (VGet key (Inr s)) \<in> set es" "stores_discovered L s es"
proof -
  let ?step = "finalizer_step E L services sv_meta (\<lambda>f s. s\<lparr>sv_meta := f (sv_meta s)\<rparr>) serviceFinalizer key (service_body E L R)"
  obtain out' where run: "run_state ?step t = (out', t @ es)"
    using assms(1) unfolding service_reconcile_def run_restart by (cases "run_state ?step t") auto
  from run show thesis
  proof (cases rule: service_kind.step_run)
    case (body s)
    let ?get = "EvService (VGet key (Inr s))"
    from grows_service_body [OF assms(2), of L R s, unfolded grows_def, rule_format, of "t @ [?get]"] body(3)
    obtain es' where es': "es = ?get # es'" "stores_discovered L s es'" by (auto dest: wpD)
    have "stores_discovered L s [?get]" by (simp add: stores_discovered_def)
    with stored.append [OF _ es'(2)] es'(1) have "stores_discovered L s es" by fastforce
    with es'(1) show thesis by (intro that [of s]) simp_all
  qed (use assms(3) in auto)
qed

text \<open>C14: With the repository's own engine behind it, a run of the Service reconciler stores a ConfigMap only for
  a discovery it made in the same run, of the Service it read: the ConfigMap holds the Dockerfile that was discovered,
  which passed the engine's check. One generated for a detected language names only the known base images and runs as
  one of the fixed users, whatever the repository holds.\<close>

theorem stored_dockerfiles:
  assumes "run_state (service_reconcile E L R key) t = (out, t @ es)" "discovery_host E H"
    and "EvConfigMap (VStore c r) \<in> set es"
  shows "\<exists>s rv token res. EvService (VGet key (Inr s)) \<in> set es
     \<and> EvDiscover (discoveryRequest s rv token) (Inr res) \<in> set es
     \<and> cm_data c ''Dockerfile'' = Some (dr_dockerfile res) \<and> ValidateDockerfile (dr_dockerfile res) = None
     \<and> (dr_source res = ''template'' \<longrightarrow>
          (\<exists>ls. split_on CHR 0x0A (dr_dockerfile res) = ls @ [''''] \<and> last_user ls \<in> set image_users
             \<and> (dq_language (discoveryRequest s rv token) = '''' \<longrightarrow> trusted_bases ls)))"
proof -
  obtain s where s: "EvService (VGet key (Inr s)) \<in> set es" "stores_discovered L s es"
    using service_run_stores [OF assms] by blast
  from s(2) assms(3) obtain res c0 q H where d: "request_of s q" "EvDiscover q (Inr res) \<in> set es" "Discover H q = Inr res"
    "dockerfile_object L s (dr_dockerfile res) (dr_dockerignore res) c0 = Inr c"
    unfolding stores_discovered_def discovered_by_def by blast
  obtain root where root: "DiscoverDir root q = Inr res" using Discover_file(2) [OF d(3)] by blast
  from d(1) obtain rv token where q: "q = discoveryRequest s rv token" unfolding request_of_def by blast
  have "dr_source res = ''template'' \<longrightarrow> (\<exists>ls. split_on CHR 0x0A (dr_dockerfile res) = ls @ [''''] \<and> last_user ls \<in> set image_users
       \<and> (dq_language q = '''' \<longrightarrow> trusted_bases ls))"
    using generated_rules [OF root] detected_base_images [OF root] q by (metis append_same_eq)
  with s(1) d Discover_file(1) [OF d(3)] dockerfile_object_data [OF d(4)] q show ?thesis by blast
qed

text \<open>A run that discovers a Go repository and stores its Dockerfile.\<close>

definition demo_host :: host where
  "demo_host = \<lparr>h_cancelled = None, h_temp_dir = Inr ''/r'', h_clone = (\<lambda>dir opts. Inr (fs_os demo_go)),
     h_checkout = (\<lambda>S dir sha. Inr S)\<rparr>"

definition demo_fresh :: service where
  "demo_fresh = demo_tracking\<lparr>sv_status_of := sv_status_of demo_service\<rparr>"

definition demo_engine_env :: env where
  "demo_engine_env = env_ref\<lparr>env_service := kapi_ref\<lparr>ka_get := (\<lambda>t key. Inr demo_fresh)\<rparr>,
     env_discover := (\<lambda>t q. Discover demo_host q)\<rparr>"

lemma demo_engine_env_simps [simp]:
  "ka_get (env_service demo_engine_env) t key = Inr demo_fresh"
  "ka_patch_status (env_service demo_engine_env) t l x y = Inr y"
  "env_config_map demo_engine_env = kapi_ref" "env_secret demo_engine_env = kapi_ref" "env_plugin demo_engine_env = kapi_ref"
  "env_discover demo_engine_env t q = Discover demo_host q" "env_now demo_engine_env t = 0"
  by (simp_all add: demo_engine_env_def kapi_ref_def)

lemma demo_fresh_request:
  "dq_context_dir (discoveryRequest demo_fresh rv token) = ''''" "dq_dockerfile_path (discoveryRequest demo_fresh rv token) = ''''"
  "dq_language (discoveryRequest demo_fresh rv token) = ''''" "dq_port (discoveryRequest demo_fresh rv token) = 8080"
  "dq_token (discoveryRequest demo_fresh rv token) = token" "dq_rev (discoveryRequest demo_fresh rv token) = rv"
  "dq_repo (discoveryRequest demo_fresh rv token) = ''https://git.example/shop/api''"
  by (simp_all add: discoveryRequest_def servicePort_def demo_fresh_def demo_tracking_def demo_service_def defaultPort_def)

lemma demo_fs: "new_fs (fs_os demo_go) ''/r'' = Inr demo_go"
  by (simp add: new_fs_def demo_go_def demo_os_def has_suffix_def)

lemma demo_discovered:
  "\<exists>res. Discover demo_host (discoveryRequest demo_fresh \<lparr>rev_sha = demo_sha, rev_ref = demo_sha\<rparr> '''') = Inr res"
proof -
  have "Detect demo_go = Some demo_go_facts"
    by (simp add: Detect_def Registry_def Go_def demo_go_detect)
  then have "\<exists>res. DiscoverDir demo_go (discoveryRequest demo_fresh rv '''') = Inr res" for rv
    by (simp add: demo_fresh_request demo_go_names DiscoverDir_def detect_def discover_file_def locateDockerfile_def
        demo_go_render Let_def render_valid [OF demo_go_render demo_go_short])
  then show ?thesis
    by (simp add: Discover_def cloneAt_def demo_host_def demo_fresh_request token_auth_def is_branch_or_tag_def has_prefix_def
        demo_fs demo_sha_def)
qed

lemma discoveryRequest_phase [simp]: "discoveryRequest (setPhase L t s ph msg) rv token = discoveryRequest s rv token"
proof -
  have "sv_spec_of (setPhase L t s ph msg) = sv_spec_of s" by (simp add: setPhase_def Let_def)
  then show ?thesis by (simp add: discoveryRequest_def servicePort_def)
qed

definition has_store :: "'a io \<Rightarrow> trace \<Rightarrow> bool" where
  "has_store m t \<longleftrightarrow> (\<exists>c r. EvConfigMap (VStore c r) \<in> set (snd (run_state m t)))"

lemma has_store_bind:
  assumes "has_store m t" "\<And>x. emits (f x) no_config_map"
  shows "has_store (m \<bind> f) t"
proof -
  obtain x t1 where m: "run_state m t = (x, t1)" by fastforce
  from assms(2) obtain es where "snd (run_state (f x) t1) = t1 @ es" unfolding emits_def by blast
  with assms(1) m show ?thesis unfolding has_store_def by auto
qed

lemma demo_ensure: "has_store (ensureDockerfile demo_engine_env demo_owner_lib s d i) t"
proof -
  obtain c where "dockerfile_object demo_owner_lib s d i
      \<lparr>cm_meta = fresh_meta (dockerfile_name demo_owner_lib s d i) (m_namespace (sv_meta s)), cm_data = Map.empty\<rparr> = Inr c"
    by (simp add: dockerfile_object_def demo_owner_lib_def Let_def)
  then show ?thesis
    by (auto simp: has_store_def ensureDockerfile_def create_or_update_def k_defs)
qed

lemma demo_engine_run:
  "has_store (service_reconcile demo_engine_env demo_owner_lib demo_service_reconciler (''shop'', ''api'')) []"
proof -
  let ?E = "demo_engine_env" and ?L = "demo_owner_lib" and ?R = demo_service_reconciler and ?s = demo_fresh
  let ?rv = "\<lparr>rev_sha = demo_sha, rev_ref = demo_sha\<rparr>"
  obtain res where res: "Discover demo_host (discoveryRequest ?s ?rv '''') = Inr res"
    using demo_discovered by blast
  have "has_store (build_from ?E ?L ?R s sha res refs) t" for s sha refs t
    unfolding build_from_def
    by (intro has_store_bind demo_ensure emits_intros late_no_config_map(1))
  then have "has_store (discoverAndBuild ?E ?L ?R ?s ?rv '''' refs) t" for refs t
    by (simp add: has_store_def discoverAndBuild_def res Let_def)
  then have adv: "has_store (advance ?E ?L ?R ?s ?s (Some ?rv) '''' refs) t" for refs t
    unfolding advance_def option.case
    by (intro has_store_bind emits_intros late_no_config_map settle_no_config_map)
  have s: "m_deletion (sv_meta ?s) = None" "lib_contains_finalizer ?L serviceFinalizer (sv_meta ?s)"
    "svst_observed_generation (sv_status_of ?s) \<noteq> m_generation (sv_meta ?s)" "svs_plugins (sv_spec_of ?s) = []"
    "src_secret_ref (svs_source (sv_spec_of ?s)) = None" "src_revision (svs_source (sv_spec_of ?s)) = demo_sha"
    by (simp_all add: demo_fresh_def demo_tracking_def demo_service_def fresh_meta_def demo_owner_lib_def klib_ref_def)
  have "validateSource klib_ref demo_fresh = None" by code_simp
  then have v: "validateSource ?L ?s = None" using validateSource_parse [of ?L klib_ref] by (simp add: demo_owner_lib_def)
  have sha: "is_sha demo_sha" by code_simp
  from adv v s sha have "has_store (service_body ?E ?L ?R ?s) t" for t
    by (simp add: has_store_def service_body_def gitToken_def resolvePlugins_def k_defs select_plugins_def Resolve_none Refs_def
        find_revision_def ResolveRevision_def)
  with s(1,2) show ?thesis
    by (simp add: has_store_def service_reconcile_def run_restart finalizer_step_def k_defs split: prod.split) (metis snd_conv)
qed

theorem stored_dockerfiles_witness:
  "\<exists>c r d. EvConfigMap (VStore c r) \<in> set (snd (run_state (service_reconcile demo_engine_env demo_owner_lib
        demo_service_reconciler (''shop'', ''api'')) []))
     \<and> cm_data c ''Dockerfile'' = Some d \<and> ValidateDockerfile d = None"
proof -
  let ?m = "service_reconcile demo_engine_env demo_owner_lib demo_service_reconciler (''shop'', ''api'')"
  have run: "run_state ?m [] = (fst (run_state ?m []), [] @ snd (run_state ?m []))" by simp
  have host: "discovery_host demo_engine_env (\<lambda>_. demo_host)" by (simp add: discovery_host_def)
  obtain c r where c: "EvConfigMap (VStore c r) \<in> set (snd (run_state ?m []))"
    using demo_engine_run unfolding has_store_def by blast
  from stored_dockerfiles [OF run host c] c show ?thesis by blast
qed

end
