(* ===== verification/Manager.thy ===== *)
theory Manager
  imports Runs CIProofs ServiceProofs CDCtrl CIPluginCtrl SelfServiceCtrl AlertCtrl
begin

text \<open>
  How the program is put together: \<^verbatim>\<open>cmd/main.go\<close>, which turns flags and environment variables into
  the reconcilers, and the \<^verbatim>\<open>SetupWithManager\<close> functions of \<^verbatim>\<open>internal/controller\<close>, which say for
  each reconciler the changes of which objects call it again. controller-runtime keeps the queues
  and calls the reconcilers; here \<open>*_requests\<close> is what a change of an object puts into a queue. The
  proofs link what a reconcile writes to the queues those writes feed.
\<close>

section \<open>cmd/main.go\<close>

record options =
  op_metrics_addr :: string
  op_probe_addr :: string
  op_leader_election :: bool
  op_secure_metrics :: bool
  op_http2 :: bool
  op_webhook_cert_path :: string
  op_webhook_cert_name :: string
  op_webhook_cert_key :: string
  op_metrics_cert_path :: string
  op_metrics_cert_name :: string
  op_metrics_cert_key :: string
  op_default_registry :: string
  op_agent_image :: string
  op_allow_unlabeled :: bool
  op_insecure_registries :: string

definition envOr :: "(string \<Rightarrow> string) \<Rightarrow> string \<Rightarrow> string \<Rightarrow> string" where
  \<comment> \<open>\<^verbatim>\<open>os.Getenv\<close> is the argument: the empty text for a variable that is not set\<close>
  "envOr getenv key fallback = (if getenv key \<noteq> '''' then getenv key else fallback)"

definition default_options :: "(string \<Rightarrow> string) \<Rightarrow> options" where
  \<comment> \<open>the options when no flag is given\<close>
  "default_options getenv = \<lparr>op_metrics_addr = ''0'', op_probe_addr = '':8081'', op_leader_election = False,
     op_secure_metrics = True, op_http2 = False,
     op_webhook_cert_path = '''', op_webhook_cert_name = ''tls.crt'', op_webhook_cert_key = ''tls.key'',
     op_metrics_cert_path = '''', op_metrics_cert_name = ''tls.crt'', op_metrics_cert_key = ''tls.key'',
     op_default_registry = envOr getenv ''KOPTAN_DEFAULT_REGISTRY'' ''docker.io'',
     op_agent_image = envOr getenv ''KOPTAN_AGENT_IMAGE'' ''ghcr.io/felukka/koptan-agent:latest'',
     op_allow_unlabeled = (getenv ''KOPTAN_ALLOW_UNLABELED_SECRETS'' = ''true''),
     op_insecure_registries = getenv ''KOPTAN_INSECURE_REGISTRIES''\<rparr>"

record manager_options =
  mo_metrics_addr :: string
  mo_metrics_secure :: bool
  mo_metrics_auth :: bool
  mo_metrics_certs :: "(string \<times> string \<times> string) option"
  mo_webhook_certs :: "(string \<times> string \<times> string) option"
  mo_protocols :: "string list option"
  mo_probe_addr :: string
  mo_leader_election :: bool
  mo_leader_id :: string

definition main_manager :: "options \<Rightarrow> manager_options" where
  \<comment> \<open>what \<^verbatim>\<open>main\<close> passes to \<^verbatim>\<open>ctrl.NewManager\<close>\<close>
  "main_manager op = \<lparr>mo_metrics_addr = op_metrics_addr op, mo_metrics_secure = op_secure_metrics op,
     mo_metrics_auth = op_secure_metrics op,
     mo_metrics_certs = (if op_metrics_cert_path op \<noteq> ''''
       then Some (op_metrics_cert_path op, op_metrics_cert_name op, op_metrics_cert_key op) else None),
     mo_webhook_certs = (if op_webhook_cert_path op \<noteq> ''''
       then Some (op_webhook_cert_path op, op_webhook_cert_name op, op_webhook_cert_key op) else None),
     mo_protocols = (if \<not> op_http2 op then Some [''http/1.1''] else None),
     mo_probe_addr = op_probe_addr op, mo_leader_election = op_leader_election op,
     mo_leader_id = ''ca42ca73.felukka.org''\<rparr>"

definition NewCIReconciler :: ci_reconciler where
  \<comment> \<open>its client answers the reads around the cache too\<close>
  "NewCIReconciler = \<lparr>cr_policy = \<lparr>sp_allow_unlabeled = False\<rparr>, cr_api_reader = False, cr_insecure = []\<rparr>"

record controllers =
  cn_service :: service_reconciler
  cn_ci :: ci_reconciler
  cn_cd :: secret_policy
  cn_self :: selfservice_reconciler

definition main_controllers :: "(string \<Rightarrow> string) \<Rightarrow> options \<Rightarrow> gerror + controllers" where
  \<comment> \<open>the reconcilers \<^verbatim>\<open>main\<close> starts; those of CIPlugin and Alert have no fields of their own\<close>
  "main_controllers getenv op =
     (let policy = \<lparr>sp_allow_unlabeled = op_allow_unlabeled op\<rparr> in
      case ParseInsecureRegistries (op_insecure_registries op) of
        Inl err \<Rightarrow> Inl err
      | Inr hosts \<Rightarrow> Inr \<lparr>
          cn_service = \<lparr>sr_default_registry = op_default_registry op, sr_policy = policy\<rparr>,
          cn_ci = NewCIReconciler\<lparr>cr_policy := policy, cr_api_reader := True, cr_insecure := hosts\<rparr>,
          cn_cd = policy,
          cn_self = \<lparr>ssr_agent_image = op_agent_image op, ssr_agent_key = getenv ''KOPTAN_AGENT_KEY'', ssr_policy = policy\<rparr>\<rparr>)"

section \<open>The watches\<close>

datatype kobject = OService service | OCI ci | OCD cd | OPlugin ciplugin | OAlert alert | OSelf selfservice
  | OPod pod | OSecret secret | ODeployment deployment | OKubeService kube_service

definition owner_request :: "string \<Rightarrow> obj_meta \<Rightarrow> nsname list" where
  \<comment> \<open>\<^verbatim>\<open>Owns\<close>: the object that controls the changed one, when it is of the reconciler's kind\<close>
  "owner_request kind m = (case m_controller m of
       None \<Rightarrow> [] | Some r \<Rightarrow> if or_kind r = kind then [(m_namespace m, or_name r)] else [])"

definition service_of_cd :: "obj_meta \<Rightarrow> nsname list" where
  \<comment> \<open>the function the Service reconciler maps CDs with\<close>
  "service_of_cd m = (if label m labelService = '''' then [] else [(m_namespace m, label m labelService)])"

definition cds_naming :: "string \<Rightarrow> cd list \<Rightarrow> nsname list" where
  "cds_naming name ds = map (\<lambda>d. meta_key (cd_meta d)) (filter (\<lambda>d. ref_name (cds_ci (cd_spec_of d)) = name) ds)"

definition cds_for_ci :: "env \<Rightarrow> obj_meta \<Rightarrow> nsname list io" where
  \<comment> \<open>the function the CD reconciler maps CIs with\<close>
  "cds_for_ci E m = do {
     r \<leftarrow> k_list E cds (m_namespace m) ListAll;
     ret (case r of Inl err \<Rightarrow> [] | Inr ds \<Rightarrow> cds_naming (m_name m) ds)
   }"

fun service_requests :: "env \<Rightarrow> kobject \<Rightarrow> nsname list io" where
  "service_requests E (OService s) = ret [meta_key (sv_meta s)]"
| "service_requests E (OCI x) = ret (owner_request ''Service'' (ci_meta x))"
| "service_requests E (OCD d) = ret (service_of_cd (cd_meta d))"
| "service_requests E (OPlugin p) = servicesForPlugin E (pl_meta p)"
| "service_requests E _ = ret []"

fun ci_requests :: "env \<Rightarrow> kobject \<Rightarrow> nsname list io" where
  "ci_requests E (OCI x) = ret [meta_key (ci_meta x)]"
| "ci_requests E (OPod p) = ret (owner_request ''CI'' (pod_meta p))"
| "ci_requests E (OCD d) = ret (owner_request ''CI'' (cd_meta d))"
| "ci_requests E _ = ret []"

fun cd_requests :: "env \<Rightarrow> kobject \<Rightarrow> nsname list io" where
  "cd_requests E (OCD d) = ret [meta_key (cd_meta d)]"
| "cd_requests E (ODeployment x) = ret (owner_request ''CD'' (d_meta x))"
| "cd_requests E (OKubeService s) = ret (owner_request ''CD'' (ks_meta s))"
| "cd_requests E (OCI x) = cds_for_ci E (ci_meta x)"
| "cd_requests E _ = ret []"

fun plugin_requests :: "env \<Rightarrow> kobject \<Rightarrow> nsname list io" where
  "plugin_requests E (OPlugin p) = ret [meta_key (pl_meta p)]"
| "plugin_requests E (OService s) = pluginsForService E (sv_meta s)"
| "plugin_requests E _ = ret []"

fun alert_requests :: "env \<Rightarrow> kobject \<Rightarrow> nsname list io" where
  "alert_requests E (OAlert a) = ret [meta_key (al_meta a)]"
| "alert_requests E (OService s) = alerts_for_object E True (sv_meta s)"
| "alert_requests E (OCI x) = alerts_for_object E False (ci_meta x)"
| "alert_requests E (OCD d) = alerts_for_object E False (cd_meta d)"
| "alert_requests E _ = ret []"

fun selfservice_requests :: "env \<Rightarrow> kobject \<Rightarrow> nsname list io" where
  "selfservice_requests E (OSelf s) = ret [meta_key (self_meta s)]"
| "selfservice_requests E (ODeployment x) = ret (owner_request ''SelfService'' (d_meta x))"
| "selfservice_requests E (OKubeService s) = ret (owner_request ''SelfService'' (ks_meta s))"
| "selfservice_requests E (OSecret s) = ret (owner_request ''SelfService'' (sec_meta s))"
| "selfservice_requests E (OService s) = ret (owner_request ''SelfService'' (sv_meta s))"
| "selfservice_requests E _ = ret []"

section \<open>What a CI run writes is watched\<close>

text \<open>
  Documented behaviour of \<^verbatim>\<open>controllerutil.SetControllerReference\<close> and
  \<^verbatim>\<open>metav1.GetControllerOf\<close>, and of the API server: an object is answered under the key it was asked
  for, and has a name.
\<close>

definition controller_lib :: "klib \<Rightarrow> bool" where
  "controller_lib L \<longleftrightarrow> (\<forall>ow m m'. lib_set_controller L ow m = Inr m' \<longrightarrow> m' = m\<lparr>m_controller := Some ow\<rparr>)
     \<and> (\<forall>m. lib_get_controller L m = m_controller m)"

definition keyed :: "env \<Rightarrow> bool" where
  "keyed E \<longleftrightarrow>
     (\<forall>t key s. ka_get (env_service E) t key = Inr s \<longrightarrow> meta_key (sv_meta s) = key \<and> m_name (sv_meta s) \<noteq> '''')
   \<and> (\<forall>t key x. ka_get (env_ci E) t key = Inr x \<longrightarrow> meta_key (ci_meta x) = key)
   \<and> (\<forall>t l x y z. ka_patch_status (env_ci E) t l x y = Inr z \<longrightarrow> meta_key (ci_meta z) = meta_key (ci_meta y))
   \<and> (\<forall>t d d'. ka_fetch (env_cd E) t d = Inr d' \<longrightarrow> meta_key (cd_meta d') = meta_key (cd_meta d))"

definition cd_linked :: "nsname \<Rightarrow> string \<Rightarrow> trace \<Rightarrow> cd \<Rightarrow> bool" where
  \<comment> \<open>the CD names the CI and the Service, and was not controlled before it was given to the CI\<close>
  "cd_linked key sname es d \<longleftrightarrow> m_namespace (cd_meta d) = fst key \<and> label (cd_meta d) labelService = sname
     \<and> ref_name (cds_ci (cd_spec_of d)) = snd key
     \<and> (\<exists>a d0. EvCD (VFetch a (Inr d0)) \<in> set es
          \<and> (m_controller (cd_meta d0) = None \<longrightarrow> owner_request ''CI'' (cd_meta d) = [key]))"

definition links :: "nsname \<Rightarrow> string \<Rightarrow> trace \<Rightarrow> bool" where
  "links key sname es \<longleftrightarrow> (\<forall>d r. EvCD (VStore d r) \<in> set es \<longrightarrow> cd_linked key sname es d)"

lemma cd_linked_mono: "cd_linked key sname es d \<Longrightarrow> set es \<subseteq> set es' \<Longrightarrow> cd_linked key sname es' d"
  unfolding cd_linked_def by (elim conjE exE, intro conjI exI, assumption+, erule (1) subsetD, assumption)

lemma links_append: "links key sname a \<Longrightarrow> links key sname b \<Longrightarrow> links key sname (a @ b)"
proof -
  assume ab: "links key sname a" "links key sname b"
  have "cd_linked key sname (a @ b) d" if "cd_linked key sname a d \<or> cd_linked key sname b d" for d
    using that by (elim disjE) (erule cd_linked_mono, simp)+
  with ab show ?thesis unfolding links_def by (simp; blast)
qed

interpretation linked: composing "links key sname" for key sname
  by unfold_locales (simp_all add: links_append, simp add: links_def)

lemma cd_object_steps:
  "\<exists>e. cd_meta e = (cd_meta d0)\<lparr>m_labels := (m_labels (cd_meta d0))(labelService \<mapsto> m_name (sv_meta svc), labelCI \<mapsto> m_name (ci_meta x))\<rparr>
     \<and> ref_name (cds_ci (cd_spec_of e)) = m_name (ci_meta x)
     \<and> cd_object L x svc d0 = (case lib_get_controller L (cd_meta e) of Some _ \<Rightarrow> Inr e
         | None \<Rightarrow> (case lib_set_controller L (ci_owner x) (cd_meta e) of Inl err \<Rightarrow> Inl err | Inr m \<Rightarrow> Inr (e\<lparr>cd_meta := m\<rparr>)))"
  unfolding cd_object_def Let_def
  by (rule exI, intro conjI) (rule_tac [3] refl, simp_all add: applyServiceToCD_def split: option.split)

lemma cd_object_links:
  assumes "cd_object L x svc d0 = Inr d" "controller_lib L"
  shows "m_namespace (cd_meta d) = m_namespace (cd_meta d0)" "label (cd_meta d) labelService = m_name (sv_meta svc)"
    "ref_name (cds_ci (cd_spec_of d)) = m_name (ci_meta x)"
    "m_controller (cd_meta d0) = None \<Longrightarrow> owner_request ''CI'' (cd_meta d) = [(m_namespace (cd_meta d0), m_name (ci_meta x))]"
proof -
  obtain e where e: "cd_meta e = (cd_meta d0)\<lparr>m_labels := (m_labels (cd_meta d0))(labelService \<mapsto> m_name (sv_meta svc), labelCI \<mapsto> m_name (ci_meta x))\<rparr>"
    "ref_name (cds_ci (cd_spec_of e)) = m_name (ci_meta x)"
    "cd_object L x svc d0 = (case lib_get_controller L (cd_meta e) of Some _ \<Rightarrow> Inr e
         | None \<Rightarrow> (case lib_set_controller L (ci_owner x) (cd_meta e) of Inl err \<Rightarrow> Inl err | Inr m \<Rightarrow> Inr (e\<lparr>cd_meta := m\<rparr>)))"
    using cd_object_steps by blast
  have lab: "labelService \<noteq> labelCI" by (simp add: labelService_def labelCI_def)
  have L: "lib_get_controller L m = m_controller m" "lib_set_controller L ow m = Inr m' \<Longrightarrow> m' = m\<lparr>m_controller := Some ow\<rparr>"
    for m m' ow using assms(2) unfolding controller_lib_def by blast+
  consider (owned) ow where "m_controller (cd_meta d0) = Some ow" "d = e"
    | (given) "m_controller (cd_meta d0) = None" "d = e\<lparr>cd_meta := (cd_meta e)\<lparr>m_controller := Some (ci_owner x)\<rparr>\<rparr>"
    using assms(1) e L by (auto split: option.splits sum.splits)
  then have "m_namespace (cd_meta d) = m_namespace (cd_meta d0) \<and> label (cd_meta d) labelService = m_name (sv_meta svc)
    \<and> ref_name (cds_ci (cd_spec_of d)) = m_name (ci_meta x)
    \<and> (m_controller (cd_meta d0) = None \<longrightarrow> owner_request ''CI'' (cd_meta d) = [(m_namespace (cd_meta d0), m_name (ci_meta x))])"
    by cases (use e lab in \<open>simp_all add: label_def owner_request_def ci_owner_def\<close>)
  then show "m_namespace (cd_meta d) = m_namespace (cd_meta d0)" "label (cd_meta d) labelService = m_name (sv_meta svc)"
    "ref_name (cds_ci (cd_spec_of d)) = m_name (ci_meta x)"
    "m_controller (cd_meta d0) = None \<Longrightarrow> owner_request ''CI'' (cd_meta d) = [(m_namespace (cd_meta d0), m_name (ci_meta x))]"
    by blast+
qed

lemma grows_ensureCD:
  assumes L: "controller_lib L" and E: "keyed E" and x: "meta_key (ci_meta x) = key"
  shows "grows (ensureCD E L x svc) (links key (m_name (sv_meta svc))) (\<lambda>_. True)"
proof -
  let ?new = "empty_cd (m_name (sv_meta svc) @ ''-cd'') (m_namespace (ci_meta x))"
  have ns: "m_namespace (cd_meta d0) = fst key" if "ka_fetch (env_cd E) t ?new = Inr d0" for t d0
    using that E x unfolding keyed_def by (auto simp: meta_key_def empty_cd_def fresh_meta_def)
  have key: "m_namespace (ci_meta x) = fst key" "m_name (ci_meta x) = snd key" using x by (auto simp: meta_key_def)
  have link: "links key (m_name (sv_meta svc)) [EvCD (VFetch ?new (Inr d0)), EvCD (VStore d r)]"
    if "ka_fetch (env_cd E) t ?new = Inr d0" "cd_object L x svc d0 = Inr d" for t d0 d r
    using cd_object_links [OF that(2) L] ns [OF that(1)] key by (auto simp: links_def cd_linked_def)
  have none: "links key (m_name (sv_meta svc)) [EvCD (VFetch ?new r)]" for r by (simp add: links_def)
  show ?thesis
    unfolding grows_def ensureCD_def create_or_update_def
    by (auto simp: wp_bind wp_k wp_ret none link split: sum.split)
qed

fun no_cd :: "event \<Rightarrow> bool" where
  "no_cd (EvCD (VStore d r)) = False"
| "no_cd _ = True"

lemma no_cd_links: "list_all no_cd es \<Longrightarrow> links key sname es"
  by (auto simp: links_def list_all_iff)

lemma ci_no_cd:
  "emits (finish_patch E o' x res) no_cd" "emits (ci_patch E o' x) no_cd" "emits (buildPodOf E R x) no_cd"
  "emits (startBuild E L R x svc sha img) no_cd" "emits (resolveService E x) no_cd"
proof -
  show patch: "emits (ci_patch E o' x) no_cd" for o' x
    unfolding ci_patch_def by (intro emits_intros) simp
  then show fin: "emits (finish_patch E o' x res) no_cd" for o' x res
    unfolding finish_patch_def by (intro emits_intros)
  show "emits (buildPodOf E R x) no_cd"
    unfolding buildPodOf_def api_get_def Let_def by (intro emits_intros) simp_all
  show "emits (resolveService E x) no_cd"
    unfolding resolveService_def by (intro emits_intros) simp
  have secret: "emits (registrySecret E L R x) no_cd" for x
    unfolding registrySecret_def Let_def
    by (intro emits_intros emits_weaken [OF emits_get_secret]) (auto elim: is_secret_read.elims)
  have "emits (get_plugins E ns ps rs) no_cd" for ns ps rs
    by (induction rs arbitrary: ps) (auto intro!: emits_intros)
  then have steps: "emits (pluginSteps E L x svc sha) no_cd" for x
    unfolding pluginSteps_def by (intro emits_intros)
  have launch: "emits (launchBuild E L R o' x svc sha img cfg steps) no_cd" for o' x cfg steps
    unfolding launchBuild_def deleteBuildPods_def check_pod_def Let_def
    by (intro emits_intros fin patch emits_weaken [OF emits_check_pod_spec]) (auto elim: is_secret_read.elims)
  show "emits (startBuild E L R x svc sha img) no_cd"
    unfolding startBuild_def Let_def by (intro emits_intros secret steps launch fin)
qed

lemma grows_ci_body:
  assumes L: "controller_lib L" and E: "keyed E" and x: "meta_key (ci_meta x) = key"
  shows "grows (ci_body E L R x) (links key (ref_name (cis_service (ci_spec_of x)))) (\<lambda>_. True)"
proof -
  let ?name = "ref_name (cis_service (ci_spec_of x))"
  let ?C = "links key ?name"
  note quiet = grows_emits [OF _ no_cd_links [of _ key ?name]]
  note now = linked.grows_bind [OF linked.grows_now]
  have cd: "grows (ensureCD E L z svc) ?C (\<lambda>_. True)" if "m_name (sv_meta svc) = ?name" "meta_key (ci_meta z) = key" for z svc
    using grows_ensureCD [OF L E that(2)] that(1) by metis
  have svc: "grows (resolveService E x) ?C (\<lambda>r. \<forall>s. r = Inr s \<longrightarrow> m_name (sv_meta s) = ?name)"
  proof (rule grows_both [OF ci_no_cd(5) no_cd_links])
    show "wp (resolveService E x) (\<lambda>r _. \<forall>s. r = Inr s \<longrightarrow> m_name (sv_meta s) = ?name) t" for t
      using E unfolding keyed_def by (auto simp: resolveService_def wp_k meta_key_def)
  qed
  have patch: "grows (ci_patch E x y) ?C (\<lambda>r. \<forall>z. r = Inr z \<longrightarrow> meta_key (ci_meta z) = meta_key (ci_meta y))" for y
  proof (rule grows_both [OF ci_no_cd(2) no_cd_links])
    show "wp (ci_patch E x y) (\<lambda>r _. \<forall>z. r = Inr z \<longrightarrow> meta_key (ci_meta z) = meta_key (ci_meta y)) t" for t
      using E unfolding keyed_def by (simp add: ci_patch_def wp_k)
  qed
  have same: "meta_key (ci_meta (succeed_build L t (with_plugin_results L x p) img sha)) = key" for t p img sha
    using x by (simp add: succeed_build_def with_plugin_results_def Let_def)
  have follow: "grows (followBuild E L R x svc sha img) ?C (\<lambda>_. True)" if "m_name (sv_meta svc) = ?name" for svc sha img
    unfolding followBuild_def
    by (intro grows_cases linked.grows_bind [OF quiet [OF ci_no_cd(3)]] now quiet [OF ci_no_cd(1)]
        linked.grows_ret [where R = "\<lambda>_. True", OF TrueI] linked.grows_bind [OF patch] linked.grows_bind [OF cd [OF that]])
      (use same in auto)
  show ?thesis
    unfolding ci_body_def
    by (intro grows_cases linked.grows_bind [OF svc] now quiet [OF ci_no_cd(1)] quiet [OF ci_no_cd(4)]
        follow linked.grows_bind [OF cd] linked.grows_ret [where R = "\<lambda>_. True", OF TrueI])
      (use x in auto)
qed

lemma get_first:
  assumes "run_state (k_get E K key \<bind> f) t = (out, t @ es)" "\<And>r. emits (f r) P"
  shows "\<exists>es'. es = kd_event K (VGet key (ka_get (kd_api K E) t key)) # es'"
proof -
  let ?t = "t @ [kd_event K (VGet key (ka_get (kd_api K E) t key))]"
  have "run_state (f (ka_get (kd_api K E) t key)) ?t = (out, t @ es)" using assms(1) by (simp add: k_get_def)
  from emitsD [OF assms(2) this] show ?thesis by auto
qed

lemma ci_step_answer:
  assumes "run_state (finalizer_step E L cis ci_meta (\<lambda>f x. x\<lparr>ci_meta := f (ci_meta x)\<rparr>) ciFinalizer key (ci_body E L R)) t = (out, t @ es)"
  shows "\<exists>es'. es = EvCI (VGet key (ka_get (env_ci E) t key)) # es'"
proof -
  have body: "emits (ci_body E L R x) (\<lambda>_. True)" for x
    by (rule emits_wpI, rule wp_mono [OF wp_ci_body]) (auto simp: list_all_iff)
  show ?thesis
    using get_first [OF assms [unfolded finalizer_step_def], where P = "\<lambda>_. True"] by (auto intro!: emits_intros body)
qed

text \<open>C17: The controllers of one pipeline are connected by what they write. Every CD a run of the CI reconciler stores
  is in the namespace of the CI it read and puts the Service the CI builds for into the Service reconciler's queue when it
  changes, which is how a finished rollout makes the Service Ready; a change of the CI puts the CD, once it is listed,
  into the CD reconciler's queue, which is how a new image is rolled out; and a CD nobody controlled before wakes the CI that
  stored it.\<close>

theorem stored_cd_wakes_pipeline:
  assumes "run_state (ci_reconcile E L R key) t = (out, t @ es)" "controller_lib L" "keyed E"
    and "EvCD (VStore d r) \<in> set es"
  shows "\<exists>x. EvCI (VGet key (Inr x)) \<in> set es \<and> m_namespace (cd_meta d) = fst key
     \<and> (ref_name (cis_service (ci_spec_of x)) \<noteq> '''' \<longrightarrow>
          service_requests F (OCD d) = ret [(fst key, ref_name (cis_service (ci_spec_of x)))])
     \<and> (\<forall>u ds. ka_list (env_cd F) u (fst key) ListAll = Inr ds \<longrightarrow> d \<in> set ds \<longrightarrow>
          meta_key (cd_meta d) \<in> set (fst (run_state (cd_requests F (OCI x)) u)))
     \<and> (\<exists>a d0. EvCD (VFetch a (Inr d0)) \<in> set es
          \<and> (m_controller (cd_meta d0) = None \<longrightarrow> ci_requests F (OCD d) = ret [key]))"
proof -
  let ?step = "finalizer_step E L cis ci_meta (\<lambda>f x. x\<lparr>ci_meta := f (ci_meta x)\<rparr>) ciFinalizer key (ci_body E L R)"
  obtain out' where run: "run_state ?step t = (out', t @ es)"
    using assms(1) unfolding ci_reconcile_def run_restart by (cases "run_state ?step t") auto
  from run show ?thesis
  proof (cases rule: ci_kind.step_run)
    case (body x)
    let ?name = "ref_name (cis_service (ci_spec_of x))" and ?get = "EvCI (VGet key (Inr x))"
    obtain es1 where es1: "t @ es = (t @ [?get]) @ es1"
      using emitsD [OF emits_wpI [OF wp_mono [OF wp_ci_body]] body(3), where P = "\<lambda>_. True"] by (auto simp: list_all_iff)
    obtain es2 where "es = EvCI (VGet key (ka_get (env_ci E) t key)) # es2" using ci_step_answer [OF run] by blast
    with es1 have "ka_get (env_ci E) t key = Inr x" by simp
    then have x: "meta_key (ci_meta x) = key" using assms(3) unfolding keyed_def by blast
    have "links key ?name es1"
      using grows_ci_body [OF assms(2,3) x, unfolded grows_def, rule_format, of R "t @ [?get]"] body(3) es1 by (auto dest: wpD)
    moreover have "EvCD (VStore d r) \<in> set es1" using assms(4) es1 by auto
    ultimately have "cd_linked key ?name es1 d" unfolding links_def by blast
    then obtain a d0 where d: "m_namespace (cd_meta d) = fst key" "label (cd_meta d) labelService = ?name"
      "ref_name (cds_ci (cd_spec_of d)) = snd key" "EvCD (VFetch a (Inr d0)) \<in> set es1"
      "m_controller (cd_meta d0) = None \<longrightarrow> owner_request ''CI'' (cd_meta d) = [key]"
      unfolding cd_linked_def by (elim conjE exE) (rule that)
    have "?name \<noteq> '''' \<longrightarrow> service_requests F (OCD d) = ret [(fst key, ?name)]"
      using d(1,2) by (simp add: service_of_cd_def)
    moreover have "meta_key (cd_meta d) \<in> set (fst (run_state (cd_requests F (OCI x)) u))"
      if "ka_list (env_cd F) u (fst key) ListAll = Inr ds" "d \<in> set ds" for u ds
      using that x d(3) by (auto simp: cds_for_ci_def k_list_def cds_naming_def meta_key_def)
    moreover have "\<exists>a d0. EvCD (VFetch a (Inr d0)) \<in> set es \<and> (m_controller (cd_meta d0) = None \<longrightarrow> ci_requests F (OCD d) = ret [key])"
      by (intro exI [of _ a] exI [of _ d0]) (use d(4,5) es1 in simp)
    moreover have "?get \<in> set es" using es1 by simp
    ultimately show ?thesis using d(1) by (intro exI [of _ x] conjI allI impI) simp_all
  qed (use assms(4) in auto)
qed

definition demo_settled :: ci where
  "demo_settled = demo_ci\<lparr>ci_status_of := (ci_status_of demo_ci)\<lparr>cst_phase := CIPhaseSucceeded,
     cst_building_revision := demo_sha, cst_observed_generation := 1\<rparr>\<rparr>"

definition demo_keyed_env :: env where
  "demo_keyed_env = env_ref\<lparr>
     env_service := kapi_ref\<lparr>ka_get := (\<lambda>t key. if key = (''shop'', ''api'') then Inr demo_service else ka_get kapi_ref t key)\<rparr>,
     env_ci := kapi_ref\<lparr>ka_get := (\<lambda>t key. if key = (''shop'', ''api-ci'') then Inr demo_settled else ka_get kapi_ref t key)\<rparr>\<rparr>"

lemma demo_keyed: "keyed demo_keyed_env" "controller_lib demo_owner_lib"
  by (auto simp: keyed_def demo_keyed_env_def demo_service_def demo_settled_def demo_ci_def meta_key_def fresh_meta_def
      controller_lib_def demo_owner_lib_def klib_ref_def split: if_splits)

lemma demo_cd_stored:
  "\<exists>d r. EvCD (VStore d r) \<in> set (snd (run_state (ci_reconcile demo_keyed_env demo_owner_lib demo_reconciler (''shop'', ''api-ci'')) []))"
proof -
  let ?E = demo_keyed_env and ?L = demo_owner_lib and ?x = demo_settled
  have get: "ka_get (env_ci ?E) t (''shop'', ''api-ci'') = Inr ?x" "ka_get (env_service ?E) t (''shop'', ''api'') = Inr demo_service"
    "env_cd ?E = kapi_ref" for t
    by (simp_all add: demo_keyed_env_def)
  have x: "m_deletion (ci_meta ?x) = None" "lib_contains_finalizer ?L ciFinalizer (ci_meta ?x)" "m_namespace (ci_meta ?x) = ''shop''"
    "ref_name (cis_service (ci_spec_of ?x)) = ''api''" "cis_revision (ci_spec_of ?x) \<noteq> ''''"
    "cis_dockerfile_config_map (ci_spec_of ?x) \<noteq> ''''" "current_build ?x" "cst_phase (ci_status_of ?x) = CIPhaseSucceeded"
    by (simp_all add: demo_settled_def demo_ci_def fresh_meta_def demo_owner_lib_def klib_ref_def current_build_def demo_sha_def)
  have v: "validateBuild ?L ?x demo_service = None"
    using demo_start(4) by (simp add: demo_settled_def validateBuild_spec)
  have set: "lib_set_controller ?L ow m = Inr (m\<lparr>m_controller := Some ow\<rparr>)" for ow m by (simp add: demo_owner_lib_def)
  have "\<exists>d. cd_object ?L ?x demo_service d0 = Inr d" for d0
    using cd_object_steps [of d0 demo_service ?x ?L] by (auto simp: set split: option.split)
  then obtain d where d: "cd_object ?L ?x demo_service (empty_cd (m_name (sv_meta demo_service) @ ''-cd'') ''shop'') = Inr d" by blast
  show ?thesis
    by (auto simp: ci_reconcile_def run_restart finalizer_step_def k_defs get x ci_body_def resolveService_def v ensureCD_def
        create_or_update_def d Let_def split: prod.split)
qed

theorem stored_cd_wakes_pipeline_witness:
  "\<exists>d r. EvCD (VStore d r) \<in> set (snd (run_state (ci_reconcile demo_keyed_env demo_owner_lib demo_reconciler (''shop'', ''api-ci'')) []))
     \<and> m_namespace (cd_meta d) = ''shop''"
proof -
  let ?m = "ci_reconcile demo_keyed_env demo_owner_lib demo_reconciler (''shop'', ''api-ci'')"
  have run: "run_state ?m [] = (fst (run_state ?m []), [] @ snd (run_state ?m []))" by simp
  obtain d r where d: "EvCD (VStore d r) \<in> set (snd (run_state ?m []))" using demo_cd_stored by blast
  from stored_cd_wakes_pipeline [OF run demo_keyed(2,1) d] d show ?thesis by auto
qed

text \<open>The CI a Service run stores wakes that Service, unless another object controlled it before.\<close>

lemma applyRegistry_meta: "ci_meta (applyRegistry R svc x) = ci_meta x"
  by (simp add: applyRegistry_def Let_def)

lemma ci_object_owner:
  assumes "ci_object L R svc target x0 = Inr x" "controller_lib L" "m_controller (ci_meta x0) = None"
  shows "owner_request ''Service'' (ci_meta x) = [(m_namespace (ci_meta x0), m_name (sv_meta svc))]"
proof -
  let ?labels = "(m_labels (ci_meta x0))(labelService \<mapsto> m_name (sv_meta svc), labelLanguage \<mapsto> ct_language target)"
  have get: "lib_get_controller L m = m_controller m" for m using assms(2) unfolding controller_lib_def by blast
  obtain m where "lib_set_controller L (service_owner svc) ((ci_meta x0)\<lparr>m_labels := ?labels\<rparr>) = Inr m" "ci_meta x = m"
    using assms(1,3) get by (auto simp: ci_object_def Let_def applyRegistry_meta split: sum.splits)
  then have "ci_meta x = (ci_meta x0)\<lparr>m_labels := ?labels, m_controller := Some (service_owner svc)\<rparr>"
    using assms(2) unfolding controller_lib_def by blast
  then show ?thesis by (simp add: owner_request_def service_owner_def)
qed

end
