(* ===== verification/Spec2Isabelle.thy ===== *)
theory Spec2Isabelle
  imports Components CIProofs CDProofs CIPluginCtrl SelfServiceProofs LanguageProofs TransportProofs Pipeline Manager
begin

text \<open>
  Koptan is a Kubernetes operator: users write Services, and the operator finds out how each Service's
  repository is built, builds it, deploys it and tells them about it. This development models its Go
  code (\<^verbatim>\<open>src/api\<close>, \<^verbatim>\<open>src/cmd\<close>, \<^verbatim>\<open>src/internal\<close>) and proves what makes it correct.

  \<^bold>\<open>The program.\<close> Six reconcilers (\<^verbatim>\<open>internal/controller\<close>) are called by controller-runtime with the key of an
  object that changed, read objects of the API server and write others; they share nothing but those objects.
  A \<^emph>\<open>Service\<close> names a git repository. Its reconciler resolves the tracked revision (\<^verbatim>\<open>internal/utils\<close>), runs
  discovery on a clone (\<^verbatim>\<open>internal/service\<close>: the repository's own Dockerfile, or one rendered from a template for
  the language found), stores the Dockerfile in a ConfigMap and points a \<^emph>\<open>CI\<close> at the revision, with the
  \<^emph>\<open>CIPlugins\<close> that apply (\<^verbatim>\<open>internal/plugins\<close>). The CI reconciler runs a build Pod, follows it and creates a
  \<^emph>\<open>CD\<close>; the CD reconciler turns that into a Deployment and a Kubernetes Service and reports the rollout, from
  which the Service reconciler derives the Service's phase. \<^emph>\<open>Alerts\<close> send what happened to chat channels and
  webhooks (\<^verbatim>\<open>internal/alerting\<close>, \<^verbatim>\<open>internal/notify\<close>). A \<^emph>\<open>SelfService\<close> creates a repository on GitHub or GitLab
  (\<^verbatim>\<open>internal/gitprovider\<close>), runs a coding agent in a session on it and creates the Service for it.

  \<^bold>\<open>The model.\<close> A reconcile is a function of type \<open>'a io\<close> (theory \<open>Effects\<close>): a state monad over the history of
  requests made, with an environment \<open>env\<close> that answers each request from the history before it. Every request is an
  event of the history with its answer: get, list, create, update, patch, delete of each kind of object, the listing
  of a remote's references, a discovery, an HTTP exchange, a pause. A property of a run is a property of every history a run
  can add, for every environment: the API server may fail, answer stale objects or change between two requests.
  Where Go changes an object in place, the definitions return the changed object. Errors are values of
  \<open>gerror + 'a\<close>; a panic is an error of a class of its own. The structs of \<^verbatim>\<open>api/v1\<close> are records, the enumerations
  datatypes. Strings are lists of bytes. Sizes that Go keeps in \<^verbatim>\<open>int\<close> are \<open>int\<close> or \<open>nat\<close>, the bytes of addresses
  and the pads of the signature are \<open>8 word\<close>, and \<^verbatim>\<open>strconv.Atoi\<close> and JSON integers keep their 64 bits.
\<close>

text \<open>
  \<^bold>\<open>Theories and sources.\<close>

  \<^item> \<open>Prelude\<close>, \<open>GoStrings\<close>, \<open>Kube\<close>, \<open>Effects\<close>, \<open>Runs\<close>: shared lemmas and collections of facts (\<open>emits_intros\<close>,
    \<open>wp_simps\<close>, \<open>wp_intros\<close>); Go's string functions; the Kubernetes data the code uses and, as the
    parameter \<open>klib\<close>, the library functions; the monad, what a handler \<open>emits\<close>, its weakest preconditions \<open>wp\<close>,
    and conditions on whole runs (\<open>grows\<close>, locale \<open>composing\<close>).
  \<^item> \<open>ApiTypes\<close>: \<^verbatim>\<open>api/v1/*_types.go\<close>.
  \<^item> \<open>Regexps\<close>, \<open>Utils\<close>, \<open>Git\<close>: \<^verbatim>\<open>internal/utils\<close>. Regular expressions with their language; validation of URLs,
    revisions and paths; which remote gets the token; resolution of a revision.
  \<^item> \<open>Secrets\<close>: \<^verbatim>\<open>internal/controller/credentials.go\<close>, the policy on Secrets and the check of a pod spec.
  \<^item> \<open>Renderers\<close>, \<open>Plugins\<close>: \<^verbatim>\<open>internal/plugins\<close>. The Go interface is the locale \<open>renderer_contract\<close>, interpreted on the
    three renderers; resolution sorts with an instance of \<open>linorder\<close> for the key of a plugin.
  \<^item> \<open>Ctrl\<close>: what the reconcilers share; locale \<open>finalized_kind\<close> for deletion and finalizers, interpreted for four kinds.
  \<^item> \<open>CIBuild\<close>, \<open>CICtrl\<close>, \<open>CIProofs\<close>: \<^verbatim>\<open>ci_build.go\<close>, \<^verbatim>\<open>ci_plugins.go\<close>, \<^verbatim>\<open>ci_controller.go\<close>. The build Pod, the
    reconcile, and its status as a state machine: the step relation \<open>ci_step\<close>, reachable statuses, their invariant, and that every
    status a run writes is a step.
  \<^item> \<open>CDCtrl\<close>, \<open>CDProofs\<close>: \<^verbatim>\<open>cd_controller.go\<close>. What a run writes, and when it may report Running.
  \<^item> \<open>ServiceCtrl\<close>, \<open>ServiceProofs\<close>: \<^verbatim>\<open>service_*.go\<close>. \<open>service_flow\<close> is the shape of every run; the properties are on the
    phase Ready and on what a CI is set up with.
  \<^item> \<open>CIPluginCtrl\<close>: \<^verbatim>\<open>ciplugin_controller.go\<close>.
  \<^item> \<open>Notify\<close>, \<open>Transport\<close>, \<open>TransportProofs\<close>: \<^verbatim>\<open>internal/notify\<close>. Messages as JSON, posting with retries, the dialer's filter of
    addresses with the parsing and printing of addresses by package \<^verbatim>\<open>net\<close>.
  \<^item> \<open>Alerting\<close>, \<open>AlertCtrl\<close>: \<^verbatim>\<open>internal/alerting\<close>, \<^verbatim>\<open>alert_controller.go\<close>, \<^verbatim>\<open>alert_targets.go\<close>.
  \<^item> \<open>Json\<close>, \<open>GitProvider\<close>, \<open>SelfServiceCtrl\<close>, \<open>SelfServiceProofs\<close>: decoding of JSON, \<^verbatim>\<open>internal/gitprovider\<close>,
    \<^verbatim>\<open>selfservice_*.go\<close>.
  \<^item> \<open>Search\<close>, \<open>RepoFS\<close>, \<open>Languages\<close>, \<open>Render\<close>, \<open>Discovery\<close>: \<^verbatim>\<open>internal/service\<close>. Go's leftmost-first matching; the view
    of a clone that keeps every read inside; the nine detectors; the nine templates; the engine. \<open>Trimming\<close>,
    \<open>DiscoveryProofs\<close> and \<open>LanguageProofs\<close> prove what a repository can and cannot make of them.
  \<^item> \<open>Manager\<close>: \<^verbatim>\<open>cmd/main.go\<close> and the watches of the six \<^verbatim>\<open>SetupWithManager\<close>, with the link between what a CI run
    writes and the queues it feeds. \<open>Pipeline\<close>: the Service reconciler with the discovery engine behind it.
  \<^item> \<open>Demo\<close>, \<open>Components\<close>: objects for the closed instances, and the properties of the parts without a reconciler.

  \<^bold>\<open>The properties\<close> stand right after the text that states them, each with a closed instance when it has a hypothesis. They
  are of these kinds. What must have happened in a run before it may write something: build Pods, Deployments,
  agents, phases, Dockerfiles (safety; by \<open>emits\<close>, \<open>wp\<close> and the flow of the runs). What a run achieves when it is answered: builds
  start and finish, rollouts end, Services and sessions become ready (liveness; by running the handler). The
  statuses of a CI as a machine (invariant, refinement). Exact characterisations of checks and plans
  (functional, equivalence), round trips of the encodings with the decoders, bounds, error paths.
\<close>

text \<open>
  \<^bold>\<open>Bounds and fuel.\<close> Recursion is structural or on a decreasing size, but for these. The JSON parser takes fuel,
  \<open>json_fuel\<close>, twice the length of the text plus two, which is proved to be enough; like Go it refuses nesting deeper than
  10000 (\<open>max_nesting\<close>). \<open>post\<close> makes at most three attempts, as the code counts them. \<open>replace_upto\<close> and
  \<open>iterations\<close> (the repetitions of a pattern) are bounded by the length of the text, and an empty repetition ends a
  loop as it does in Go. \<open>strip_seqs\<close> runs as often as the text is long, enough since each round removes a byte. \<open>ipv6_groups\<close>
  reads at most the eight groups of an address. Lines longer than \<open>max_token\<close> (65536) end a scan, as in
  \<^verbatim>\<open>bufio.Scanner\<close>.

  \<^bold>\<open>Parameters.\<close> Code that is not under \<^verbatim>\<open>src/\<close> is an argument: \<open>env\<close> (API server, git remotes, HTTP servers, the clock, the
  cancellation of a context); \<open>klib\<close> (conditions, finalizers, owners, selectors, SHA-256, \<^verbatim>\<open>url.Parse\<close>);
  \<open>json_lib\<close> (the texts of decoding errors and of a printed \<^verbatim>\<open>float64\<close>); \<open>host\<close> and \<open>os\<close> (go-git, temporary
  directories, symbolic links and files). A property that relies on them names it: \<open>conditions_lib\<close>, \<open>controller_lib\<close>,
  \<open>keyed\<close>, \<open>resolves_links\<close>, or the answers a progress property needs. \<open>discovery_host\<close> says that the environment's
  discovery is the engine of this repository.

  \<^bold>\<open>Not modelled.\<close> \<^verbatim>\<open>NewHTTPClient\<close> (time-outs, no redirects: configuration of \<^verbatim>\<open>net/http\<close>); of \<^verbatim>\<open>main\<close> the parsing
  of flags, the registration of schemes and health checks and the start, which are calls of libraries; the deep copies
  in \<^verbatim>\<open>zz_generated.deepcopy.go\<close>, generated, and without meaning for values that are not shared; logging; the
  RBAC markers and other comments; the queues and caches of controller-runtime (a run is any run, whatever made it
  start and however stale its reads are); the coding agent, the manifests and the tests. Regular expressions are matched
  on bytes, which for the patterns and classes in use agrees with matching on runes. Owner references keep the kind of the
  owner and not its group.
\<close>

end
